theory Spec2Isabelle
  imports Complex_Main "HOL-Library.Log_Nat"
begin

section \<open>The Python runtime as far as the visualizer scripts use it\<close>

text \<open>
  The four scripts under \<open>scripts/visualizers\<close> are Python programs. Python integers are
  unbounded and are modelled by \<open>int\<close>. Exceptions are values of the type \<open>error\<close>; a
  computation that may raise returns a sum with the exception on the left.
\<close>

datatype error =
    ValueError
  | NameError
  | IndexError
  | AttributeError
  | TypeError
  | KeyboardInterrupt
  | LibraryError string

text \<open>
  \<open>except Exception\<close> catches every exception of the model but \<open>KeyboardInterrupt\<close>,
  which derives from \<open>BaseException\<close> only.
\<close>

definition is_Exception :: "error \<Rightarrow> bool" where
  "is_Exception e = (e \<noteq> KeyboardInterrupt)"

definition bindE :: "'e + 'a \<Rightarrow> ('a \<Rightarrow> 'e + 'b) \<Rightarrow> 'e + 'b" where
  "bindE m f = (case m of Inl e \<Rightarrow> Inl e | Inr v \<Rightarrow> f v)"

subsection \<open>Floats\<close>

text \<open>
  Wall-clock readings (\<open>time.time()\<close>) and intensities are Python floats, that is IEEE 754
  binary64 numbers. A float is modelled by the rational number that it denotes. An
  arithmetic operation on floats, and the reading of a float literal, yields the float
  nearest to the exact result, a tie going to the even significand. \<open>float_round\<close> is
  this rounding: the exact value is divided by the unit in the last place of its binade,
  which leaves a number from \<open>2^52\<close> up to \<open>2^53\<close>, rounded to an integer and multiplied
  back. The exponent range is not modelled (no overflow, no subnormal numbers); the clock
  readings and intensities of the scripts are far inside it. Comparisons of floats are
  exact.
\<close>

text \<open>For \<open>x > 0\<close>, the exponent \<open>e\<close> with \<open>2^e \<le> x < 2^(e+1)\<close>.\<close>

definition float_exponent :: "rat \<Rightarrow> int" where
  "float_exponent x =
     (let (a, b) = quotient_of x;
          e = bitlen a - bitlen b
      in if 2 powi e \<le> x then e else e - 1)"

definition round_half_even :: "rat \<Rightarrow> int" where
  "round_half_even q =
     (let n = \<lfloor>q\<rfloor>; r = q - of_int n
      in if r < 1 / 2 then n else if 1 / 2 < r then n + 1 else if even n then n else n + 1)"

definition float_round :: "rat \<Rightarrow> rat" where
  "float_round x =
     (if x = 0 then 0
      else let ulp = 2 powi (float_exponent \<bar>x\<bar> - 52)
           in sgn x * of_int (round_half_even (\<bar>x\<bar> / ulp)) * ulp)"

definition float_add :: "rat \<Rightarrow> rat \<Rightarrow> rat" where
  "float_add a b = float_round (a + b)"

definition float_sub :: "rat \<Rightarrow> rat \<Rightarrow> rat" where
  "float_sub a b = float_round (a - b)"

definition float_mul :: "rat \<Rightarrow> rat \<Rightarrow> rat" where
  "float_mul a b = float_round (a * b)"

definition float_div :: "rat \<Rightarrow> rat \<Rightarrow> rat" where
  "float_div a b = float_round (a / b)"

text \<open>The rationals that are floats: rounding leaves them as they are.\<close>

definition is_float :: "rat \<Rightarrow> bool" where
  "is_float x = (float_round x = x)"

text \<open>\<open>int(x)\<close> on a float truncates towards zero.\<close>

definition py_int :: "rat \<Rightarrow> int" where
  "py_int r = (if 0 \<le> r then \<lfloor>r\<rfloor> else \<lceil>r\<rceil>)"

subsection \<open>The module \<open>random\<close>\<close>

text \<open>
  The generator is a stream of raw draws about which nothing is assumed. Each call of
  the module takes the head draw and maps it into the range the call promises, so every
  result the library can return is the image of some stream, and every theorem below
  holds for all streams. Calls that only choose what is drawn on the screen are not
  modelled; they consume draws, which renames the stream and nothing else.
\<close>

type_synonym rng = "nat \<Rightarrow> rat"

definition rng_next :: "rng \<Rightarrow> rng" where
  "rng_next g = (\<lambda>n. g (Suc n))"

text \<open>\<open>random.random()\<close>: a float in \<open>[0, 1)\<close>, a multiple of \<open>2^-53\<close>.\<close>

definition random_random :: "rng \<Rightarrow> rat \<times> rng" where
  "random_random g = (of_int (\<lfloor>g 0\<rfloor> mod 2 ^ 53) / 2 ^ 53, rng_next g)"

text \<open>\<open>random.randint(a, b)\<close>: an integer in \<open>[a, b]\<close>; an empty range raises ValueError.\<close>

definition randint :: "int \<Rightarrow> int \<Rightarrow> rng \<Rightarrow> error + (int \<times> rng)" where
  "randint a b g =
     (if b < a then Inl ValueError
      else Inr (a + \<lfloor>g 0\<rfloor> mod (b - a + 1), rng_next g))"

text \<open>\<open>random.choice(seq)\<close>: an element of the sequence; an empty one raises IndexError.\<close>

definition choice :: "'a list \<Rightarrow> rng \<Rightarrow> error + ('a \<times> rng)" where
  "choice xs g =
     (if xs = [] then Inl IndexError
      else Inr (xs ! nat (\<lfloor>g 0\<rfloor> mod int (length xs)), rng_next g))"

text \<open>
  \<open>random.sample(population, k)\<close>: \<open>k\<close> elements at distinct positions, in the order
  drawn; ValueError when the population is smaller than \<open>k\<close>. The drawing function is
  called by \<open>sample\<close> only, on a population of at least \<open>k\<close> elements.
\<close>

fun draw_distinct :: "nat \<Rightarrow> 'a list \<Rightarrow> rng \<Rightarrow> 'a list \<times> rng" where
  "draw_distinct 0 xs g = ([], g)"
| "draw_distinct (Suc k) xs g =
     (let i = nat (\<lfloor>g 0\<rfloor> mod int (length xs));
          (ys, g') = draw_distinct k (take i xs @ drop (Suc i) xs) (rng_next g)
      in (xs ! i # ys, g'))"

definition sample :: "'a list \<Rightarrow> int \<Rightarrow> rng \<Rightarrow> error + ('a list \<times> rng)" where
  "sample xs k g =
     (if k < 0 \<or> int (length xs) < k then Inl ValueError
      else Inr (draw_distinct (nat k) xs g))"

subsection \<open>The terminal screen and the particle effects of the rendering library\<close>

text \<open>
  Of the screen only the dimensions matter to the scheduling logic. A firework object
  is opaque to the scripts: it is the record of its class and of the position and the
  life time that its constructor was given.
\<close>

record screen =
  width :: int
  height :: int

datatype firework_class = RingFirework | SerpentFirework | StarFirework | PalmFirework

record effect =
  cls :: firework_class
  pos_x :: int
  pos_y :: int
  life_time :: int

text \<open>
  The call of a firework class. None of the four classes defines a constructor of its
  own; they inherit \<open>ParticleEffect.__init__(self, screen, x, y, life_time, **kwargs)\<close>
  of the library. After the screen the constructor takes exactly three positional
  arguments, and anything further must be passed by keyword: a call with another
  number of positional arguments raises TypeError before an object exists. The list
  holds the positional arguments of the call after the screen.
\<close>

fun new_firework :: "firework_class \<Rightarrow> int list \<Rightarrow> error + effect" where
  "new_firework c [x, y, l] = Inr \<lparr>cls = c, pos_x = x, pos_y = y, life_time = l\<rparr>"
| "new_firework c args = Inl TypeError"

datatype colour =
  COLOUR_RED | COLOUR_GREEN | COLOUR_YELLOW | COLOUR_BLUE | COLOUR_MAGENTA
  | COLOUR_CYAN | COLOUR_WHITE

text \<open>What \<open>screen.get_event()\<close> returns when it is not \<open>None\<close>.\<close>

datatype event = KeyboardEvent int | MouseEvent int int int

text \<open>The entries of \<open>active_explosions\<close>: the dictionaries with keys effect, birth, lifetime.\<close>

record entry =
  effect :: effect
  birth :: int
  lifetime :: int

section \<open>The unified visualizer (\<open>ascii-beats.py\<close>)\<close>

datatype VisualizerMode = SIMPLE | STANDARD | INSANE

text \<open>\<open>VisualizerMode(value)\<close>: the member with that value, ValueError when there is none.\<close>

definition VisualizerMode_of :: "string \<Rightarrow> error + VisualizerMode" where
  "VisualizerMode_of v =
     (if v = ''simple'' then Inr SIMPLE
      else if v = ''standard'' then Inr STANDARD
      else if v = ''insane'' then Inr INSANE
      else Inl ValueError)"

definition mode_value :: "VisualizerMode \<Rightarrow> string" where
  "mode_value m = (case m of SIMPLE \<Rightarrow> ''simple'' | STANDARD \<Rightarrow> ''standard'' | INSANE \<Rightarrow> ''insane'')"

subsection \<open>\<open>create_fireworks\<close>\<close>

fun fireworks_simple :: "nat \<Rightarrow> int \<Rightarrow> int \<Rightarrow> effect list \<Rightarrow> rng \<Rightarrow> error + (effect list \<times> rng)" where
  "fireworks_simple 0 x y explosions g = Inr (explosions, g)"
| "fireworks_simple (Suc n) x y explosions g =
     (case randint (- 2) 2 g of Inl e \<Rightarrow> Inl e | Inr (dx, g1) \<Rightarrow>
      case randint (- 1) 1 g1 of Inl e \<Rightarrow> Inl e | Inr (dy, g2) \<Rightarrow>
      case randint 10 15 g2 of Inl e \<Rightarrow> Inl e | Inr (l, g3) \<Rightarrow>
      case new_firework RingFirework [x + dx, y + dy, l, 15] of Inl e \<Rightarrow> Inl e
      | Inr eff \<Rightarrow> fireworks_simple n x y (explosions @ [eff]) g3)"

fun fireworks_standard :: "nat \<Rightarrow> int \<Rightarrow> int \<Rightarrow> effect list \<Rightarrow> rng \<Rightarrow> error + (effect list \<times> rng)" where
  "fireworks_standard 0 x y explosions g = Inr (explosions, g)"
| "fireworks_standard (Suc n) x y explosions g =
     (case randint (- 3) 3 g of Inl e \<Rightarrow> Inl e | Inr (dx, g1) \<Rightarrow>
      case randint (- 2) 2 g1 of Inl e \<Rightarrow> Inl e | Inr (dy, g2) \<Rightarrow>
      case choice [RingFirework, SerpentFirework, StarFirework] g2 of Inl e \<Rightarrow> Inl e
      | Inr (firework_class, g3) \<Rightarrow>
      case randint 15 20 g3 of Inl e \<Rightarrow> Inl e | Inr (l, g4) \<Rightarrow>
      case new_firework firework_class [x + dx, y + dy, l, 20] of Inl e \<Rightarrow> Inl e
      | Inr eff \<Rightarrow> fireworks_standard n x y (explosions @ [eff]) g4)"

text \<open>The inner loop of the insane branch: one firework per sampled class.\<close>

fun fireworks_sampled :: "firework_class list \<Rightarrow> int \<Rightarrow> int \<Rightarrow> effect list \<Rightarrow> rng \<Rightarrow> error + (effect list \<times> rng)" where
  "fireworks_sampled [] fx fy explosions g = Inr (explosions, g)"
| "fireworks_sampled (ft # fts) fx fy explosions g =
     (case randint (- 2) 2 g of Inl e \<Rightarrow> Inl e | Inr (dx, g1) \<Rightarrow>
      case randint (- 1) 1 g1 of Inl e \<Rightarrow> Inl e | Inr (dy, g2) \<Rightarrow>
      case randint 20 30 g2 of Inl e \<Rightarrow> Inl e | Inr (l, g3) \<Rightarrow>
      case new_firework ft [fx + dx, fy + dy, l, 25] of Inl e \<Rightarrow> Inl e
      | Inr eff \<Rightarrow> fireworks_sampled fts fx fy (explosions @ [eff]) g3)"

fun fireworks_insane :: "nat \<Rightarrow> int \<Rightarrow> int \<Rightarrow> effect list \<Rightarrow> rng \<Rightarrow> error + (effect list \<times> rng)" where
  "fireworks_insane 0 x y explosions g = Inr (explosions, g)"
| "fireworks_insane (Suc n) x y explosions g =
     (let firework_types = [RingFirework, SerpentFirework, StarFirework, PalmFirework] in
      case randint (- 5) 5 g of Inl e \<Rightarrow> Inl e | Inr (dx, g1) \<Rightarrow>
      case randint (- 3) 3 g1 of Inl e \<Rightarrow> Inl e | Inr (dy, g2) \<Rightarrow>
      case sample firework_types (min 2 (int (length firework_types))) g2 of Inl e \<Rightarrow> Inl e
      | Inr (fts, g3) \<Rightarrow>
      case fireworks_sampled fts (x + dx) (y + dy) explosions g3 of Inl e \<Rightarrow> Inl e
      | Inr (explosions', g4) \<Rightarrow> fireworks_insane n x y explosions' g4)"

definition create_fireworks ::
  "screen \<Rightarrow> int \<Rightarrow> int \<Rightarrow> rat \<Rightarrow> VisualizerMode \<Rightarrow> rng \<Rightarrow> error + (effect list \<times> rng)" where
  "create_fireworks scr x y intensity mode g =
     (if mode = SIMPLE then
        fireworks_simple (nat (min (py_int (float_mul intensity 3) + 1) 3)) x y [] g
      else if mode = STANDARD then
        fireworks_standard (nat (min (py_int (float_mul intensity 6) + 2) 6)) x y [] g
      else
        fireworks_insane (nat (min (py_int (float_mul intensity 12) + 3) 12)) x y [] g)"

subsection \<open>The configuration selected by the mode\<close>

definition beat_interval :: "VisualizerMode \<Rightarrow> rat" where
  "beat_interval mode = 1 / 2"

definition sub_beat_interval :: "VisualizerMode \<Rightarrow> rat" where
  "sub_beat_interval mode = (if mode = SIMPLE then 1 / 4 else 1 / 8)"

definition target_fps :: "VisualizerMode \<Rightarrow> int" where
  "target_fps mode = (if mode = SIMPLE then 30 else 40)"

definition frame_sleep :: "VisualizerMode \<Rightarrow> rat" where
  "frame_sleep mode = float_div 1 (of_int (target_fps mode))"

definition max_explosions :: "VisualizerMode \<Rightarrow> int" where
  "max_explosions mode =
     (if mode = SIMPLE then 20 else if mode = STANDARD then 40 else 100)"

definition color_schemes :: "colour list list" where
  "color_schemes =
     [[COLOUR_RED, COLOUR_YELLOW, COLOUR_WHITE],
      [COLOUR_BLUE, COLOUR_CYAN, COLOUR_WHITE],
      [COLOUR_GREEN, COLOUR_YELLOW, COLOUR_WHITE],
      [COLOUR_MAGENTA, COLOUR_YELLOW, COLOUR_CYAN]]"

subsection \<open>The local variables of \<open>demo\<close> that the loop updates\<close>

record loop_state =
  frame :: int
  beat_count :: int
  active_explosions :: "entry list"
  last_beat_time :: rat
  last_sub_beat :: rat
  current_scheme_idx :: int
  intensity :: rat
  running :: bool

text \<open>
  The values before the first iteration; the two arguments are the clock readings that
  initialise \<open>last_beat_time\<close> and \<open>last_sub_beat\<close>.
\<close>

definition initial_state :: "rat \<Rightarrow> rat \<Rightarrow> loop_state" where
  "initial_state t_beat t_sub =
     \<lparr>frame = 0, beat_count = 0, active_explosions = [],
      last_beat_time = t_beat, last_sub_beat = t_sub,
      current_scheme_idx = 0, intensity = 1 / 2, running = True\<rparr>"

text \<open>
  What one iteration reads from its environment: whether the music is still playing, the
  clock, the random generator, the pending input event, and an exception raised while
  the frame is drawn, if any: by a call delegated to the rendering library, or by a
  random draw that only places what is drawn.
\<close>

record frame_input =
  busy :: bool
  now :: rat
  rnd :: rng
  pending_event :: "event option"
  lib_error :: "error option"

subsection \<open>The pieces of one iteration\<close>

text \<open>The beat clock: the test of the main beat and the two assignments under it.\<close>

definition poll :: "VisualizerMode \<Rightarrow> rat \<Rightarrow> loop_state \<Rightarrow> bool \<times> loop_state" where
  "poll mode current_time st =
     (if float_sub current_time (last_beat_time st) \<ge> beat_interval mode
      then (True, st\<lparr>last_beat_time := current_time, beat_count := beat_count st + 1\<rparr>)
      else (False, st))"

definition rotation_period :: "VisualizerMode \<Rightarrow> int" where
  "rotation_period mode = (if mode \<noteq> SIMPLE then 8 else 16)"

definition rotate_scheme :: "VisualizerMode \<Rightarrow> loop_state \<Rightarrow> loop_state" where
  "rotate_scheme mode st =
     (if beat_count st mod rotation_period mode = 0
      then st\<lparr>current_scheme_idx :=
                (current_scheme_idx st + 1) mod int (length color_schemes)\<rparr>
      else st)"

definition vary_intensity :: "VisualizerMode \<Rightarrow> rng \<Rightarrow> rat \<times> rng" where
  "vary_intensity mode g =
     (if mode \<noteq> SIMPLE
      then (let (u, g') = random_random g
            in (float_add (float_round (7 / 10)) (float_mul u (float_round (3 / 10))), g'))
      else (1 / 2, g))"

definition tracker_lifetime :: "VisualizerMode \<Rightarrow> int" where
  "tracker_lifetime mode = (if mode = SIMPLE then 30 else 50)"

text \<open>The loop over \<open>new_explosions\<close>: the guarded append.\<close>

fun add_explosions :: "VisualizerMode \<Rightarrow> effect list \<Rightarrow> loop_state \<Rightarrow> loop_state" where
  "add_explosions mode [] st = st"
| "add_explosions mode (explosion # rest) st =
     add_explosions mode rest
       (if int (length (active_explosions st)) < max_explosions mode
        then st\<lparr>active_explosions := active_explosions st @
                  [\<lparr>effect = explosion, birth = frame st,
                    lifetime = tracker_lifetime mode\<rparr>]\<rparr>
        else st)"

text \<open>The loop over the spawn points of a beat.\<close>

fun spawn_fireworks ::
  "nat \<Rightarrow> screen \<Rightarrow> VisualizerMode \<Rightarrow> rng \<Rightarrow> loop_state \<Rightarrow> (error \<times> loop_state) + (loop_state \<times> rng)" where
  "spawn_fireworks 0 scr mode g st = Inr (st, g)"
| "spawn_fireworks (Suc n) scr mode g st =
     (case randint 5 (width scr - 5) g of Inl e \<Rightarrow> Inl (e, st) | Inr (x, g1) \<Rightarrow>
      case randint 5 (height scr - 5) g1 of Inl e \<Rightarrow> Inl (e, st) | Inr (y, g2) \<Rightarrow>
      case create_fireworks scr x y (intensity st) mode g2 of Inl e \<Rightarrow> Inl (e, st)
      | Inr (new_explosions, g3) \<Rightarrow>
          spawn_fireworks n scr mode g3 (add_explosions mode new_explosions st))"

text \<open>
  The main beat. After the spawn loop the source draws the flash, the text and the art
  on the screen; these change none of the variables of the state.
\<close>

definition beat_branch ::
  "screen \<Rightarrow> VisualizerMode \<Rightarrow> rat \<Rightarrow> rng \<Rightarrow> loop_state \<Rightarrow> (error \<times> loop_state) + loop_state" where
  "beat_branch scr mode current_time g st =
     (case poll mode current_time st of
        (False, _) \<Rightarrow> Inr st
      | (True, st1) \<Rightarrow>
          (let st2 = rotate_scheme mode st1;
               (i, g1) = vary_intensity mode g;
               st3 = st2\<lparr>intensity := i\<rparr>
           in case spawn_fireworks (if mode = SIMPLE then 1 else 3) scr mode g1 st3 of
                Inl err \<Rightarrow> Inl err
              | Inr (st4, g2) \<Rightarrow> Inr st4))"

definition sub_beat :: "VisualizerMode \<Rightarrow> rat \<Rightarrow> loop_state \<Rightarrow> loop_state" where
  "sub_beat mode current_time st =
     (if mode \<noteq> SIMPLE \<and> float_sub current_time (last_sub_beat st) \<ge> sub_beat_interval mode
      then st\<lparr>last_sub_beat := current_time\<rparr>
      else st)"

text \<open>The sweep of the lifetime tracker: the list comprehension over \<open>active_explosions\<close>.\<close>

definition sweep :: "int \<Rightarrow> entry list \<Rightarrow> entry list" where
  "sweep fr exps = filter (\<lambda>exp. fr - birth exp < lifetime exp) exps"

text \<open>
  The quit check. The key codes are \<open>ord('q')\<close>, \<open>ord('Q')\<close> and \<open>Screen.ctrl('c')\<close>; a mouse
  event has no attribute \<open>key_code\<close>.
\<close>

definition quit_keys :: "int list" where
  "quit_keys = [113, 81, 3]"

definition check_quit :: "event option \<Rightarrow> loop_state \<Rightarrow> (error \<times> loop_state) + loop_state" where
  "check_quit ev st =
     (case ev of
        None \<Rightarrow> Inr st
      | Some (KeyboardEvent key_code) \<Rightarrow>
          Inr (if key_code \<in> set quit_keys then st\<lparr>running := False\<rparr> else st)
      | Some (MouseEvent mx my buttons) \<Rightarrow> Inl (AttributeError, st))"

text \<open>
  One iteration of the loop body. The exception of the input, if there is one, is raised
  by a call that follows the sweep: the update of an explosion, the status bar,
  \<open>screen.refresh()\<close> or \<open>screen.get_event()\<close>. The calls on the screen that come before
  the sweep (\<open>screen.clear()\<close>, the drawing of the beat branch and of the sub-beat, the
  update of the background effects) are taken to succeed.
\<close>

definition frame_step ::
  "screen \<Rightarrow> VisualizerMode \<Rightarrow> frame_input \<Rightarrow> loop_state \<Rightarrow> (error \<times> loop_state) + loop_state" where
  "frame_step scr mode inp st =
     bindE (beat_branch scr mode (now inp) (rnd inp) st) (\<lambda>st1.
       let st2 = sub_beat mode (now inp) st1;
           st3 = st2\<lparr>active_explosions := sweep (frame st2) (active_explosions st2)\<rparr>
       in case lib_error inp of
            Some e \<Rightarrow> Inl (e, st3)
          | None \<Rightarrow>
              bindE (check_quit (pending_event inp) st3) (\<lambda>st4.
                Inr (st4\<lparr>frame := frame st4 + 1\<rparr>)))"

text \<open>
  The loop \<open>while running and pygame.mixer.music.get_busy()\<close> over the observations of a
  run. The loop has left normally (\<open>Finished\<close>), has been left by an exception
  (\<open>Raised\<close>), or is still running when the observations end (\<open>Running\<close>).
\<close>

datatype loop_result = Finished loop_state | Raised error loop_state | Running loop_state

fun run_loop :: "screen \<Rightarrow> VisualizerMode \<Rightarrow> frame_input list \<Rightarrow> loop_state \<Rightarrow> loop_result" where
  "run_loop scr mode [] st = Running st"
| "run_loop scr mode (inp # inps) st =
     (if running st \<and> busy inp then
        (case frame_step scr mode inp st of
           Inl (e, st') \<Rightarrow> Raised e st'
         | Inr st' \<Rightarrow> run_loop scr mode inps st')
      else Finished st)"

definition result_state :: "loop_result \<Rightarrow> loop_state" where
  "result_state r = (case r of Finished st \<Rightarrow> st | Raised e st \<Rightarrow> st | Running st \<Rightarrow> st)"

subsection \<open>\<open>demo\<close> and \<open>main\<close>: the actions on the outside world\<close>

text \<open>
  The trace of a run lists, in order, the actions that the claims about start-up and
  shut-down speak of: console output, the opening and closing of the terminal screen by
  \<open>Screen.wrapper\<close>, text put on the screen outside the frames, sleeps outside the frame
  pacing, the audio calls, and one \<open>ShowFrame\<close> for every completed iteration of the loop.
\<close>

datatype message =
    NotFound string
  | NotFoundPlain
  | Banner
  | Thanks
  | Stopped
  | ErrorText error
  | UsageError

datatype action =
    Print message
  | PrintTraceback error
  | ScreenOpen
  | ScreenClose
  | PrintAt message
  | Refresh
  | Sleep rat
  | MixerInit
  | MusicLoad string
  | MusicPlay
  | MusicStop
  | PygameQuit
  | AnalyseAudio string
  | StartPlayerThread
  | ShowFrame

text \<open>
  How a call ends: it returns, an exception leaves it, or it has not come back when the
  observations of the run end.
\<close>

datatype call_result = Returned | Propagated error | NotReturned

definition frames_shown :: "int \<Rightarrow> action list" where
  "frames_shown n = replicate (nat n) ShowFrame"

text \<open>
  \<open>demo(screen, audio_file, mode)\<close>: the loop stands in \<open>try ... finally\<close>. The calls that
  start the audio and build the background effects, which come before the \<open>try\<close>
  statement, are taken to succeed.
\<close>

definition demo ::
  "screen \<Rightarrow> string \<Rightarrow> VisualizerMode \<Rightarrow> (string \<Rightarrow> bool) \<Rightarrow> rat \<Rightarrow> rat \<Rightarrow> frame_input list
     \<Rightarrow> action list \<times> call_result" where
  "demo scr audio_file mode path_exists t_beat t_sub inps =
     (if \<not> path_exists audio_file then
        ([PrintAt (NotFound audio_file), Refresh, Sleep 2], Returned)
      else
        (let start = [MixerInit, MusicLoad audio_file, MusicPlay] in
         case run_loop scr mode inps (initial_state t_beat t_sub) of
           Finished st \<Rightarrow>
             (start @ frames_shown (frame st) @ [MusicStop, PygameQuit], Returned)
         | Raised e st \<Rightarrow>
             (start @ frames_shown (frame st) @ [MusicStop, PygameQuit], Propagated e)
         | Running st \<Rightarrow>
             (start @ frames_shown (frame st), NotReturned)))"

text \<open>
  \<open>Screen.wrapper(func)\<close> opens the screen, calls the function and closes the screen
  again whichever way the call ends.
\<close>

definition Screen_wrapper :: "action list \<times> call_result \<Rightarrow> action list \<times> call_result" where
  "Screen_wrapper run =
     (case run of (tr, r) \<Rightarrow>
        ([ScreenOpen] @ tr @ (if r = NotReturned then [] else [ScreenClose]), r))"

text \<open>
  The command line as the argument parser sees it: the positional \<open>audio_file\<close> and the
  value given with \<open>--mode\<close>, each present or not. The parser is the library's; of its
  behaviour the model keeps the declared arguments: the positional is required, the
  mode is checked against \<open>choices\<close> and defaults to \<open>standard\<close>, and a rejected command
  line prints the usage error and exits with status 2.
\<close>

record cli =
  audio_file_arg :: "string option"
  mode_arg :: "string option"

definition mode_choices :: "string list" where
  "mode_choices = [''simple'', ''standard'', ''insane'']"

definition parse_args :: "cli \<Rightarrow> message + (string \<times> string)" where
  "parse_args c =
     (case mode_arg c of
        Some m \<Rightarrow>
          (if m \<in> set mode_choices then
             (case audio_file_arg c of None \<Rightarrow> Inl UsageError | Some f \<Rightarrow> Inr (f, m))
           else Inl UsageError)
      | None \<Rightarrow>
          (case audio_file_arg c of None \<Rightarrow> Inl UsageError | Some f \<Rightarrow> Inr (f, ''standard'')))"

record process =
  trace :: "action list"
  exit_status :: "int option"

text \<open>The handlers around \<open>Screen.wrapper\<close> in \<open>main\<close>.\<close>

definition main_handlers :: "action list \<times> call_result \<Rightarrow> process" where
  "main_handlers run =
     (case run of (tr, r) \<Rightarrow>
        (case r of
           Returned \<Rightarrow> \<lparr>trace = tr @ [Print Thanks], exit_status = Some 0\<rparr>
         | Propagated e \<Rightarrow>
             (if e = KeyboardInterrupt
              then \<lparr>trace = tr @ [Print Stopped], exit_status = Some 0\<rparr>
              else \<lparr>trace = tr @ [Print (ErrorText e), PrintTraceback e],
                    exit_status = Some 0\<rparr>)
         | NotReturned \<Rightarrow> \<lparr>trace = tr, exit_status = None\<rparr>))"

definition main ::
  "cli \<Rightarrow> (string \<Rightarrow> bool) \<Rightarrow> screen \<Rightarrow> rat \<Rightarrow> rat \<Rightarrow> frame_input list \<Rightarrow> process" where
  "main c path_exists scr t_beat t_sub inps =
     (case parse_args c of
        Inl msg \<Rightarrow> \<lparr>trace = [Print msg], exit_status = Some 2\<rparr>
      | Inr (audio_file, m) \<Rightarrow>
          (case VisualizerMode_of m of
             Inl e \<Rightarrow> \<lparr>trace = [PrintTraceback e], exit_status = Some 1\<rparr>
           | Inr mode \<Rightarrow>
               (if \<not> path_exists audio_file then
                  \<lparr>trace = [Print (NotFound audio_file)], exit_status = Some 1\<rparr>
                else
                  (let p = main_handlers
                         (Screen_wrapper (demo scr audio_file mode path_exists t_beat t_sub inps))
                   in p\<lparr>trace := [Print Banner, Sleep 1] @ trace p\<rparr>))))"

section \<open>The simplified script (\<open>ascii-beats-simple.py\<close>): the entry point\<close>

text \<open>\<open>sys.argv[1] if len(sys.argv) > 1 else "woah-dope8.wav"\<close>\<close>

definition audio_file_of_argv :: "string list \<Rightarrow> string" where
  "audio_file_of_argv argv = (if length argv > 1 then argv ! 1 else ''woah-dope8.wav'')"

definition script_handlers :: "action list \<times> call_result \<Rightarrow> process" where
  "script_handlers run =
     (case run of (tr, r) \<Rightarrow>
        (case r of
           Returned \<Rightarrow> \<lparr>trace = tr, exit_status = Some 0\<rparr>
         | Propagated e \<Rightarrow>
             (if e = KeyboardInterrupt
              then \<lparr>trace = tr @ [Print Stopped], exit_status = Some 0\<rparr>
              else \<lparr>trace = tr @ [Print (ErrorText e)], exit_status = Some 0\<rparr>)
         | NotReturned \<Rightarrow> \<lparr>trace = tr, exit_status = None\<rparr>))"

text \<open>
  The block under \<open>if __name__ == "__main__"\<close>. What \<open>demo\<close> does inside the opened
  screen is the argument \<open>demo_run\<close>.
\<close>

definition main_simple ::
  "string list \<Rightarrow> (string \<Rightarrow> bool) \<Rightarrow> action list \<times> call_result \<Rightarrow> process" where
  "main_simple argv path_exists demo_run =
     (let audio_file = audio_file_of_argv argv in
      if \<not> path_exists audio_file then
        \<lparr>trace = [Print (NotFound audio_file)], exit_status = Some 1\<rparr>
      else
        (let p = script_handlers (Screen_wrapper demo_run)
         in p\<lparr>trace := [Print Banner, Sleep 1] @ trace p\<rparr>))"

section \<open>The working script (\<open>ascii-beats-working.py\<close>)\<close>

text \<open>
  The names of firework classes that the module binds, by its import from the particle
  library. A name that is not bound raises NameError when it is evaluated.
\<close>

definition working_namespace :: "(string \<times> firework_class) list" where
  "working_namespace =
     [(''RingFirework'', RingFirework), (''SerpentFirework'', SerpentFirework),
      (''StarFirework'', StarFirework), (''PalmFirework'', PalmFirework)]"

definition lookup_name :: "(string \<times> 'a) list \<Rightarrow> string \<Rightarrow> error + 'a" where
  "lookup_name ns n = (case map_of ns n of None \<Rightarrow> Inl NameError | Some v \<Rightarrow> Inr v)"

text \<open>A list display evaluates its elements from left to right.\<close>

fun eval_names :: "(string \<times> 'a) list \<Rightarrow> string list \<Rightarrow> error + 'a list" where
  "eval_names ns [] = Inr []"
| "eval_names ns (n # rest) =
     (case lookup_name ns n of Inl e \<Rightarrow> Inl e | Inr v \<Rightarrow>
      case eval_names ns rest of Inl e \<Rightarrow> Inl e | Inr vs \<Rightarrow> Inr (v # vs))"

text \<open>The list display of the beat branch, as the source spells it.\<close>

definition working_firework_types :: "string list" where
  "working_firework_types =
     [''RingFirework'', ''SerpentFireework'', ''StarFirework'', ''PalmFirework'']"

fun working_sampled ::
  "firework_class list \<Rightarrow> int \<Rightarrow> int \<Rightarrow> rng \<Rightarrow> loop_state \<Rightarrow> (error \<times> loop_state) + (loop_state \<times> rng)" where
  "working_sampled [] x y g st = Inr (st, g)"
| "working_sampled (ft # fts) x y g st =
     (case randint (- 3) 3 g of Inl e \<Rightarrow> Inl (e, st) | Inr (dx, g1) \<Rightarrow>
      case randint (- 2) 2 g1 of Inl e \<Rightarrow> Inl (e, st) | Inr (dy, g2) \<Rightarrow>
      case randint 20 30 g2 of Inl e \<Rightarrow> Inl (e, st) | Inr (l, g3) \<Rightarrow>
      case new_firework ft [x + dx, y + dy, l, 25] of Inl e \<Rightarrow> Inl (e, st)
      | Inr eff \<Rightarrow>
        working_sampled fts x y g3
          (st\<lparr>active_explosions := active_explosions st @
                [\<lparr>effect = eff, birth = frame st, lifetime = 50\<rparr>]\<rparr>))"

fun working_spawn ::
  "nat \<Rightarrow> screen \<Rightarrow> rng \<Rightarrow> loop_state \<Rightarrow> (error \<times> loop_state) + (loop_state \<times> rng)" where
  "working_spawn 0 scr g st = Inr (st, g)"
| "working_spawn (Suc n) scr g st =
     (case randint 5 (width scr - 5) g of Inl e \<Rightarrow> Inl (e, st) | Inr (x, g1) \<Rightarrow>
      case randint 5 (height scr - 5) g1 of Inl e \<Rightarrow> Inl (e, st) | Inr (y, g2) \<Rightarrow>
      case eval_names working_namespace working_firework_types of Inl e \<Rightarrow> Inl (e, st)
      | Inr firework_types \<Rightarrow>
      case sample firework_types 2 g2 of Inl e \<Rightarrow> Inl (e, st) | Inr (fts, g3) \<Rightarrow>
      case working_sampled fts x y g3 st of Inl err \<Rightarrow> Inl err
      | Inr (st', g4) \<Rightarrow> working_spawn n scr g4 st')"

definition working_beat ::
  "screen \<Rightarrow> rat \<Rightarrow> rng \<Rightarrow> loop_state \<Rightarrow> (error \<times> loop_state) + loop_state" where
  "working_beat scr current_time g st =
     (if float_sub current_time (last_beat_time st) \<ge> 1 / 2 then
        (let st1 = st\<lparr>last_beat_time := current_time, beat_count := beat_count st + 1\<rparr>;
             st2 = (if beat_count st1 mod 4 = 0
                    then st1\<lparr>current_scheme_idx :=
                           (current_scheme_idx st1 + 1) mod int (length color_schemes)\<rparr>
                    else st1);
             (u, g1) = random_random g;
             st3 = st2\<lparr>intensity :=
                     float_add (float_round (8 / 10)) (float_mul u (float_round (2 / 10)))\<rparr>;
             num_fireworks = py_int (float_mul (intensity st3) 12)
         in case working_spawn (nat num_fireworks) scr g1 st3 of
              Inl err \<Rightarrow> Inl err
            | Inr (st4, g2) \<Rightarrow> Inr st4)
      else Inr st)"

definition working_sub_beat :: "rat \<Rightarrow> loop_state \<Rightarrow> loop_state" where
  "working_sub_beat current_time st =
     (if float_sub current_time (last_sub_beat st) \<ge> 1 / 8
      then st\<lparr>last_sub_beat := current_time\<rparr>
      else st)"

definition frame_working ::
  "screen \<Rightarrow> frame_input \<Rightarrow> loop_state \<Rightarrow> (error \<times> loop_state) + loop_state" where
  "frame_working scr inp st =
     bindE (working_beat scr (now inp) (rnd inp) st) (\<lambda>st1.
       let st2 = working_sub_beat (now inp) st1;
           st3 = st2\<lparr>active_explosions := sweep (frame st2) (active_explosions st2)\<rparr>
       in case lib_error inp of
            Some e \<Rightarrow> Inl (e, st3)
          | None \<Rightarrow>
              bindE (check_quit (pending_event inp) st3) (\<lambda>st4.
                Inr (st4\<lparr>frame := frame st4 + 1\<rparr>)))"

fun run_working :: "screen \<Rightarrow> frame_input list \<Rightarrow> loop_state \<Rightarrow> loop_result" where
  "run_working scr [] st = Running st"
| "run_working scr (inp # inps) st =
     (if running st \<and> busy inp then
        (case frame_working scr inp st of
           Inl (e, st') \<Rightarrow> Raised e st'
         | Inr st' \<Rightarrow> run_working scr inps st')
      else Finished st)"

text \<open>\<open>demo(screen)\<close> of the working script: the loop stands in no \<open>try\<close>.\<close>

definition demo_working ::
  "screen \<Rightarrow> string list \<Rightarrow> (string \<Rightarrow> bool) \<Rightarrow> rat \<Rightarrow> rat \<Rightarrow> frame_input list
     \<Rightarrow> action list \<times> call_result" where
  "demo_working scr argv path_exists t_beat t_sub inps =
     (let audio_file = audio_file_of_argv argv in
      if \<not> path_exists audio_file then
        ([PrintAt NotFoundPlain, Refresh, Sleep 2], Returned)
      else
        (let start = [MixerInit, MusicLoad audio_file, MusicPlay] in
         case run_working scr inps (initial_state t_beat t_sub) of
           Finished st \<Rightarrow>
             (start @ frames_shown (frame st) @ [MusicStop, PygameQuit], Returned)
         | Raised e st \<Rightarrow> (start @ frames_shown (frame st), Propagated e)
         | Running st \<Rightarrow> (start @ frames_shown (frame st), NotReturned)))"

section \<open>The queue-driven script (\<open>ascii-beats-insane.py\<close>)\<close>

text \<open>The dictionaries that the player thread puts on \<open>beat_queue\<close>.\<close>

record beat_event =
  time :: rat
  index :: int
  beat_intensity :: rat

record insane_state =
  frame_q :: int
  beat_count_q :: int
  active_explosions_q :: "entry list"
  current_scheme :: int
  running_q :: bool

definition insane_initial :: insane_state where
  "insane_initial =
     \<lparr>frame_q = 0, beat_count_q = 0, active_explosions_q = [], current_scheme = 0,
      running_q = True\<rparr>"

definition insane_color_schemes :: "colour list list" where
  "insane_color_schemes =
     [[COLOUR_RED, COLOUR_YELLOW],
      [COLOUR_BLUE, COLOUR_CYAN],
      [COLOUR_GREEN, COLOUR_WHITE],
      [COLOUR_MAGENTA, COLOUR_YELLOW]]"

text \<open>The chain of \<open>if random.random() < ...\<close> in \<open>CrazyFirework.__init__\<close>.\<close>

definition crazy_class :: "rng \<Rightarrow> firework_class \<times> rng" where
  "crazy_class g =
     (let (u1, g1) = random_random g in
      if u1 < 1 / 4 then (RingFirework, g1)
      else let (u2, g2) = random_random g1 in
      if u2 < 1 / 2 then (SerpentFirework, g2)
      else let (u3, g3) = random_random g2 in
      if u3 < 3 / 4 then (StarFirework, g3)
      else (PalmFirework, g3))"

fun crazy_effects :: "nat \<Rightarrow> int \<Rightarrow> int \<Rightarrow> effect list \<Rightarrow> rng \<Rightarrow> error + (effect list \<times> rng)" where
  "crazy_effects 0 x y effects g = Inr (effects, g)"
| "crazy_effects (Suc n) x y effects g =
     (case randint (- 5) 5 g of Inl e \<Rightarrow> Inl e | Inr (dx, g1) \<Rightarrow>
      case randint (- 3) 3 g1 of Inl e \<Rightarrow> Inl e | Inr (dy, g2) \<Rightarrow>
      case randint 15 25 g2 of Inl e \<Rightarrow> Inl e | Inr (l, g3) \<Rightarrow>
      case crazy_class g3 of (c, g4) \<Rightarrow>
      case new_firework c [x + dx, y + dy, l, 20] of Inl e \<Rightarrow> Inl e
      | Inr eff \<Rightarrow> crazy_effects n x y (effects @ [eff]) g4)"

text \<open>\<open>CrazyFirework(screen, x, y)\<close>, as the list \<open>effects\<close> of the new object.\<close>

definition CrazyFirework :: "int \<Rightarrow> int \<Rightarrow> rng \<Rightarrow> error + (effect list \<times> rng)" where
  "CrazyFirework x y g = crazy_effects 3 x y [] g"

fun append_effects :: "effect list \<Rightarrow> insane_state \<Rightarrow> insane_state" where
  "append_effects [] st = st"
| "append_effects (e # es) st =
     append_effects es
       (st\<lparr>active_explosions_q := active_explosions_q st @
             [\<lparr>effect = e, birth = frame_q st, lifetime = 40\<rparr>]\<rparr>)"

fun insane_spawn ::
  "nat \<Rightarrow> screen \<Rightarrow> rng \<Rightarrow> insane_state \<Rightarrow> (error \<times> insane_state) + (insane_state \<times> rng)" where
  "insane_spawn 0 scr g st = Inr (st, g)"
| "insane_spawn (Suc n) scr g st =
     (case randint 5 (width scr - 5) g of Inl e \<Rightarrow> Inl (e, st) | Inr (x, g1) \<Rightarrow>
      case randint 5 (height scr - 5) g1 of Inl e \<Rightarrow> Inl (e, st) | Inr (y, g2) \<Rightarrow>
      case CrazyFirework x y g2 of Inl e \<Rightarrow> Inl (e, st) | Inr (effects, g3) \<Rightarrow>
        insane_spawn n scr g3 (append_effects effects st))"

text \<open>
  The body of the drain loop for one event taken from the queue. The flash and the text
  that follow the fireworks are drawn on the screen only.
\<close>

definition handle_beat ::
  "screen \<Rightarrow> beat_event \<Rightarrow> rng \<Rightarrow> insane_state \<Rightarrow> (error \<times> insane_state) + (insane_state \<times> rng)" where
  "handle_beat scr beat g st =
     (let st1 = st\<lparr>beat_count_q := beat_count_q st + 1\<rparr>;
          intensity = beat_intensity beat;
          st2 = (if beat_count_q st1 mod 8 = 0
                 then st1\<lparr>current_scheme :=
                        (current_scheme st1 + 1) mod int (length insane_color_schemes)\<rparr>
                 else st1);
          num_fireworks = min (py_int (float_mul intensity 10) + 2) 8
      in insane_spawn (nat num_fireworks) scr g st2)"

text \<open>
  \<open>while not beat_queue.empty()\<close>: the list holds the events that the loop takes from the
  queue in this iteration, in the order it takes them.
\<close>

fun drain_beats ::
  "screen \<Rightarrow> beat_event list \<Rightarrow> rng \<Rightarrow> insane_state \<Rightarrow> (error \<times> insane_state) + (insane_state \<times> rng)" where
  "drain_beats scr [] g st = Inr (st, g)"
| "drain_beats scr (beat # rest) g st =
     (case handle_beat scr beat g st of
        Inl err \<Rightarrow> Inl err
      | Inr (st', g') \<Rightarrow> drain_beats scr rest g' st')"

definition check_quit_q :: "event option \<Rightarrow> insane_state \<Rightarrow> (error \<times> insane_state) + insane_state" where
  "check_quit_q ev st =
     (case ev of
        None \<Rightarrow> Inr st
      | Some (KeyboardEvent key_code) \<Rightarrow>
          Inr (if key_code \<in> set quit_keys then st\<lparr>running_q := False\<rparr> else st)
      | Some (MouseEvent mx my buttons) \<Rightarrow> Inl (AttributeError, st))"

definition frame_insane ::
  "screen \<Rightarrow> beat_event list \<Rightarrow> frame_input \<Rightarrow> insane_state \<Rightarrow> (error \<times> insane_state) + insane_state" where
  "frame_insane scr beats inp st =
     bindE (drain_beats scr beats (rnd inp) st) (\<lambda>(st1, g1).
       let st2 = st1\<lparr>active_explosions_q :=
                       sweep (frame_q st1) (active_explosions_q st1)\<rparr>
       in case lib_error inp of
            Some e \<Rightarrow> Inl (e, st2)
          | None \<Rightarrow>
              bindE (check_quit_q (pending_event inp) st2) (\<lambda>st3.
                Inr (st3\<lparr>frame_q := frame_q st3 + 1\<rparr>)))"

datatype insane_result =
  Finished_q insane_state | Raised_q error insane_state | Running_q insane_state

text \<open>\<open>while running\<close>: the loop does not ask whether the music is playing.\<close>

fun run_insane :: "screen \<Rightarrow> (beat_event list \<times> frame_input) list \<Rightarrow> insane_state \<Rightarrow> insane_result" where
  "run_insane scr [] st = Running_q st"
| "run_insane scr ((beats, inp) # inps) st =
     (if running_q st then
        (case frame_insane scr beats inp st of
           Inl (e, st') \<Rightarrow> Raised_q e st'
         | Inr st' \<Rightarrow> run_insane scr inps st')
      else Finished_q st)"

text \<open>
  \<open>demo(screen)\<close> of the queue-driven script: \<open>except Exception\<close> around the loop shows the
  error and sleeps; the music is stopped after the \<open>try\<close> statement. An exception that is
  not an \<open>Exception\<close> passes through.
\<close>

definition demo_insane ::
  "screen \<Rightarrow> string \<Rightarrow> (string \<Rightarrow> bool) \<Rightarrow> (beat_event list \<times> frame_input) list
     \<Rightarrow> action list \<times> call_result" where
  "demo_insane scr audio_file path_exists inps =
     (if audio_file = [] \<or> \<not> path_exists audio_file then
        ([PrintAt NotFoundPlain, Refresh, Sleep 2], Returned)
      else
        (let start = [AnalyseAudio audio_file, StartPlayerThread] in
         case run_insane scr inps insane_initial of
           Finished_q st \<Rightarrow>
             (start @ frames_shown (frame_q st) @ [MusicStop, PygameQuit], Returned)
         | Raised_q e st \<Rightarrow>
             (if is_Exception e then
                (start @ frames_shown (frame_q st)
                   @ [PrintAt (ErrorText e), Refresh, Sleep 2] @ [MusicStop, PygameQuit],
                 Returned)
              else (start @ frames_shown (frame_q st), Propagated e))
         | Running_q st \<Rightarrow> (start @ frames_shown (frame_q st), NotReturned)))"

definition main_insane ::
  "string list \<Rightarrow> (string \<Rightarrow> bool) \<Rightarrow> screen \<Rightarrow> (beat_event list \<times> frame_input) list \<Rightarrow> process" where
  "main_insane argv path_exists scr inps =
     (let audio_file = audio_file_of_argv argv in
      if \<not> path_exists audio_file then
        \<lparr>trace = [Print (NotFound audio_file)], exit_status = Some 1\<rparr>
      else
        (let p = script_handlers (Screen_wrapper (demo_insane scr audio_file path_exists inps))
         in p\<lparr>trace := [Print Banner, Sleep 1] @ trace p\<rparr>))"

section \<open>Auxiliary definitions of the proofs and the examples\<close>

text \<open>
  \<open>grown mode st st'\<close>: the state \<open>st'\<close> is \<open>st\<close> with entries appended to
  \<open>active_explosions\<close>, each born in the current frame with the lifetime of the mode, and
  the list no longer than the longer of its old length and the cap.
\<close>

definition grown :: "VisualizerMode \<Rightarrow> loop_state \<Rightarrow> loop_state \<Rightarrow> bool" where
  "grown mode st st' =
    (
     frame st' = frame st \<and> running st' = running st \<and> beat_count st' = beat_count st
     \<and> current_scheme_idx st' = current_scheme_idx st
     \<and> last_beat_time st' = last_beat_time st \<and> last_sub_beat st' = last_sub_beat st
     \<and> intensity st' = intensity st
     \<and> (\<exists>new. active_explosions st' = active_explosions st @ new
            \<and> (\<forall>e\<in>set new. birth e = frame st \<and> lifetime e = tracker_lifetime mode))
     \<and> int (length (active_explosions st'))
          \<le> max (int (length (active_explosions st))) (max_explosions mode))"

text \<open>The state in which the spawn loop of a beat starts (the state itself when no beat fires).\<close>

definition beat_state :: "VisualizerMode \<Rightarrow> rat \<Rightarrow> rng \<Rightarrow> loop_state \<Rightarrow> loop_state" where
  "beat_state mode t g st =
     (if float_sub t (last_beat_time st) \<ge> beat_interval mode
      then (rotate_scheme mode (st\<lparr>last_beat_time := t, beat_count := beat_count st + 1\<rparr>))
             \<lparr>intensity := fst (vary_intensity mode g)\<rparr>
      else st)"

text \<open>The state in which the spawn loop of a beat of the working script starts.\<close>

definition working_beat_state :: "rat \<Rightarrow> rng \<Rightarrow> loop_state \<Rightarrow> loop_state" where
  "working_beat_state t g st =
     (let st1 = st\<lparr>last_beat_time := t, beat_count := beat_count st + 1\<rparr>;
          st2 = (if beat_count st1 mod 4 = 0
                 then st1\<lparr>current_scheme_idx :=
                        (current_scheme_idx st1 + 1) mod int (length color_schemes)\<rparr>
                 else st1)
      in st2\<lparr>intensity :=
           float_add (float_round (8 / 10))
             (float_mul (fst (random_random g)) (float_round (2 / 10)))\<rparr>)"

text \<open>An observation of an undisturbed iteration at clock reading \<open>t\<close>, for the examples.\<close>

definition tick :: "rat \<Rightarrow> frame_input" where
  "tick t = \<lparr>busy = True, now = t, rnd = (\<lambda>n. 0), pending_event = None, lib_error = None\<rparr>"

section \<open>Auxiliary facts\<close>

subsection \<open>The rounding of floats\<close>

lemma bitlen_rat_bounds:
  fixes a :: int
  assumes "0 < a"
  shows "(2::rat) powi (bitlen a - 1) \<le> of_int a" and "of_int a < (2::rat) powi (bitlen a)"
proof -
  from bitlen_bounds[OF assms]
  have l: "2 ^ nat (bitlen a - 1) \<le> a" and u: "a < 2 ^ nat (bitlen a)" by simp_all
  have b1: "1 \<le> bitlen a" using assms by (auto simp: bitlen_alt_def)
  have "(of_int (2 ^ nat (bitlen a - 1)) :: rat) \<le> of_int a" using l by (simp only: of_int_le_iff)
  then show "(2::rat) powi (bitlen a - 1) \<le> of_int a"
    using b1 by (simp add: power_int_def)
  have "(of_int a :: rat) < of_int (2 ^ nat (bitlen a))" using u by (simp only: of_int_less_iff)
  then show "of_int a < (2::rat) powi (bitlen a)"
    using b1 by (simp add: power_int_def)
qed

text \<open>The exponent that \<open>float_exponent\<close> computes is the exponent of the binade.\<close>

lemma float_exponent_bounds:
  assumes "0 < x"
  shows "2 powi (float_exponent x) \<le> x" and "x < 2 powi (float_exponent x + 1)"
proof -
  obtain a b where q: "quotient_of x = (a, b)" by (cases "quotient_of x")
  have b: "0 < b" using quotient_of_denom_pos[OF q] .
  have x: "x = of_int a / of_int b" using quotient_of_div[OF q] .
  have a: "0 < a" using assms b unfolding x by (simp add: zero_less_divide_iff)
  note ba = bitlen_rat_bounds[OF a] and bb = bitlen_rat_bounds[OF b]
  define e where "e = bitlen a - bitlen b"
  have bpos: "(0::rat) < of_int b" using b by simp
  have lo: "(2::rat) powi (e - 1) < x"
  proof -
    have "(2::rat) powi (e - 1) * of_int b < 2 powi (e - 1) * 2 powi (bitlen b)"
      using bb(2) by (simp add: mult_strict_left_mono)
    also have "\<dots> = 2 powi (bitlen a - 1)"
      by (simp add: e_def power_int_add[symmetric])
    also have "\<dots> \<le> of_int a" by (rule ba(1))
    finally show ?thesis unfolding x using bpos by (simp add: pos_less_divide_eq)
  qed
  have hi: "x < (2::rat) powi (e + 1)"
  proof -
    have "of_int a < (2::rat) powi (bitlen a)" by (rule ba(2))
    also have "\<dots> = 2 powi (e + 1) * 2 powi (bitlen b - 1)"
      by (simp add: e_def power_int_add[symmetric])
    also have "\<dots> \<le> 2 powi (e + 1) * of_int b"
      using bb(1) by (simp add: mult_left_mono)
    finally show ?thesis unfolding x using bpos by (simp add: pos_divide_less_eq)
  qed
  have fe: "float_exponent x = (if 2 powi e \<le> x then e else e - 1)"
    by (simp add: float_exponent_def q e_def Let_def)
  show "2 powi (float_exponent x) \<le> x" using lo unfolding fe by auto
  show "x < 2 powi (float_exponent x + 1)" using hi unfolding fe by auto
qed

lemma round_half_even_ge: "\<lfloor>q\<rfloor> \<le> round_half_even q"
  by (simp add: round_half_even_def Let_def)

lemma float_round_nonneg: "0 \<le> x \<Longrightarrow> 0 \<le> float_round x"
proof -
  assume x: "0 \<le> x"
  show ?thesis
  proof (cases "x = 0")
    case True
    then show ?thesis by (simp add: float_round_def)
  next
    case False
    with x have p: "0 < x" by simp
    define u :: rat where "u = 2 powi (float_exponent \<bar>x\<bar> - 52)"
    have u: "0 < u" by (simp add: u_def)
    have "0 \<le> \<bar>x\<bar> / u" using u by simp
    then have "0 \<le> \<lfloor>\<bar>x\<bar> / u\<rfloor>" by simp
    then have "0 \<le> round_half_even (\<bar>x\<bar> / u)" using round_half_even_ge[of "\<bar>x\<bar> / u"] by linarith
    then have "0 \<le> of_int (round_half_even (\<bar>x\<bar> / u)) * u" using u by simp
    then show ?thesis using p False by (simp add: float_round_def Let_def u_def)
  qed
qed

text \<open>Rounding does not go below a power of two that the exact value reaches.\<close>

lemma float_round_ge_pow2:
  assumes "2 powi k \<le> x"
  shows "2 powi k \<le> float_round x"
proof -
  have p: "0 < x" by (rule less_le_trans[OF _ assms]) simp
  define e where "e = float_exponent x"
  define u :: rat where "u = 2 powi (e - 52)"
  have u: "0 < u" by (simp add: u_def)
  note eb = float_exponent_bounds[OF p, folded e_def]
  have lt: "(2::rat) powi k < 2 powi (e + 1)" using assms eb(2) by simp
  have ke: "k \<le> e"
  proof (rule ccontr)
    assume "\<not> k \<le> e"
    then have "e + 1 \<le> k" by simp
    then have "(2::rat) powi (e + 1) \<le> 2 powi k" by (rule power_int_increasing) simp
    with lt show False by simp
  qed
  have "(2::rat) powi 52 = 2 powi e / u" by (simp add: u_def power_int_diff)
  also have "\<dots> \<le> x / u" using eb(1) u by (simp add: divide_right_mono)
  finally have "(of_int (2 ^ 52) :: rat) \<le> x / u" by simp
  then have "(2 ^ 52 :: int) \<le> \<lfloor>x / u\<rfloor>" by (simp only: le_floor_iff)
  then have "(2 ^ 52 :: int) \<le> round_half_even (x / u)"
    using round_half_even_ge[of "x / u"] by linarith
  then have "(of_int (2 ^ 52) :: rat) \<le> of_int (round_half_even (x / u))"
    by (simp only: of_int_le_iff)
  then have "(2::rat) powi 52 * u \<le> of_int (round_half_even (x / u)) * u"
    using u by (simp add: mult_right_mono)
  moreover have "(2::rat) powi 52 * u = 2 powi e"
  proof -
    have "(2::rat) powi (52 + (e - 52)) = 2 powi 52 * 2 powi (e - 52)"
      by (rule power_int_add) simp
    then show ?thesis by (simp add: u_def)
  qed
  moreover have "(2::rat) powi k \<le> 2 powi e" using ke by (rule power_int_increasing) simp
  moreover have "float_round x = of_int (round_half_even (x / u)) * u"
    using p by (simp add: float_round_def Let_def u_def e_def)
  ultimately show ?thesis by simp
qed

lemma float_round_ge_half: "1 / 2 \<le> x \<Longrightarrow> 1 / 2 \<le> float_round x"
  using float_round_ge_pow2[where k = "- 1" and x = x] by (simp add: power_int_minus)

text \<open>A number with a significand of at most 53 bits is a float.\<close>

lemma pow2_le_D: "(2::rat) powi a \<le> 2 powi b \<Longrightarrow> a \<le> b"
proof (rule ccontr)
  assume h: "(2::rat) powi a \<le> 2 powi b" and "\<not> a \<le> b"
  then have "b < a" by simp
  then have "(2::rat) powi b < 2 powi a" by (rule power_int_strict_increasing) simp
  with h show False by simp
qed

lemma pow2_less_D: "(2::rat) powi a < 2 powi b \<Longrightarrow> a < b"
proof (rule ccontr)
  assume h: "(2::rat) powi a < 2 powi b" and "\<not> a < b"
  then have "b \<le> a" by simp
  then have "(2::rat) powi b \<le> 2 powi a" by (rule power_int_increasing) simp
  with h show False by simp
qed

lemma round_half_even_int: "round_half_even (of_int m) = m"
  by (simp add: round_half_even_def)

lemma float_round_abs:
  assumes "x \<noteq> 0"
    and "\<bar>x\<bar> / 2 powi (float_exponent \<bar>x\<bar> - 52) = of_int m"
  shows "float_round x = x"
proof -
  define u :: rat where "u = 2 powi (float_exponent \<bar>x\<bar> - 52)"
  have u: "u \<noteq> 0" by (simp add: u_def)
  have "float_round x = sgn x * of_int (round_half_even (\<bar>x\<bar> / u)) * u"
    using assms(1) by (simp add: float_round_def Let_def u_def)
  also have "\<dots> = sgn x * (\<bar>x\<bar> / u) * u"
    using assms(2) by (simp add: u_def round_half_even_int)
  also have "\<dots> = sgn x * \<bar>x\<bar>" using u by simp
  also have "\<dots> = x" by (rule sgn_mult_abs)
  finally show ?thesis .
qed

lemma float_round_exact:
  assumes "\<bar>n\<bar> \<le> 2 ^ 53"
  shows "float_round (of_int n * 2 powi j) = of_int n * 2 powi j"
proof (cases "n = 0")
  case True
  then show ?thesis by (simp add: float_round_def)
next
  case False
  define x :: rat where "x = of_int n * 2 powi j"
  have ax: "\<bar>x\<bar> = of_int \<bar>n\<bar> * 2 powi j" by (simp add: x_def abs_mult)
  have x0: "x \<noteq> 0" using False by (simp add: x_def)
  then have pos: "0 < \<bar>x\<bar>" by simp
  define e where "e = float_exponent \<bar>x\<bar>"
  note eb = float_exponent_bounds[OF pos, folded e_def]
  have "\<exists>m. \<bar>x\<bar> / 2 powi (e - 52) = of_int m"
  proof (cases "\<bar>n\<bar> = 2 ^ 53")
    case True
    have "(of_int \<bar>n\<bar> :: rat) = of_int (2 ^ 53)" unfolding True ..
    then have n53: "(of_int \<bar>n\<bar> :: rat) = 2 powi 53" by simp
    have xv: "\<bar>x\<bar> = 2 powi (53 + j)" unfolding ax n53 by (simp add: power_int_add)
    have "e \<le> 53 + j" using eb(1) unfolding xv by (rule pow2_le_D)
    moreover have "53 + j < e + 1" using eb(2) unfolding xv by (rule pow2_less_D)
    ultimately have ev: "e = 53 + j" by simp
    have "\<bar>x\<bar> / 2 powi (e - 52) = 2 powi (53 + j - (e - 52))"
      unfolding xv by (rule power_int_diff[symmetric]) simp
    also have "\<dots> = of_int (2 ^ 52)" by (simp add: ev)
    finally show ?thesis by blast
  next
    case neq: False
    with assms have "\<bar>n\<bar> < 2 ^ 53" by simp
    then have "(of_int \<bar>n\<bar> :: rat) < of_int (2 ^ 53)" by (simp only: of_int_less_iff)
    then have nl: "(of_int \<bar>n\<bar> :: rat) < 2 powi 53" by simp
    have "\<bar>x\<bar> < 2 powi 53 * 2 powi j" unfolding ax using nl by simp
    also have "\<dots> = 2 powi (53 + j)" by (simp add: power_int_add)
    finally have "(2::rat) powi e < 2 powi (53 + j)" using eb(1) by simp
    then have el: "e < 53 + j" by (rule pow2_less_D)
    define d where "d = nat (j - (e - 52))"
    have d: "j - (e - 52) = int d" using el by (simp add: d_def)
    have pd: "(2::rat) powi (j - (e - 52)) = 2 powi j / 2 powi (e - 52)"
      by (rule power_int_diff) simp
    have "\<bar>x\<bar> / 2 powi (e - 52) = of_int \<bar>n\<bar> * 2 powi (j - (e - 52))"
      unfolding ax pd by simp
    also have "\<dots> = of_int (\<bar>n\<bar> * 2 ^ d)" unfolding d by simp
    finally show ?thesis by blast
  qed
  then obtain m where "\<bar>x\<bar> / 2 powi (float_exponent \<bar>x\<bar> - 52) = of_int m"
    unfolding e_def by blast
  from float_round_abs[OF x0 this] show ?thesis unfolding x_def .
qed

lemma round_half_even_le: "round_half_even q \<le> \<lfloor>q\<rfloor> + 1"
  by (simp add: round_half_even_def Let_def)

lemma is_float_repr:
  assumes "is_float x"
  shows "\<exists>n j. x = of_int n * 2 powi j \<and> \<bar>n\<bar> \<le> 2 ^ 53"
proof (cases "x = 0")
  case True
  then have "x = of_int 0 * 2 powi 0 \<and> \<bar>0::int\<bar> \<le> 2 ^ 53" by simp
  then show ?thesis by blast
next
  case False
  then have pos: "0 < \<bar>x\<bar>" by simp
  define e where "e = float_exponent \<bar>x\<bar>"
  define u :: rat where "u = 2 powi (e - 52)"
  define r where "r = round_half_even (\<bar>x\<bar> / u)"
  note eb = float_exponent_bounds[OF pos, folded e_def]
  have u: "0 < u" by (simp add: u_def)
  have fr: "float_round x = sgn x * of_int r * u"
    using False by (simp add: float_round_def Let_def u_def e_def r_def)
  have "(2::rat) powi (e + 1) = 2 powi 53 * u"
  proof -
    have "(2::rat) powi (e + 1) = 2 powi (53 + (e - 52))"
      by (rule arg_cong[where f = "\<lambda>k. 2 powi k"]) simp
    also have "\<dots> = 2 powi 53 * 2 powi (e - 52)"
      by (rule power_int_add) simp
    finally show ?thesis unfolding u_def .
  qed
  then have "\<bar>x\<bar> < 2 powi 53 * u" using eb(2) by simp
  then have "\<bar>x\<bar> / u < of_int (2 ^ 53)" using u by (simp add: pos_divide_less_eq)
  then have "\<lfloor>\<bar>x\<bar> / u\<rfloor> < 2 ^ 53" by (simp only: floor_less_iff)
  then have r1: "r \<le> 2 ^ 53" using round_half_even_le[of "\<bar>x\<bar> / u"] unfolding r_def by linarith
  have "0 \<le> \<bar>x\<bar> / u" using u by simp
  then have "0 \<le> \<lfloor>\<bar>x\<bar> / u\<rfloor>" by (simp only: zero_le_floor)
  then have r0: "0 \<le> r" using round_half_even_ge[of "\<bar>x\<bar> / u"] unfolding r_def by linarith
  define n where "n = (if 0 < x then r else - r)"
  have "sgn x * of_int r = of_int n" using False by (simp add: n_def sgn_if)
  then have "float_round x = of_int n * u" unfolding fr by simp
  then have "x = of_int n * 2 powi (e - 52)" using assms by (simp add: is_float_def u_def)
  moreover have "\<bar>n\<bar> \<le> 2 ^ 53" using r0 r1 by (simp add: n_def)
  ultimately show ?thesis by blast
qed

text \<open>The difference of two floats within a factor of two of each other is a float.\<close>

lemma float_sub_exact:
  assumes "is_float a" and "is_float b" and "b \<le> a" and "a \<le> 2 * b"
  shows "float_sub a b = a - b"
proof -
  obtain na ja where a: "a = of_int na * 2 powi ja" and na: "\<bar>na\<bar> \<le> 2 ^ 53"
    using is_float_repr[OF assms(1)] by blast
  obtain nb jb where b: "b = of_int nb * 2 powi jb" and nb: "\<bar>nb\<bar> \<le> 2 ^ 53"
    using is_float_repr[OF assms(2)] by blast
  have d0: "0 \<le> a - b" and d1: "a - b \<le> b" and d2: "2 * (a - b) \<le> a"
    using assms(3,4) by simp_all
  have "\<exists>m j. a - b = of_int m * 2 powi j \<and> \<bar>m\<bar> \<le> 2 ^ 53"
  proof (cases "ja \<le> jb")
    case True
    define k where "k = nat (jb - ja)"
    have k: "jb = ja + int k" using True by (simp add: k_def)
    define m where "m = na - nb * 2 ^ k"
    have bj: "b = of_int (nb * 2 ^ k) * 2 powi ja"
      unfolding b k by (simp add: power_int_add)
    have eq: "a - b = of_int m * 2 powi ja"
      unfolding a bj m_def by (simp add: algebra_simps)
    have pa: "(0::rat) < 2 powi ja" by simp
    have "0 \<le> of_int m * (2::rat) powi ja" using d0 unfolding eq .
    then have m0: "0 \<le> m" using pa by (auto simp: zero_le_mult_iff)
    have "2 * (of_int m * (2::rat) powi ja) \<le> of_int na * 2 powi ja"
      using d2[unfolded eq] unfolding a .
    then have "of_int (2 * m) * (2::rat) powi ja \<le> of_int na * 2 powi ja" by simp
    then have "(of_int (2 * m) :: rat) \<le> of_int na" by (simp only: mult_le_cancel_right) simp
    then have "2 * m \<le> na" by (simp only: of_int_le_iff)
    then have "\<bar>m\<bar> \<le> 2 ^ 53" using m0 na by simp
    with eq show ?thesis by blast
  next
    case False
    define k where "k = nat (ja - jb)"
    have k: "ja = jb + int k" using False by (simp add: k_def)
    define m where "m = na * 2 ^ k - nb"
    have aj: "a = of_int (na * 2 ^ k) * 2 powi jb"
      unfolding a k by (simp add: power_int_add)
    have eq: "a - b = of_int m * 2 powi jb"
      unfolding aj b m_def by (simp add: algebra_simps)
    have pb: "(0::rat) < 2 powi jb" by simp
    have "0 \<le> of_int m * (2::rat) powi jb" using d0 unfolding eq .
    then have m0: "0 \<le> m" using pb by (auto simp: zero_le_mult_iff)
    have "of_int m * (2::rat) powi jb \<le> of_int nb * 2 powi jb"
      using d1[unfolded eq] unfolding b .
    then have "(of_int m :: rat) \<le> of_int nb" by (simp only: mult_le_cancel_right) simp
    then have "m \<le> nb" by (simp only: of_int_le_iff)
    then have "\<bar>m\<bar> \<le> 2 ^ 53" using m0 nb by simp
    with eq show ?thesis by blast
  qed
  then obtain m j where "a - b = of_int m * 2 powi j" "\<bar>m\<bar> \<le> 2 ^ 53" by blast
  with float_round_exact[OF this(2), of j] show ?thesis by (simp add: float_sub_def)
qed

lemma float_sub_ge_half: "a - b \<ge> 1 / 2 \<Longrightarrow> float_sub a b \<ge> 1 / 2"
  unfolding float_sub_def by (rule float_round_ge_half)

lemma random_random_nonneg: "0 \<le> fst (random_random g)"
  by (simp add: random_random_def)

subsection \<open>The loop of the unified visualizer\<close>

lemma grownD:
  assumes "grown mode st st'"
  shows "frame st' = frame st" "running st' = running st" "beat_count st' = beat_count st"
    "current_scheme_idx st' = current_scheme_idx st"
    "last_beat_time st' = last_beat_time st" "last_sub_beat st' = last_sub_beat st"
    "intensity st' = intensity st"
    "\<exists>new. active_explosions st' = active_explosions st @ new
            \<and> (\<forall>e\<in>set new. birth e = frame st \<and> lifetime e = tracker_lifetime mode)"
    "int (length (active_explosions st'))
          \<le> max (int (length (active_explosions st))) (max_explosions mode)"
  using assms unfolding grown_def by blast+

lemma grown_refl: "grown mode st st"
  by (simp add: grown_def)

lemma grown_trans:
  assumes "grown mode st st1" and "grown mode st1 st2"
  shows "grown mode st st2"
proof -
  note d1 = grownD[OF assms(1)] and d2 = grownD[OF assms(2)]
  from d1(8) obtain n1 where n1: "active_explosions st1 = active_explosions st @ n1"
    "\<forall>e\<in>set n1. birth e = frame st \<and> lifetime e = tracker_lifetime mode" by blast
  from d2(8) obtain n2 where n2: "active_explosions st2 = active_explosions st1 @ n2"
    "\<forall>e\<in>set n2. birth e = frame st1 \<and> lifetime e = tracker_lifetime mode" by blast
  have "active_explosions st2 = active_explosions st @ (n1 @ n2)"
    using n1(1) n2(1) by simp
  moreover have "\<forall>e\<in>set (n1 @ n2). birth e = frame st \<and> lifetime e = tracker_lifetime mode"
    using n1(2) n2(2) d1(1) by auto
  ultimately have ex: "\<exists>new. active_explosions st2 = active_explosions st @ new
            \<and> (\<forall>e\<in>set new. birth e = frame st \<and> lifetime e = tracker_lifetime mode)"
    by blast
  have len: "int (length (active_explosions st2))
          \<le> max (int (length (active_explosions st))) (max_explosions mode)"
    using d1(9) d2(9) by linarith
  show ?thesis
    unfolding grown_def using ex len d1(1-7) d2(1-7) by simp
qed

lemma add_explosions_grown: "grown mode st (add_explosions mode es st)"
proof (induction es arbitrary: st)
  case Nil
  show ?case by (simp add: grown_refl)
next
  case (Cons x es)
  show ?case
  proof (cases "int (length (active_explosions st)) < max_explosions mode")
    case True
    define st1 where "st1 = st\<lparr>active_explosions := active_explosions st @
                  [\<lparr>effect = x, birth = frame st, lifetime = tracker_lifetime mode\<rparr>]\<rparr>"
    have a: "grown mode st st1" using True by (simp add: st1_def grown_def)
    have b: "grown mode st1 (add_explosions mode es st1)" by (rule Cons.IH)
    have "add_explosions mode (x # es) st = add_explosions mode es st1"
      using True by (simp add: st1_def)
    with grown_trans[OF a b] show ?thesis by simp
  next
    case False
    then show ?thesis using Cons.IH[of st] by simp
  qed
qed

lemma spawn_fireworks_grown:
  "case spawn_fireworks n scr mode g st of
     Inl (e, st') \<Rightarrow> grown mode st st'
   | Inr (st', g') \<Rightarrow> grown mode st st'"
proof (induction n arbitrary: g st)
  case 0
  show ?case by (simp add: grown_refl)
next
  case (Suc n)
  show ?case
  proof (cases "randint 5 (width scr - 5) g")
    case (Inl e)
    then show ?thesis by (simp add: grown_refl)
  next
    case (Inr xg)
    obtain x g1 where xg: "xg = (x, g1)" by (cases xg)
    show ?thesis
    proof (cases "randint 5 (height scr - 5) g1")
      case (Inl e)
      then show ?thesis using Inr xg by (simp add: grown_refl)
    next
      case yg: (Inr yg)
      obtain y g2 where yg2: "yg = (y, g2)" by (cases yg)
      show ?thesis
      proof (cases "create_fireworks scr x y (intensity st) mode g2")
        case (Inl e)
        then show ?thesis using Inr xg yg yg2 by (simp add: grown_refl)
      next
        case cf: (Inr ng)
        obtain new g3 where ng: "ng = (new, g3)" by (cases ng)
        let ?st1 = "add_explosions mode new st"
        have eq: "spawn_fireworks (Suc n) scr mode g st = spawn_fireworks n scr mode g3 ?st1"
          using Inr xg yg yg2 cf ng by simp
        have a: "grown mode st ?st1" by (rule add_explosions_grown)
        show ?thesis
        proof (cases "spawn_fireworks n scr mode g3 ?st1")
          case (Inl es)
          obtain e st' where es: "es = (e, st')" by (cases es)
          have "grown mode ?st1 st'" using Suc.IH[where g = g3 and st = ?st1] Inl es by simp
          from grown_trans[OF a this] show ?thesis unfolding eq using Inl es by simp
        next
          case r: (Inr sg)
          obtain st' g' where sg: "sg = (st', g')" by (cases sg)
          have "grown mode ?st1 st'" using Suc.IH[where g = g3 and st = ?st1] r sg by simp
          from grown_trans[OF a this] show ?thesis unfolding eq using r sg by simp
        qed
      qed
    qed
  qed
qed


lemma beat_branch_grown:
  "case beat_branch scr mode t g st of
     Inl (e, st') \<Rightarrow> grown mode (beat_state mode t g st) st'
   | Inr st' \<Rightarrow> grown mode (beat_state mode t g st) st'"
proof (cases "float_sub t (last_beat_time st) \<ge> beat_interval mode")
  case False
  then have "beat_branch scr mode t g st = Inr st" and "beat_state mode t g st = st"
    by (simp_all add: beat_branch_def poll_def beat_state_def)
  then show ?thesis by (simp add: grown_refl)
next
  case True
  define st0 where "st0 = beat_state mode t g st"
  define n :: nat where "n = (if mode = SIMPLE then 1 else 3)"
  define g1 where "g1 = snd (vary_intensity mode g)"
  have eq: "beat_branch scr mode t g st =
      (case spawn_fireworks n scr mode g1 st0 of Inl err \<Rightarrow> Inl err | Inr (st4, g2) \<Rightarrow> Inr st4)"
    using True
    by (simp add: beat_branch_def poll_def Let_def split_beta st0_def n_def g1_def beat_state_def)
  note sp = spawn_fireworks_grown[where n = n and scr = scr and mode = mode and g = g1 and st = st0]
  show ?thesis
  proof (cases "spawn_fireworks n scr mode g1 st0")
    case (Inl es)
    obtain e st' where "es = (e, st')" by (cases es)
    with Inl sp show ?thesis unfolding eq st0_def by simp
  next
    case (Inr sg)
    obtain st' g' where "sg = (st', g')" by (cases sg)
    with Inr sp show ?thesis unfolding eq st0_def by simp
  qed
qed

lemma beat_state_fields:
  "frame (beat_state mode t g st) = frame st"
  "running (beat_state mode t g st) = running st"
  "active_explosions (beat_state mode t g st) = active_explosions st"
  "last_sub_beat (beat_state mode t g st) = last_sub_beat st"
  "beat_count (beat_state mode t g st) = beat_count (snd (poll mode t st))"
  "last_beat_time (beat_state mode t g st) = last_beat_time (snd (poll mode t st))"
  "current_scheme_idx (beat_state mode t g st) =
     (if fst (poll mode t st) then current_scheme_idx (rotate_scheme mode (snd (poll mode t st)))
      else current_scheme_idx st)"
  by (simp_all add: rotate_scheme_def poll_def beat_state_def)

lemma beat_branch_Inr:
  assumes "beat_branch scr mode t g st = Inr st'"
  shows "grown mode (beat_state mode t g st) st'"
  using beat_branch_grown[where scr = scr and mode = mode and t = t and g = g and st = st] assms by simp

lemma beat_branch_Inl:
  assumes "beat_branch scr mode t g st = Inl (e, st')"
  shows "grown mode (beat_state mode t g st) st'"
  using beat_branch_grown[where scr = scr and mode = mode and t = t and g = g and st = st] assms by simp

lemma sweep_length: "length (sweep fr xs) \<le> length xs"
  by (simp add: sweep_def)

lemma sweep_subset: "set (sweep fr xs) \<subseteq> set xs"
  by (auto simp: sweep_def)

lemma check_quit_Inr:
  assumes "check_quit ev st = Inr st'"
  shows "frame st' = frame st" "active_explosions st' = active_explosions st"
    "beat_count st' = beat_count st" "current_scheme_idx st' = current_scheme_idx st"
    "last_beat_time st' = last_beat_time st"
  using assms by (auto simp: check_quit_def split: option.splits event.splits if_splits)

lemma check_quit_Inl:
  assumes "check_quit ev st = Inl (e, st')"
  shows "st' = st"
  using assms by (auto simp: check_quit_def split: option.splits event.splits if_splits)

lemma sub_beat_fields:
  "frame (sub_beat mode t st) = frame st"
  "active_explosions (sub_beat mode t st) = active_explosions st"
  "beat_count (sub_beat mode t st) = beat_count st"
  "current_scheme_idx (sub_beat mode t st) = current_scheme_idx st"
  "last_beat_time (sub_beat mode t st) = last_beat_time st"
  "running (sub_beat mode t st) = running st"
  by (simp_all add: sub_beat_def)

text \<open>A completed iteration.\<close>

lemma frame_step_Inr:
  assumes "frame_step scr mode inp st = Inr st'"
  shows "frame st' = frame st + 1"
    and "\<exists>new. active_explosions st' = sweep (frame st) (active_explosions st @ new)
            \<and> (\<forall>e\<in>set new. birth e = frame st \<and> lifetime e = tracker_lifetime mode)"
    and "int (length (active_explosions st'))
          \<le> max (int (length (active_explosions st))) (max_explosions mode)"
    and "beat_count st' = beat_count (snd (poll mode (now inp) st))"
    and "last_beat_time st' = last_beat_time (snd (poll mode (now inp) st))"
    and "current_scheme_idx st' =
     (if fst (poll mode (now inp) st)
      then current_scheme_idx (rotate_scheme mode (snd (poll mode (now inp) st)))
      else current_scheme_idx st)"
    and "running st \<Longrightarrow> pending_event inp = None \<Longrightarrow> running st'"
proof -
  from assms obtain st1 where b: "beat_branch scr mode (now inp) (rnd inp) st = Inr st1"
    by (cases "beat_branch scr mode (now inp) (rnd inp) st") (simp_all add: frame_step_def bindE_def)
  define st2 where "st2 = sub_beat mode (now inp) st1"
  define st3 where "st3 = st2\<lparr>active_explosions := sweep (frame st2) (active_explosions st2)\<rparr>"
  have fs: "frame_step scr mode inp st =
      (case lib_error inp of Some e \<Rightarrow> Inl (e, st3)
       | None \<Rightarrow> bindE (check_quit (pending_event inp) st3) (\<lambda>st4. Inr (st4\<lparr>frame := frame st4 + 1\<rparr>)))"
    unfolding st3_def st2_def frame_step_def Let_def using b by (simp add: bindE_def)
  from assms have le: "lib_error inp = None"
    unfolding fs by (cases "lib_error inp") simp_all
  from assms obtain st4 where q: "check_quit (pending_event inp) st3 = Inr st4"
    and s': "st' = st4\<lparr>frame := frame st4 + 1\<rparr>"
    unfolding fs le by (cases "check_quit (pending_event inp) st3") (auto simp: bindE_def)
  note g = grownD[OF beat_branch_Inr[OF b]]
  note bs = beat_state_fields[where mode = mode and t = "now inp" and g = "rnd inp" and st = st]
  note cq = check_quit_Inr[OF q]
  note sb = sub_beat_fields[where mode = mode and t = "now inp" and st = st1]
  have fr: "frame st1 = frame st" using g(1) bs(1) by simp
  have f3: "frame st3 = frame st" "beat_count st3 = beat_count st1"
    "current_scheme_idx st3 = current_scheme_idx st1" "last_beat_time st3 = last_beat_time st1"
    "active_explosions st3 = sweep (frame st) (active_explosions st1)"
    "running st3 = running st1"
    using sb fr by (simp_all add: st3_def st2_def)
  show "frame st' = frame st + 1" using s' cq(1) f3(1) by simp
  from g(8) obtain new where new: "active_explosions st1 = active_explosions st @ new"
    "\<forall>e\<in>set new. birth e = frame st \<and> lifetime e = tracker_lifetime mode"
    using bs(1,3) by auto
  have ae: "active_explosions st' = sweep (frame st) (active_explosions st1)"
    using s' cq(2) f3(5) by simp
  show "\<exists>new. active_explosions st' = sweep (frame st) (active_explosions st @ new)
            \<and> (\<forall>e\<in>set new. birth e = frame st \<and> lifetime e = tracker_lifetime mode)"
    using ae new by auto
  have "int (length (active_explosions st1))
          \<le> max (int (length (active_explosions st))) (max_explosions mode)"
    using g(9) bs(3) by simp
  moreover have "length (active_explosions st') \<le> length (active_explosions st1)"
    unfolding ae by (rule sweep_length)
  ultimately show "int (length (active_explosions st'))
          \<le> max (int (length (active_explosions st))) (max_explosions mode)" by linarith
  show "beat_count st' = beat_count (snd (poll mode (now inp) st))"
    using s' cq(3) f3(2) g(3) bs(5) by simp
  show "last_beat_time st' = last_beat_time (snd (poll mode (now inp) st))"
    using s' cq(5) f3(4) g(5) bs(6) by simp
  show "current_scheme_idx st' =
     (if fst (poll mode (now inp) st)
      then current_scheme_idx (rotate_scheme mode (snd (poll mode (now inp) st)))
      else current_scheme_idx st)"
    using s' cq(4) f3(3) g(4) bs(7) by simp
  show "running st \<Longrightarrow> pending_event inp = None \<Longrightarrow> running st'"
    using s' q f3(6) g(2) bs(2) by (auto simp: check_quit_def)
qed

text \<open>An iteration left by an exception.\<close>

lemma frame_step_Inl:
  assumes "frame_step scr mode inp st = Inl (e, st')"
  shows "frame st' = frame st"
    and "\<forall>x\<in>set (active_explosions st'). x \<in> set (active_explosions st)
            \<or> (birth x = frame st \<and> lifetime x = tracker_lifetime mode)"
    and "int (length (active_explosions st'))
          \<le> max (int (length (active_explosions st))) (max_explosions mode)"
    and "beat_count st' = beat_count (snd (poll mode (now inp) st))"
    and "current_scheme_idx st' =
     (if fst (poll mode (now inp) st)
      then current_scheme_idx (rotate_scheme mode (snd (poll mode (now inp) st)))
      else current_scheme_idx st)"
proof -
  define bst where "bst = beat_state mode (now inp) (rnd inp) st"
  note bs = beat_state_fields[where mode = mode and t = "now inp" and g = "rnd inp" and st = st]
  have "frame st' = frame st
    \<and> (\<forall>x\<in>set (active_explosions st'). x \<in> set (active_explosions st)
            \<or> (birth x = frame st \<and> lifetime x = tracker_lifetime mode))
    \<and> int (length (active_explosions st'))
          \<le> max (int (length (active_explosions st))) (max_explosions mode)
    \<and> beat_count st' = beat_count (snd (poll mode (now inp) st))
    \<and> current_scheme_idx st' =
     (if fst (poll mode (now inp) st)
      then current_scheme_idx (rotate_scheme mode (snd (poll mode (now inp) st)))
      else current_scheme_idx st)"
  proof (cases "beat_branch scr mode (now inp) (rnd inp) st")
    case (Inl es)
    with assms have "es = (e, st')" by (simp add: frame_step_def bindE_def)
    with Inl have "beat_branch scr mode (now inp) (rnd inp) st = Inl (e, st')" by simp
    note g = grownD[OF beat_branch_Inl[OF this]]
    from g(8) obtain new where new: "active_explosions st' = active_explosions st @ new"
      "\<forall>e\<in>set new. birth e = frame st \<and> lifetime e = tracker_lifetime mode"
      using bs(1,3) by auto
    have "frame st' = frame st" using g(1) bs(1) by simp
    moreover have "\<forall>x\<in>set (active_explosions st'). x \<in> set (active_explosions st)
            \<or> (birth x = frame st \<and> lifetime x = tracker_lifetime mode)"
      using new by auto
    moreover have "int (length (active_explosions st'))
          \<le> max (int (length (active_explosions st))) (max_explosions mode)"
      using g(9) bs(3) by simp
    moreover have "beat_count st' = beat_count (snd (poll mode (now inp) st))"
      using g(3) bs(5) by simp
    moreover have "current_scheme_idx st' =
     (if fst (poll mode (now inp) st)
      then current_scheme_idx (rotate_scheme mode (snd (poll mode (now inp) st)))
      else current_scheme_idx st)"
      using g(4) bs(7) by simp
    ultimately show ?thesis by blast
  next
    case (Inr st1)
    note g = grownD[OF beat_branch_Inr[OF Inr]]
    define st2 where "st2 = sub_beat mode (now inp) st1"
    define st3 where "st3 = st2\<lparr>active_explosions := sweep (frame st2) (active_explosions st2)\<rparr>"
    note sb = sub_beat_fields[where mode = mode and t = "now inp" and st = st1]
    have fs: "frame_step scr mode inp st =
      (case lib_error inp of Some e \<Rightarrow> Inl (e, st3)
       | None \<Rightarrow> bindE (check_quit (pending_event inp) st3) (\<lambda>st4. Inr (st4\<lparr>frame := frame st4 + 1\<rparr>)))"
      unfolding st3_def st2_def frame_step_def Let_def using Inr by (simp add: bindE_def)
    have "st' = st3"
    proof (cases "lib_error inp")
      case None
      with assms have "check_quit (pending_event inp) st3 = Inl (e, st')"
        unfolding fs by (cases "check_quit (pending_event inp) st3") (simp_all add: bindE_def)
      then show ?thesis by (rule check_quit_Inl)
    next
      case (Some a)
      with assms show ?thesis unfolding fs by simp
    qed
    then have f: "frame st' = frame st1"
      and ae: "active_explosions st' = sweep (frame st1) (active_explosions st1)"
      and bc: "beat_count st' = beat_count st1"
      and ci: "current_scheme_idx st' = current_scheme_idx st1"
      using sb(1,2,3,4) by (simp_all add: st3_def st2_def)
    have l: "length (active_explosions st') \<le> length (active_explosions st1)"
      unfolding ae by (rule sweep_length)
    have s: "set (active_explosions st') \<subseteq> set (active_explosions st1)"
      unfolding ae by (rule sweep_subset)
    from g(8) obtain new where new: "active_explosions st1 = active_explosions st @ new"
      "\<forall>e\<in>set new. birth e = frame st \<and> lifetime e = tracker_lifetime mode"
      using bs(1,3) by auto
    have "frame st' = frame st" using f g(1) bs(1) by simp
    moreover have "\<forall>x\<in>set (active_explosions st'). x \<in> set (active_explosions st)
            \<or> (birth x = frame st \<and> lifetime x = tracker_lifetime mode)"
      using s new by auto
    moreover have "int (length (active_explosions st'))
          \<le> max (int (length (active_explosions st))) (max_explosions mode)"
      using l g(9) bs(3) by simp
    moreover have "beat_count st' = beat_count (snd (poll mode (now inp) st))"
      using bc g(3) bs(5) by simp
    moreover have "current_scheme_idx st' =
     (if fst (poll mode (now inp) st)
      then current_scheme_idx (rotate_scheme mode (snd (poll mode (now inp) st)))
      else current_scheme_idx st)"
      using ci g(4) bs(7) by simp
    ultimately show ?thesis by blast
  qed
  then show "frame st' = frame st"
    and "\<forall>x\<in>set (active_explosions st'). x \<in> set (active_explosions st)
            \<or> (birth x = frame st \<and> lifetime x = tracker_lifetime mode)"
    and "int (length (active_explosions st'))
          \<le> max (int (length (active_explosions st))) (max_explosions mode)"
    and "beat_count st' = beat_count (snd (poll mode (now inp) st))"
    and "current_scheme_idx st' =
     (if fst (poll mode (now inp) st)
      then current_scheme_idx (rotate_scheme mode (snd (poll mode (now inp) st)))
      else current_scheme_idx st)"
    by blast+
qed

lemma result_state_simps:
  "result_state (Finished st) = st"
  "result_state (Raised e st) = st"
  "result_state (Running st) = st"
  by (simp_all add: result_state_def)

lemma run_loop_stop:
  "\<not> (running st \<and> busy inp) \<Longrightarrow> run_loop scr mode (inp # inps) st = Finished st"
  by auto

lemma run_loop_capped:
  "int (length (active_explosions st)) \<le> max_explosions mode \<Longrightarrow>
   int (length (active_explosions (result_state (run_loop scr mode inps st)))) \<le> max_explosions mode"
proof (induction inps arbitrary: st)
  case Nil
  then show ?case by (simp add: result_state_def)
next
  case (Cons inp inps)
  show ?case
  proof (cases "running st \<and> busy inp")
    case False
    from run_loop_stop[OF this] show ?thesis using Cons.prems by (simp add: result_state_simps)
  next
    case True
    show ?thesis
    proof (cases "frame_step scr mode inp st")
      case (Inl es)
      obtain e st' where es: "es = (e, st')" by (cases es)
      from frame_step_Inl(3)[OF Inl[unfolded es]] Cons.prems
      have "int (length (active_explosions st')) \<le> max_explosions mode" by simp
      then show ?thesis using True Inl es by (simp add: result_state_simps)
    next
      case (Inr st')
      from frame_step_Inr(3)[OF Inr] Cons.prems
      have "int (length (active_explosions st')) \<le> max_explosions mode" by simp
      from Cons.IH[OF this] show ?thesis using True Inr by simp
    qed
  qed
qed

lemma beat_branch_capped:
  assumes "int (length (active_explosions st)) \<le> max_explosions mode"
  shows "case beat_branch scr mode t g st of
     Inl (e, st') \<Rightarrow> int (length (active_explosions st')) \<le> max_explosions mode
   | Inr st' \<Rightarrow> int (length (active_explosions st')) \<le> max_explosions mode"
proof (cases "beat_branch scr mode t g st")
  case (Inl es)
  obtain e st' where es: "es = (e, st')" by (cases es)
  note g = grownD[OF beat_branch_Inl[OF Inl[unfolded es]]]
  from g(9) assms show ?thesis using Inl es by (simp add: beat_state_fields)
next
  case (Inr st')
  note g = grownD[OF beat_branch_Inr[OF Inr]]
  from g(9) assms show ?thesis using Inr by (simp add: beat_state_fields)
qed

section \<open>The cap on the transient effects\<close>

text \<open>
  Claim C1. In every mode, and in every state that the main loop of the unified
  visualizer reaches from its initial state (between iterations, at the point where an
  exception leaves the loop, and after the beat handler of a further iteration), the
  number of entries of \<open>active_explosions\<close> is at most \<open>max_explosions\<close> of the mode. The
  guarded append never makes the list longer than the longer of its old length and the
  cap. The caps are 20 for simple, 40 for standard and 100 for insane.
\<close>

theorem active_explosions_capped:
  "int (length (active_explosions
      (result_state (run_loop scr mode inps (initial_state t_beat t_sub))))) \<le> max_explosions mode
   \<and> (case beat_branch scr mode t g
             (result_state (run_loop scr mode inps (initial_state t_beat t_sub))) of
         Inl (e, st') \<Rightarrow> int (length (active_explosions st')) \<le> max_explosions mode
       | Inr st' \<Rightarrow> int (length (active_explosions st')) \<le> max_explosions mode)
   \<and> int (length (active_explosions (add_explosions mode new_explosions st)))
        \<le> max (int (length (active_explosions st))) (max_explosions mode)
   \<and> max_explosions SIMPLE = 20 \<and> max_explosions STANDARD = 40 \<and> max_explosions INSANE = 100"
proof -
  have "int (length (active_explosions (initial_state t_beat t_sub))) \<le> max_explosions mode"
    by (simp add: initial_state_def max_explosions_def)
  from run_loop_capped[OF this]
  have a: "int (length (active_explosions
      (result_state (run_loop scr mode inps (initial_state t_beat t_sub))))) \<le> max_explosions mode" .
  note b = beat_branch_capped[OF a]
  note c = grownD(9)[OF add_explosions_grown]
  show ?thesis using a b c by (simp add: max_explosions_def)
qed

lemma sweep_set: "set (sweep fr exps) = {x \<in> set exps. fr - birth x < lifetime x}"
  by (auto simp: sweep_def)

lemma run_loop_frame_mono:
  "run_loop scr mode inps st = Running st' \<or> run_loop scr mode inps st = Finished st'
   \<Longrightarrow> frame st \<le> frame st'"
proof (induction inps arbitrary: st)
  case Nil
  then show ?case by simp
next
  case (Cons inp inps)
  show ?case
  proof (cases "running st \<and> busy inp")
    case False
    from run_loop_stop[OF this] Cons.prems show ?thesis by simp
  next
    case True
    show ?thesis
    proof (cases "frame_step scr mode inp st")
      case (Inl es)
      obtain e st1 where "es = (e, st1)" by (cases es)
      with True Inl Cons.prems show ?thesis by simp
    next
      case (Inr st1)
      with True Cons.prems
      have "run_loop scr mode inps st1 = Running st' \<or> run_loop scr mode inps st1 = Finished st'"
        by simp
      from Cons.IH[OF this] frame_step_Inr(1)[OF Inr] show ?thesis by simp
    qed
  qed
qed

lemma run_loop_absent:
  "run_loop scr mode inps st = Running st' \<or> run_loop scr mode inps st = Finished st'
   \<Longrightarrow> e \<notin> set (active_explosions st) \<Longrightarrow> birth e < frame st
   \<Longrightarrow> e \<notin> set (active_explosions st')"
proof (induction inps arbitrary: st)
  case Nil
  then show ?case by simp
next
  case (Cons inp inps)
  show ?case
  proof (cases "running st \<and> busy inp")
    case False
    from run_loop_stop[OF this] Cons.prems show ?thesis by simp
  next
    case True
    show ?thesis
    proof (cases "frame_step scr mode inp st")
      case (Inl es)
      obtain x st1 where "es = (x, st1)" by (cases es)
      with True Inl Cons.prems show ?thesis by simp
    next
      case (Inr st1)
      with True Cons.prems
      have r: "run_loop scr mode inps st1 = Running st' \<or> run_loop scr mode inps st1 = Finished st'"
        by simp
      from frame_step_Inr(2)[OF Inr] obtain new where
        new: "active_explosions st1 = sweep (frame st) (active_explosions st @ new)"
          "\<forall>x\<in>set new. birth x = frame st \<and> lifetime x = tracker_lifetime mode" by blast
      have "e \<notin> set new" using new(2) Cons.prems(3) by auto
      then have a: "e \<notin> set (active_explosions st1)"
        using Cons.prems(2) by (simp add: new(1) sweep_set)
      have b: "birth e < frame st1" using frame_step_Inr(1)[OF Inr] Cons.prems(3) by simp
      from Cons.IH[OF r a b] show ?thesis .
    qed
  qed
qed

lemma run_loop_window:
  "run_loop scr mode inps st = Running st' \<or> run_loop scr mode inps st = Finished st'
   \<Longrightarrow> e \<in> set (active_explosions st) \<Longrightarrow> birth e < frame st
   \<Longrightarrow> frame st - 1 - birth e < lifetime e
   \<Longrightarrow> (e \<in> set (active_explosions st') \<longleftrightarrow> frame st' - 1 < birth e + lifetime e)"
proof (induction inps arbitrary: st)
  case Nil
  then show ?case by auto
next
  case (Cons inp inps)
  show ?case
  proof (cases "running st \<and> busy inp")
    case False
    from run_loop_stop[OF this] Cons.prems show ?thesis by auto
  next
    case True
    show ?thesis
    proof (cases "frame_step scr mode inp st")
      case (Inl es)
      obtain x st1 where "es = (x, st1)" by (cases es)
      with True Inl Cons.prems show ?thesis by simp
    next
      case (Inr st1)
      with True Cons.prems
      have r: "run_loop scr mode inps st1 = Running st' \<or> run_loop scr mode inps st1 = Finished st'"
        by simp
      from frame_step_Inr(2)[OF Inr] obtain new where
        new: "active_explosions st1 = sweep (frame st) (active_explosions st @ new)" by blast
      have f1: "frame st1 = frame st + 1" by (rule frame_step_Inr(1)[OF Inr])
      have mem: "e \<in> set (active_explosions st1) \<longleftrightarrow> frame st - birth e < lifetime e"
        using Cons.prems(2) by (simp add: new sweep_set)
      have b: "birth e < frame st1" using f1 Cons.prems(3) by simp
      show ?thesis
      proof (cases "frame st - birth e < lifetime e")
        case True
        then have "e \<in> set (active_explosions st1)" "frame st1 - 1 - birth e < lifetime e"
          using mem f1 by simp_all
        from Cons.IH[OF r this(1) b this(2)] show ?thesis .
      next
        case False
        then have "e \<notin> set (active_explosions st1)" using mem by simp
        from run_loop_absent[OF r this b] have "e \<notin> set (active_explosions st')" .
        moreover have "frame st1 \<le> frame st'" by (rule run_loop_frame_mono[OF r])
        ultimately show ?thesis using False f1 by auto
      qed
    qed
  qed
qed

lemma frame_step_quiet:
  "frame_step \<lparr>width = 80, height = 24\<rparr> SIMPLE
      \<lparr>busy = True, now = 1 / 10, rnd = (\<lambda>n. 0), pending_event = None, lib_error = None\<rparr>
      \<lparr>frame = 1, beat_count = 0,
        active_explosions =
          [\<lparr>effect = \<lparr>cls = RingFirework, pos_x = 10, pos_y = 10, life_time = 12\<rparr>, birth = 0, lifetime = 30\<rparr>],
        last_beat_time = 0, last_sub_beat = 0, current_scheme_idx = 0, intensity = 1 / 2,
        running = True\<rparr>
   = Inr \<lparr>frame = 2, beat_count = 0,
        active_explosions =
          [\<lparr>effect = \<lparr>cls = RingFirework, pos_x = 10, pos_y = 10, life_time = 12\<rparr>, birth = 0, lifetime = 30\<rparr>],
        last_beat_time = 0, last_sub_beat = 0, current_scheme_idx = 0, intensity = 1 / 2,
        running = True\<rparr>"
  by code_simp

section \<open>The lifetime window of an entry\<close>

text \<open>
  Claim C2. The sweep keeps exactly the entries with \<open>frame - birth < lifetime\<close>. An
  entry with birth frame \<open>b\<close> and lifetime \<open>L > 0\<close> survives the sweep of every frame from
  \<open>b\<close> to \<open>b + L - 1\<close> and is in no swept list from frame \<open>b + L\<close> on, whatever list is
  swept. In the loop of the unified visualizer: an entry that is in the list after the
  iteration that added it is in the list after a later iteration exactly when the frame
  of that iteration is at most \<open>b + L - 1\<close>; once gone it does not come back. Entries
  with lifetimes 10, 20 and 30 born at frame 0 and swept at the frames 0 to 25 leave
  exactly the entry with lifetime 30.
\<close>

theorem lifetime_window:
  "set (sweep fr exps) = {x \<in> set exps. fr - birth x < lifetime x}
   \<and> (e \<in> set exps \<and> 0 < lifetime e \<and> birth e \<le> fr \<and> fr \<le> birth e + lifetime e - 1
        \<longrightarrow> e \<in> set (sweep fr exps))
   \<and> (birth e + lifetime e \<le> fr \<longrightarrow> e \<notin> set (sweep fr exps))
   \<and> ((run_loop scr mode inps st = Running st' \<or> run_loop scr mode inps st = Finished st')
        \<and> e \<in> set (active_explosions st) \<and> birth e < frame st
        \<and> frame st - 1 - birth e < lifetime e
        \<longrightarrow> (e \<in> set (active_explosions st') \<longleftrightarrow> frame st' - 1 < birth e + lifetime e))
   \<and> foldl (\<lambda>xs fr. sweep fr xs)
            [\<lparr>effect = ef, birth = 0, lifetime = 10\<rparr>,
             \<lparr>effect = ef, birth = 0, lifetime = 20\<rparr>,
             \<lparr>effect = ef, birth = 0, lifetime = 30\<rparr>] [0..25]
          = [\<lparr>effect = ef, birth = 0, lifetime = 30\<rparr>]"
proof -
  have a: "set (sweep fr exps) = {x \<in> set exps. fr - birth x < lifetime x}"
    by (rule sweep_set)
  have b: "e \<in> set exps \<and> 0 < lifetime e \<and> birth e \<le> fr \<and> fr \<le> birth e + lifetime e - 1
        \<longrightarrow> e \<in> set (sweep fr exps)"
    by (simp add: sweep_set)
  have c: "birth e + lifetime e \<le> fr \<longrightarrow> e \<notin> set (sweep fr exps)"
    by (simp add: sweep_set)
  have d: "(run_loop scr mode inps st = Running st' \<or> run_loop scr mode inps st = Finished st')
        \<and> e \<in> set (active_explosions st) \<and> birth e < frame st
        \<and> frame st - 1 - birth e < lifetime e
        \<longrightarrow> (e \<in> set (active_explosions st') \<longleftrightarrow> frame st' - 1 < birth e + lifetime e)"
    using run_loop_window[of scr mode inps st st' e] by blast
  have e: "foldl (\<lambda>xs fr. sweep fr xs)
            [\<lparr>effect = ef, birth = 0, lifetime = 10\<rparr>,
             \<lparr>effect = ef, birth = 0, lifetime = 20\<rparr>,
             \<lparr>effect = ef, birth = 0, lifetime = 30\<rparr>] [0..25]
          = [\<lparr>effect = ef, birth = 0, lifetime = 30\<rparr>]"
    by (simp add: sweep_def upto.simps)
  from a b c d e show ?thesis by blast
qed

text \<open>The theorem at an entry born at frame 0 with lifetime 30, before and after a quiet frame.\<close>

theorem lifetime_window_witness:
  "\<lparr>effect = \<lparr>cls = RingFirework, pos_x = 10, pos_y = 10, life_time = 12\<rparr>, birth = 0, lifetime = 30\<rparr>
      \<in> set [\<lparr>effect = \<lparr>cls = RingFirework, pos_x = 10, pos_y = 10, life_time = 12\<rparr>, birth = 0, lifetime = 30\<rparr>]
   \<and> (0::int) < 30 \<and> (0::int) \<le> 29 \<and> (29::int) \<le> 0 + 30 - 1
   \<and> \<lparr>effect = \<lparr>cls = RingFirework, pos_x = 10, pos_y = 10, life_time = 12\<rparr>, birth = 0, lifetime = 30\<rparr>
      \<in> set (sweep 29 [\<lparr>effect = \<lparr>cls = RingFirework, pos_x = 10, pos_y = 10, life_time = 12\<rparr>, birth = 0, lifetime = 30\<rparr>])
   \<and> (0::int) + 30 \<le> 30
   \<and> \<lparr>effect = \<lparr>cls = RingFirework, pos_x = 10, pos_y = 10, life_time = 12\<rparr>, birth = 0, lifetime = 30\<rparr>
      \<notin> set (sweep 30 [\<lparr>effect = \<lparr>cls = RingFirework, pos_x = 10, pos_y = 10, life_time = 12\<rparr>, birth = 0, lifetime = 30\<rparr>])
   \<and> run_loop \<lparr>width = 80, height = 24\<rparr> SIMPLE
        [\<lparr>busy = True, now = 1 / 10, rnd = (\<lambda>n. 0), pending_event = None, lib_error = None\<rparr>]
        \<lparr>frame = 1, beat_count = 0,
          active_explosions =
            [\<lparr>effect = \<lparr>cls = RingFirework, pos_x = 10, pos_y = 10, life_time = 12\<rparr>, birth = 0, lifetime = 30\<rparr>],
          last_beat_time = 0, last_sub_beat = 0, current_scheme_idx = 0, intensity = 1 / 2,
          running = True\<rparr>
      = Running \<lparr>frame = 2, beat_count = 0,
          active_explosions =
            [\<lparr>effect = \<lparr>cls = RingFirework, pos_x = 10, pos_y = 10, life_time = 12\<rparr>, birth = 0, lifetime = 30\<rparr>],
          last_beat_time = 0, last_sub_beat = 0, current_scheme_idx = 0, intensity = 1 / 2,
          running = True\<rparr>
   \<and> (\<lparr>effect = \<lparr>cls = RingFirework, pos_x = 10, pos_y = 10, life_time = 12\<rparr>, birth = 0, lifetime = 30\<rparr>
        \<in> set [\<lparr>effect = \<lparr>cls = RingFirework, pos_x = 10, pos_y = 10, life_time = 12\<rparr>, birth = 0, lifetime = 30\<rparr>]
       \<longleftrightarrow> (2::int) - 1 < 0 + 30)"
proof -
  let ?e = "\<lparr>effect = \<lparr>cls = RingFirework, pos_x = 10, pos_y = 10, life_time = 12\<rparr>, birth = 0, lifetime = 30\<rparr>"
  have r: "run_loop \<lparr>width = 80, height = 24\<rparr> SIMPLE
        [\<lparr>busy = True, now = 1 / 10, rnd = (\<lambda>n. 0), pending_event = None, lib_error = None\<rparr>]
        \<lparr>frame = 1, beat_count = 0, active_explosions = [?e],
          last_beat_time = 0, last_sub_beat = 0, current_scheme_idx = 0, intensity = 1 / 2,
          running = True\<rparr>
      = Running \<lparr>frame = 2, beat_count = 0, active_explosions = [?e],
          last_beat_time = 0, last_sub_beat = 0, current_scheme_idx = 0, intensity = 1 / 2,
          running = True\<rparr>"
    by (simp add: frame_step_quiet)
  show ?thesis
    using r
      lifetime_window[where e = ?e and exps = "[?e]" and fr = 29
        and scr = "\<lparr>width = 80, height = 24\<rparr>" and mode = SIMPLE
        and inps = "[\<lparr>busy = True, now = 1 / 10, rnd = (\<lambda>n. 0), pending_event = None,
                     lib_error = None\<rparr>]"
        and st = "\<lparr>frame = 1, beat_count = 0, active_explosions = [?e],
          last_beat_time = 0, last_sub_beat = 0, current_scheme_idx = 0, intensity = 1 / 2,
          running = True\<rparr>"
        and st' = "\<lparr>frame = 2, beat_count = 0, active_explosions = [?e],
          last_beat_time = 0, last_sub_beat = 0, current_scheme_idx = 0, intensity = 1 / 2,
          running = True\<rparr>"]
      lifetime_window[where e = ?e and exps = "[?e]" and fr = 30]
    by simp
qed

section \<open>The constructor calls and the first beat\<close>

lemma py_int_nonneg: "0 \<le> r \<Longrightarrow> 0 \<le> py_int r"
  by (simp add: py_int_def)

lemma float_mul_nonneg: "0 \<le> a \<Longrightarrow> 0 \<le> b \<Longrightarrow> 0 \<le> float_mul a b"
  unfolding float_mul_def by (rule float_round_nonneg) simp

lemma float_add_nonneg: "0 \<le> a \<Longrightarrow> 0 \<le> b \<Longrightarrow> 0 \<le> float_add a b"
  unfolding float_add_def by (rule float_round_nonneg) simp

text \<open>
  Every pass through a loop of \<open>create_fireworks\<close> reaches a constructor call with four
  positional arguments after the screen, which raises.
\<close>

lemma fireworks_simple_raises: "fireworks_simple (Suc n) x y acc g = Inl TypeError"
  by (simp add: randint_def)

lemma fireworks_standard_raises: "fireworks_standard (Suc n) x y acc g = Inl TypeError"
  by (simp add: randint_def choice_def)

lemma fireworks_sampled_raises: "fireworks_sampled (ft # fts) x y acc g = Inl TypeError"
  by (simp add: randint_def)

lemma fireworks_insane_raises: "fireworks_insane (Suc n) x y acc g = Inl TypeError"
  by (simp add: randint_def sample_def numeral_2_eq_2 Let_def split_beta)

lemma create_fireworks_raises:
  assumes "0 \<le> i"
  shows "create_fireworks scr x y i mode g = Inl TypeError"
proof -
  have p: "0 \<le> py_int (float_mul i c)" if "0 \<le> c" for c
    using assms that by (intro py_int_nonneg float_mul_nonneg)
  have "0 < nat (min (py_int (float_mul i 3) + 1) 3)" using p[of 3] by simp
  then obtain k3 where k3: "nat (min (py_int (float_mul i 3) + 1) 3) = Suc k3"
    using gr0_implies_Suc by blast
  have "0 < nat (min (py_int (float_mul i 6) + 2) 6)" using p[of 6] by simp
  then obtain k6 where k6: "nat (min (py_int (float_mul i 6) + 2) 6) = Suc k6"
    using gr0_implies_Suc by blast
  have "0 < nat (min (py_int (float_mul i 12) + 3) 12)" using p[of 12] by simp
  then obtain k12 where k12: "nat (min (py_int (float_mul i 12) + 3) 12) = Suc k12"
    using gr0_implies_Suc by blast
  show ?thesis
    unfolding create_fireworks_def k3 k6 k12
    by (simp only: fireworks_simple_raises fireworks_standard_raises fireworks_insane_raises
        if_cancel)
qed

lemma spawn_fireworks_raises:
  assumes "0 \<le> intensity st"
  shows "spawn_fireworks (Suc n) scr mode g st =
     Inl (if width scr < 10 \<or> height scr < 10 then ValueError else TypeError, st)"
  by (simp add: randint_def create_fireworks_raises[OF assms])

lemma vary_intensity_nonneg: "0 \<le> fst (vary_intensity mode g)"
  by (simp add: vary_intensity_def split_beta float_add_nonneg float_mul_nonneg
      float_round_nonneg random_random_nonneg)

text \<open>A beat that fires ends the iteration by an exception, with nothing appended.\<close>

lemma beat_branch_fired:
  assumes "float_sub t (last_beat_time st) \<ge> beat_interval mode"
  shows "beat_branch scr mode t g st =
     Inl (if width scr < 10 \<or> height scr < 10 then ValueError else TypeError,
          beat_state mode t g st)"
proof -
  define st0 where "st0 = beat_state mode t g st"
  define n :: nat where "n = (if mode = SIMPLE then 1 else 3)"
  define g1 where "g1 = snd (vary_intensity mode g)"
  have eq: "beat_branch scr mode t g st =
      (case spawn_fireworks n scr mode g1 st0 of
         Inl err \<Rightarrow> Inl err | Inr (st4, g2) \<Rightarrow> Inr st4)"
    using assms
    by (simp add: beat_branch_def poll_def Let_def split_beta st0_def n_def g1_def beat_state_def)
  obtain m where m: "n = Suc m" by (cases n) (simp_all add: n_def split: if_splits)
  have "intensity st0 = fst (vary_intensity mode g)"
    using assms by (simp add: st0_def beat_state_def)
  then have "0 \<le> intensity st0" by (simp add: vary_intensity_nonneg)
  from spawn_fireworks_raises[OF this] show ?thesis unfolding eq m st0_def by simp
qed

lemma beat_branch_quiet:
  "\<not> (float_sub t (last_beat_time st) \<ge> beat_interval mode) \<Longrightarrow>
   beat_branch scr mode t g st = Inr st"
  by (simp add: beat_branch_def poll_def)

lemma frame_step_fired:
  assumes "float_sub (now inp) (last_beat_time st) \<ge> beat_interval mode"
  shows "frame_step scr mode inp st =
     Inl (if width scr < 10 \<or> height scr < 10 then ValueError else TypeError,
          beat_state mode (now inp) (rnd inp) st)"
  unfolding frame_step_def beat_branch_fired[OF assms] by (simp add: bindE_def)

lemma frame_step_quiet_fields:
  assumes "\<not> (float_sub (now inp) (last_beat_time st) \<ge> beat_interval mode)"
    and "frame_step scr mode inp st = Inr st' \<or> frame_step scr mode inp st = Inl (e, st')"
  shows "beat_count st' = beat_count st"
    and "active_explosions st' = sweep (frame st) (active_explosions st)"
proof -
  have p: "snd (poll mode (now inp) st) = st" using assms(1) by (simp add: poll_def)
  define st2 where "st2 = sub_beat mode (now inp) st"
  define st3 where "st3 = st2\<lparr>active_explosions := sweep (frame st2) (active_explosions st2)\<rparr>"
  have fs: "frame_step scr mode inp st =
      (case lib_error inp of Some e \<Rightarrow> Inl (e, st3)
       | None \<Rightarrow> bindE (check_quit (pending_event inp) st3) (\<lambda>st4. Inr (st4\<lparr>frame := frame st4 + 1\<rparr>)))"
    unfolding st3_def st2_def frame_step_def Let_def beat_branch_quiet[OF assms(1)]
    by (simp add: bindE_def)
  have f3: "beat_count st3 = beat_count st"
    "active_explosions st3 = sweep (frame st) (active_explosions st)"
    by (simp_all add: st3_def st2_def sub_beat_fields)
  have "beat_count st' = beat_count st
      \<and> active_explosions st' = sweep (frame st) (active_explosions st)"
  proof (cases "frame_step scr mode inp st = Inr st'")
    case True
    then have le: "lib_error inp = None" unfolding fs by (cases "lib_error inp") simp_all
    from True obtain st4 where q: "check_quit (pending_event inp) st3 = Inr st4"
      and s': "st' = st4\<lparr>frame := frame st4 + 1\<rparr>"
      unfolding fs le by (cases "check_quit (pending_event inp) st3") (auto simp: bindE_def)
    from check_quit_Inr(2,3)[OF q] s' f3 show ?thesis by simp
  next
    case False
    with assms(2) have a: "frame_step scr mode inp st = Inl (e, st')" by blast
    have "st' = st3"
    proof (cases "lib_error inp")
      case None
      with a have "check_quit (pending_event inp) st3 = Inl (e, st')"
        unfolding fs by (cases "check_quit (pending_event inp) st3") (simp_all add: bindE_def)
      then show ?thesis by (rule check_quit_Inl)
    next
      case (Some x)
      with a show ?thesis unfolding fs by simp
    qed
    with f3 show ?thesis by simp
  qed
  then show "beat_count st' = beat_count st"
    and "active_explosions st' = sweep (frame st) (active_explosions st)" by blast+
qed

text \<open>In a run the list stays empty, and the first beat counted is the last.\<close>

lemma run_loop_first_beat:
  assumes "active_explosions st = []" and "beat_count st = 0"
  shows "active_explosions (result_state (run_loop scr mode inps st)) = []
     \<and> (case run_loop scr mode inps st of
           Raised e st' \<Rightarrow> beat_count st' = 0 \<or> beat_count st' = 1
         | Finished st' \<Rightarrow> beat_count st' = 0
         | Running st' \<Rightarrow> beat_count st' = 0)"
  using assms
proof (induction inps arbitrary: st)
  case Nil
  then show ?case by (simp add: result_state_simps)
next
  case (Cons inp inps)
  show ?case
  proof (cases "running st \<and> busy inp")
    case False
    from run_loop_stop[OF this] Cons.prems show ?thesis by (simp add: result_state_simps)
  next
    case True
    show ?thesis
    proof (cases "float_sub (now inp) (last_beat_time st) \<ge> beat_interval mode")
      case fired: True
      have "beat_count (beat_state mode (now inp) (rnd inp) st) = beat_count st + 1"
        using fired by (simp add: beat_state_fields poll_def)
      with frame_step_fired[OF fired] True Cons.prems
      show ?thesis by (simp add: result_state_simps beat_state_fields)
    next
      case quiet: False
      show ?thesis
      proof (cases "frame_step scr mode inp st")
        case (Inl es)
        obtain e st1 where es: "es = (e, st1)" by (cases es)
        from Inl es have "frame_step scr mode inp st = Inr st1 \<or> frame_step scr mode inp st = Inl (e, st1)"
          by simp
        from frame_step_quiet_fields[OF quiet this] Cons.prems
        have "beat_count st1 = 0" "active_explosions st1 = []" by (simp_all add: sweep_def)
        then show ?thesis using True Inl es by (simp add: result_state_simps)
      next
        case (Inr st1)
        from frame_step_quiet_fields[OF quiet disjI1[OF Inr]] Cons.prems
        have "active_explosions st1 = []" "beat_count st1 = 0" by (simp_all add: sweep_def)
        from Cons.IH[OF this] show ?thesis using True Inr by simp
      qed
    qed
  qed
qed

lemma run_loop_beat_count_mono:
  "beat_count st \<le> beat_count (result_state (run_loop scr mode inps st))"
proof (induction inps arbitrary: st)
  case Nil
  show ?case by (simp add: result_state_simps)
next
  case (Cons inp inps)
  have p: "beat_count st \<le> beat_count (snd (poll mode (now inp) st))"
    by (simp add: poll_def)
  show ?case
  proof (cases "running st \<and> busy inp")
    case False
    from run_loop_stop[OF this] show ?thesis by (simp add: result_state_simps)
  next
    case True
    show ?thesis
    proof (cases "frame_step scr mode inp st")
      case (Inl es)
      obtain e st1 where es: "es = (e, st1)" by (cases es)
      from frame_step_Inl(4)[OF Inl[unfolded es]] p
      show ?thesis using True Inl es by (simp add: result_state_simps)
    next
      case (Inr st1)
      from frame_step_Inr(4)[OF Inr] p Cons.IH[of st1]
      show ?thesis using True Inr by simp
    qed
  qed
qed


lemma first_beat_raises:
  "frame_step \<lparr>width = 80, height = 24\<rparr> SIMPLE (tick 1) (initial_state 0 0)
   = Inl (TypeError,
          \<lparr>frame = 0, beat_count = 1, active_explosions = [], last_beat_time = 1,
           last_sub_beat = 0, current_scheme_idx = 0, intensity = 1 / 2, running = True\<rparr>)"
  by code_simp

text \<open>A stretch of polls between two beats leaves the beat clock as it is.\<close>

lemma polls_quiet:
  "list_all (\<lambda>t. float_sub t (last_beat_time st) < beat_interval mode) ts \<Longrightarrow>
   foldl (\<lambda>s t. snd (poll mode t s)) st ts = st"
  by (induction ts) (simp_all add: poll_def)

lemma polls_segment:
  assumes "list_all (\<lambda>t. float_sub t (last_beat_time st) < beat_interval mode) ts"
    and "float_sub t' (last_beat_time st) \<ge> beat_interval mode"
  shows "foldl (\<lambda>s t. snd (poll mode t s)) st (ts @ [t'])
     = st\<lparr>last_beat_time := t', beat_count := beat_count st + 1\<rparr>"
  using polls_quiet[OF assms(1)] assms(2) by (simp add: poll_def)

text \<open>
  A float reading that comes less than half a second after a beat detected at 0 or at
  a float from 0.5 on is not taken for the next beat: the difference is computed exactly.
\<close>

lemma float_sub_quiet:
  assumes "is_float t" and "is_float l" and "l \<le> t" and "t < l + 1 / 2"
    and "l = 0 \<or> 1 / 2 \<le> l"
  shows "float_sub t l < 1 / 2"
proof (cases "l = 0")
  case True
  then show ?thesis using assms(1,4) by (simp add: float_sub_def is_float_def)
next
  case False
  with assms(5) have "1 / 2 \<le> l" by simp
  with assms(4) have "t \<le> 2 * l" by simp
  from float_sub_exact[OF assms(1,2,3) this] assms(4) show ?thesis by simp
qed

lemma polls_two_seconds:
  assumes "list_all (\<lambda>t. is_float t \<and> 0 \<le> t \<and> t < 1 / 2) a"
    and "list_all (\<lambda>t. is_float t \<and> 1 / 2 \<le> t \<and> t < 1) b"
    and "list_all (\<lambda>t. is_float t \<and> 1 \<le> t \<and> t < 3 / 2) c"
    and "list_all (\<lambda>t. is_float t \<and> 3 / 2 \<le> t \<and> t < 2) d"
  shows "beat_count (foldl (\<lambda>s t. snd (poll SIMPLE t s)) (initial_state 0 t_sub)
            (a @ [1 / 2] @ b @ [1] @ c @ [3 / 2] @ d @ [2])) = 4"
proof -
  define s0 where "s0 = initial_state 0 t_sub"
  define s1 where "s1 = s0\<lparr>last_beat_time := 1 / 2, beat_count := beat_count s0 + 1\<rparr>"
  define s2 where "s2 = s1\<lparr>last_beat_time := 1, beat_count := beat_count s1 + 1\<rparr>"
  define s3 where "s3 = s2\<lparr>last_beat_time := 3 / 2, beat_count := beat_count s2 + 1\<rparr>"
  define s4 where "s4 = s3\<lparr>last_beat_time := 2, beat_count := beat_count s3 + 1\<rparr>"
  have l: "last_beat_time s0 = 0" "last_beat_time s1 = 1 / 2" "last_beat_time s2 = 1"
    "last_beat_time s3 = 3 / 2"
    by (simp_all add: s0_def s1_def s2_def s3_def initial_state_def)
  have fl: "is_float 0" "is_float (1 / 2)" "is_float 1" "is_float (3 / 2)"
    unfolding is_float_def by code_simp+
  have quiet: "list_all (\<lambda>t. float_sub t l < beat_interval SIMPLE) ts"
    if h: "list_all (\<lambda>t. is_float t \<and> l \<le> t \<and> t < l + 1 / 2) ts" "is_float l"
      "l = 0 \<or> 1 / 2 \<le> l"
    for ts l
  proof -
    have "float_sub t l < 1 / 2" if "t \<in> set ts" for t
      using h(1)[unfolded list_all_iff] that float_sub_quiet[of t l] h(2,3) by blast
    then show ?thesis unfolding list_all_iff beat_interval_def by blast
  qed
  have qa: "list_all (\<lambda>t. float_sub t (last_beat_time s0) < beat_interval SIMPLE) a"
    unfolding l by (rule quiet) (use assms(1) fl in simp_all)
  have qb: "list_all (\<lambda>t. float_sub t (last_beat_time s1) < beat_interval SIMPLE) b"
    unfolding l by (rule quiet) (use assms(2) fl in simp_all)
  have qc: "list_all (\<lambda>t. float_sub t (last_beat_time s2) < beat_interval SIMPLE) c"
    unfolding l by (rule quiet) (use assms(3) fl in \<open>simp_all add: add.commute\<close>)
  have qd: "list_all (\<lambda>t. float_sub t (last_beat_time s3) < beat_interval SIMPLE) d"
    unfolding l by (rule quiet) (use assms(4) fl in simp_all)
  have f1: "float_sub (1 / 2) (last_beat_time s0) \<ge> beat_interval SIMPLE"
    unfolding l beat_interval_def by (rule float_sub_ge_half) simp
  have 1: "foldl (\<lambda>s t. snd (poll SIMPLE t s)) s0 (a @ [1 / 2]) = s1"
    unfolding s1_def by (rule polls_segment[OF qa f1])
  have f2: "float_sub (1) (last_beat_time s1) \<ge> beat_interval SIMPLE"
    unfolding l beat_interval_def by (rule float_sub_ge_half) simp
  have 2: "foldl (\<lambda>s t. snd (poll SIMPLE t s)) s1 (b @ [1]) = s2"
    unfolding s2_def by (rule polls_segment[OF qb f2])
  have f3: "float_sub (3 / 2) (last_beat_time s2) \<ge> beat_interval SIMPLE"
    unfolding l beat_interval_def by (rule float_sub_ge_half) simp
  have 3: "foldl (\<lambda>s t. snd (poll SIMPLE t s)) s2 (c @ [3 / 2]) = s3"
    unfolding s3_def by (rule polls_segment[OF qc f3])
  have f4: "float_sub (2) (last_beat_time s3) \<ge> beat_interval SIMPLE"
    unfolding l beat_interval_def by (rule float_sub_ge_half) simp
  have 4: "foldl (\<lambda>s t. snd (poll SIMPLE t s)) s3 (d @ [2]) = s4"
    unfolding s4_def by (rule polls_segment[OF qd f4])
  let ?F = "foldl (\<lambda>s t. snd (poll SIMPLE t s))"
  have "?F s0 (a @ [1 / 2] @ b @ [1] @ c @ [3 / 2] @ d @ [2])
      = ?F (?F s0 (a @ [1 / 2])) (b @ [1] @ c @ [3 / 2] @ d @ [2])" by simp
  also have "\<dots> = ?F (?F s1 (b @ [1])) (c @ [3 / 2] @ d @ [2])" unfolding 1 by simp
  also have "\<dots> = ?F (?F s2 (c @ [3 / 2])) (d @ [2])" unfolding 2 by simp
  also have "\<dots> = s4" unfolding 3 4 ..
  finally have "?F s0 (a @ [1 / 2] @ b @ [1] @ c @ [3 / 2] @ d @ [2]) = s4" .
  moreover have "beat_count s4 = 4"
    by (simp add: s4_def s3_def s2_def s1_def s0_def initial_state_def)
  ultimately show ?thesis unfolding s0_def by simp
qed

lemma polls_every_3_64th:
  "beat_count (foldl (\<lambda>s t. snd (poll SIMPLE t s)) (initial_state 0 0)
      (map (\<lambda>k. of_nat k * (3 / 64)) [1..<43] @ [2])) = 3"
  by code_simp

section \<open>The beat clock\<close>

text \<open>
  Claim C3, as the code has it. A poll of the beat clock at time \<open>now\<close> fires exactly when
  the float difference \<open>now - last_beat_time\<close> is at least \<open>beat_interval\<close>. When it fires,
  \<open>last_beat_time\<close> becomes \<open>now\<close> and \<open>beat_count\<close> grows by exactly one, however many
  intervals have passed; when it does not fire, nothing changes. So a poll never lowers
  \<open>beat_count\<close> and raises it by at most one, an iteration of the loop changes
  \<open>beat_count\<close> as its poll does, whether it completes or is left by an exception, and
  \<open>beat_count\<close> never decreases along a run. In simple mode the interval is half a
  second. How many beats the clock counts in 2.0 seconds depends on when the polls fall,
  because a beat that is detected late delays the next one. With the clock started at 0,
  the count after the poll at 2.0 is 4 when a poll falls on each of the instants 0.5,
  1.0, 1.5 and 2.0, whatever readings are polled between them; with a poll every 3/64 of
  a second it is 3.
\<close>

theorem beat_clock:
  "fst (poll mode t st) = (float_sub t (last_beat_time st) \<ge> beat_interval mode)
   \<and> (fst (poll mode t st) \<longrightarrow>
         last_beat_time (snd (poll mode t st)) = t
         \<and> beat_count (snd (poll mode t st)) = beat_count st + 1)
   \<and> (\<not> fst (poll mode t st) \<longrightarrow> snd (poll mode t st) = st)
   \<and> beat_count st \<le> beat_count (snd (poll mode t st))
   \<and> beat_count (snd (poll mode t st)) \<le> beat_count st + 1
   \<and> (frame_step scr mode inp st = Inr st' \<or> frame_step scr mode inp st = Inl (e, st') \<longrightarrow>
         beat_count st' = beat_count (snd (poll mode (now inp) st)))
   \<and> beat_count st \<le> beat_count (result_state (run_loop scr mode inps st))
   \<and> beat_interval SIMPLE = 1 / 2
   \<and> (list_all (\<lambda>t. is_float t \<and> 0 \<le> t \<and> t < 1 / 2) a
        \<and> list_all (\<lambda>t. is_float t \<and> 1 / 2 \<le> t \<and> t < 1) b
        \<and> list_all (\<lambda>t. is_float t \<and> 1 \<le> t \<and> t < 3 / 2) c
        \<and> list_all (\<lambda>t. is_float t \<and> 3 / 2 \<le> t \<and> t < 2) d \<longrightarrow>
        beat_count (foldl (\<lambda>s t. snd (poll SIMPLE t s)) (initial_state 0 t_sub)
            (a @ [1 / 2] @ b @ [1] @ c @ [3 / 2] @ d @ [2])) = 4)
   \<and> beat_count (foldl (\<lambda>s t. snd (poll SIMPLE t s)) (initial_state 0 0)
        (map (\<lambda>k. of_nat k * (3 / 64)) [1..<43] @ [2])) = 3"
proof -
  have 1: "fst (poll mode t st) = (float_sub t (last_beat_time st) \<ge> beat_interval mode)"
    by (simp add: poll_def)
  have 2: "fst (poll mode t st) \<longrightarrow>
         last_beat_time (snd (poll mode t st)) = t
         \<and> beat_count (snd (poll mode t st)) = beat_count st + 1"
    by (simp add: poll_def)
  have 3: "\<not> fst (poll mode t st) \<longrightarrow> snd (poll mode t st) = st"
    by (simp add: poll_def)
  have 4: "beat_count st \<le> beat_count (snd (poll mode t st))"
    "beat_count (snd (poll mode t st)) \<le> beat_count st + 1"
    by (simp_all add: poll_def)
  have 5: "frame_step scr mode inp st = Inr st' \<or> frame_step scr mode inp st = Inl (e, st') \<longrightarrow>
         beat_count st' = beat_count (snd (poll mode (now inp) st))"
    using frame_step_Inr(4) frame_step_Inl(4) by blast
  have 6: "beat_count st \<le> beat_count (result_state (run_loop scr mode inps st))"
    by (rule run_loop_beat_count_mono)
  have 7: "beat_interval SIMPLE = 1 / 2" by (simp add: beat_interval_def)
  have 8: "list_all (\<lambda>t. is_float t \<and> 0 \<le> t \<and> t < 1 / 2) a
        \<and> list_all (\<lambda>t. is_float t \<and> 1 / 2 \<le> t \<and> t < 1) b
        \<and> list_all (\<lambda>t. is_float t \<and> 1 \<le> t \<and> t < 3 / 2) c
        \<and> list_all (\<lambda>t. is_float t \<and> 3 / 2 \<le> t \<and> t < 2) d \<longrightarrow>
        beat_count (foldl (\<lambda>s t. snd (poll SIMPLE t s)) (initial_state 0 t_sub)
            (a @ [1 / 2] @ b @ [1] @ c @ [3 / 2] @ d @ [2])) = 4"
    using polls_two_seconds by blast
  from 1 2 3 4 5 6 7 8 polls_every_3_64th show ?thesis by blast
qed

text \<open>
  The theorem at a poll that fires after four intervals, at a poll that does not fire, at
  the iteration of the first beat on a screen of 80 by 24, and at polls that fall on the
  four instants with other readings between them.
\<close>

theorem beat_clock_witness:
  "fst (poll SIMPLE 2 (initial_state 0 0))
   \<and> last_beat_time (snd (poll SIMPLE 2 (initial_state 0 0))) = 2
   \<and> beat_count (snd (poll SIMPLE 2 (initial_state 0 0))) = 1
   \<and> \<not> fst (poll SIMPLE (1 / 4) (initial_state 0 0))
   \<and> snd (poll SIMPLE (1 / 4) (initial_state 0 0)) = initial_state 0 0
   \<and> frame_step \<lparr>width = 80, height = 24\<rparr> SIMPLE (tick 1) (initial_state 0 0)
       = Inl (TypeError,
              \<lparr>frame = 0, beat_count = 1, active_explosions = [], last_beat_time = 1,
               last_sub_beat = 0, current_scheme_idx = 0, intensity = 1 / 2, running = True\<rparr>)
   \<and> beat_count (snd (poll SIMPLE (now (tick 1)) (initial_state 0 0))) = 1
   \<and> list_all (\<lambda>t. is_float t \<and> 0 \<le> t \<and> t < 1 / 2) [float_round (1 / 10), 1 / 4, float_round (49 / 100)]
   \<and> list_all (\<lambda>t. is_float t \<and> 1 / 2 \<le> t \<and> t < 1) [float_round (6 / 10), 3 / 4]
   \<and> list_all (\<lambda>t. is_float t \<and> 1 \<le> t \<and> t < 3 / 2) []
   \<and> list_all (\<lambda>t. is_float t \<and> 3 / 2 \<le> t \<and> t < 2) [float_round (199 / 100)]
   \<and> beat_count (foldl (\<lambda>s t. snd (poll SIMPLE t s)) (initial_state 0 0)
        ([float_round (1 / 10), 1 / 4, float_round (49 / 100)] @ [1 / 2]
           @ [float_round (6 / 10), 3 / 4] @ [1] @ [] @ [3 / 2]
           @ [float_round (199 / 100)] @ [2])) = 4"
proof -
  let ?st1 = "\<lparr>frame = 0, beat_count = 1, active_explosions = [], last_beat_time = 1,
               last_sub_beat = 0, current_scheme_idx = 0, intensity = 1 / 2, running = True\<rparr>"
  note t1 = beat_clock[where mode = SIMPLE and t = 2 and st = "initial_state 0 0"]
  note t2 = beat_clock[where mode = SIMPLE and t = "1 / 4" and st = "initial_state 0 0"]
  note t3 = beat_clock[where mode = SIMPLE and scr = "\<lparr>width = 80, height = 24\<rparr>"
      and inp = "tick 1" and st = "initial_state 0 0" and st' = ?st1 and e = TypeError
      and a = "[float_round (1 / 10), 1 / 4, float_round (49 / 100)]"
      and b = "[float_round (6 / 10), 3 / 4]" and c = "[]" and d = "[float_round (199 / 100)]"
      and t_sub = 0]
  have h1: "fst (poll SIMPLE 2 (initial_state 0 0))" by code_simp
  have h2: "\<not> fst (poll SIMPLE (1 / 4) (initial_state 0 0))" by code_simp
  have h3: "frame_step \<lparr>width = 80, height = 24\<rparr> SIMPLE (tick 1) (initial_state 0 0)
       = Inl (TypeError, ?st1)"
    by (rule first_beat_raises)
  have ha: "list_all (\<lambda>t. is_float t \<and> 0 \<le> t \<and> t < 1 / 2) [float_round (1 / 10), 1 / 4, float_round (49 / 100)]"
    by code_simp
  have hb: "list_all (\<lambda>t. is_float t \<and> 1 / 2 \<le> t \<and> t < 1) [float_round (6 / 10), 3 / 4]"
    by code_simp
  have hc: "list_all (\<lambda>t. is_float t \<and> 1 \<le> t \<and> t < 3 / 2) []" by simp
  have hd: "list_all (\<lambda>t. is_float t \<and> 3 / 2 \<le> t \<and> t < 2) [float_round (199 / 100)]"
    by code_simp
  from t1 h1 have c1: "last_beat_time (snd (poll SIMPLE 2 (initial_state 0 0))) = 2
   \<and> beat_count (snd (poll SIMPLE 2 (initial_state 0 0))) = beat_count (initial_state 0 0) + 1"
    by blast
  from t2 h2 have c2: "snd (poll SIMPLE (1 / 4) (initial_state 0 0)) = initial_state 0 0" by blast
  from t3 h3 have "beat_count ?st1 = beat_count (snd (poll SIMPLE (now (tick 1)) (initial_state 0 0)))"
    by blast
  then have c3: "beat_count (snd (poll SIMPLE (now (tick 1)) (initial_state 0 0))) = 1" by simp
  from t3 ha hb hc hd
  have c4: "beat_count (foldl (\<lambda>s t. snd (poll SIMPLE t s)) (initial_state 0 0)
        ([float_round (1 / 10), 1 / 4, float_round (49 / 100)] @ [1 / 2]
           @ [float_round (6 / 10), 3 / 4] @ [1] @ [] @ [3 / 2]
           @ [float_round (199 / 100)] @ [2])) = 4"
    by blast
  have bc0: "beat_count (initial_state 0 0) = 0" by (simp add: initial_state_def)
  from h1 c1 h2 c2 h3 c3 ha hb hc hd c4 bc0 show ?thesis by simp
qed

text \<open>
  The claim as stated has \<open>beat_count\<close> equal 4 after 2.0 seconds in simple mode whenever
  no poll is missed. With a poll every 3/64 of a second from the start of the clock, and
  one more at 2.0 seconds, the beats are detected at 0.515625, 1.03125 and 1.546875, and
  the count at 2.0 seconds is 3.
\<close>

theorem beat_clock_drift_counterexample:
  "beat_interval SIMPLE = 1 / 2
   \<and> beat_count (initial_state 0 0) = 0
   \<and> beat_count (foldl (\<lambda>s t. snd (poll SIMPLE t s)) (initial_state 0 0)
        (map (\<lambda>k. of_nat k * (3 / 64)) [1..<43] @ [2])) = 3
   \<and> last_beat_time (foldl (\<lambda>s t. snd (poll SIMPLE t s)) (initial_state 0 0)
        (map (\<lambda>k. of_nat k * (3 / 64)) [1..<43] @ [2])) = 99 / 64"
  by code_simp

lemma eval_names_working:
  "eval_names working_namespace working_firework_types = Inl NameError"
  by (simp add: working_namespace_def working_firework_types_def lookup_name_def)

lemma working_spawn_raises:
  "working_spawn (Suc n) scr g st =
     Inl (if width scr < 10 \<or> height scr < 10 then ValueError else NameError, st)"
  by (simp add: randint_def eval_names_working)

lemma scheme_step:
  fixes c :: int
  assumes "0 < p"
  shows "(c + 1) mod p = 0 \<Longrightarrow> (c + 1) div p = c div p + 1"
    and "(c + 1) mod p \<noteq> 0 \<Longrightarrow> (c + 1) div p = c div p"
proof -
  define q where "q = (c + 1) div p"
  define r where "r = (c + 1) mod p"
  have dm: "c + 1 = p * q + r" by (simp add: q_def r_def)
  have r: "0 \<le> r" "r < p" using assms by (simp_all add: r_def)
  {
    assume "(c + 1) mod p = 0"
    then have "c = p * (q - 1) + (p - 1)" using dm by (simp add: r_def algebra_simps)
    then have "c div p = q - 1"
      using assms by (intro int_div_pos_eq[where r = "p - 1"]) simp_all
    then show "(c + 1) div p = c div p + 1" by (simp add: q_def)
  }
  {
    assume "(c + 1) mod p \<noteq> 0"
    then have "0 < r" using r by (simp add: r_def)
    have "c = p * q + (r - 1)" using dm by simp
    then have "c div p = q"
      using r \<open>0 < r\<close> by (intro int_div_pos_eq[where r = "r - 1"]) simp_all
    then show "(c + 1) div p = c div p" by (simp add: q_def)
  }
qed

lemma rotation_period_pos: "0 < rotation_period mode"
  by (simp add: rotation_period_def)

text \<open>The scheme index as a function of the beat count.\<close>

lemma rotate_after_poll:
  assumes "current_scheme_idx st = (beat_count st div rotation_period mode) mod 4"
    and "fst (poll mode t st)"
  shows "current_scheme_idx (rotate_scheme mode (snd (poll mode t st)))
     = (beat_count (snd (poll mode t st)) div rotation_period mode) mod 4"
proof -
  have bc: "beat_count (snd (poll mode t st)) = beat_count st + 1"
    and ci: "current_scheme_idx (snd (poll mode t st)) = current_scheme_idx st"
    using assms(2) by (simp_all add: poll_def split: if_splits)
  note ss = scheme_step[OF rotation_period_pos, where c = "beat_count st" and mode1 = mode]
  show ?thesis
  proof (cases "(beat_count st + 1) mod rotation_period mode = 0")
    case True
    then have "current_scheme_idx (rotate_scheme mode (snd (poll mode t st)))
        = (current_scheme_idx st + 1) mod 4"
      by (simp add: rotate_scheme_def bc ci color_schemes_def)
    also have "\<dots> = (beat_count st div rotation_period mode + 1) mod 4"
      unfolding assms(1) by (simp add: mod_add_left_eq)
    finally show ?thesis using ss(1)[OF True] by (simp add: bc)
  next
    case False
    then have "current_scheme_idx (rotate_scheme mode (snd (poll mode t st)))
        = current_scheme_idx st"
      by (simp add: rotate_scheme_def bc ci)
    then show ?thesis using ss(2)[OF False] assms(1) by (simp add: bc)
  qed
qed

lemma run_loop_scheme:
  assumes "current_scheme_idx st = (beat_count st div rotation_period mode) mod 4"
  shows "current_scheme_idx (result_state (run_loop scr mode inps st))
     = (beat_count (result_state (run_loop scr mode inps st)) div rotation_period mode) mod 4"
  using assms
proof (induction inps arbitrary: st)
  case Nil
  then show ?case by (simp add: result_state_simps)
next
  case (Cons inp inps)
  have step: "current_scheme_idx st' = (beat_count st' div rotation_period mode) mod 4"
    if "beat_count st' = beat_count (snd (poll mode (now inp) st))"
      and "current_scheme_idx st' =
        (if fst (poll mode (now inp) st)
         then current_scheme_idx (rotate_scheme mode (snd (poll mode (now inp) st)))
         else current_scheme_idx st)" for st'
  proof (cases "fst (poll mode (now inp) st)")
    case True
    from rotate_after_poll[OF Cons.prems True] that True show ?thesis by simp
  next
    case False
    then have "snd (poll mode (now inp) st) = st" by (simp add: poll_def split: if_splits)
    with that False Cons.prems show ?thesis by simp
  qed
  show ?case
  proof (cases "running st \<and> busy inp")
    case False
    from run_loop_stop[OF this] Cons.prems show ?thesis by (simp add: result_state_simps)
  next
    case True
    show ?thesis
    proof (cases "frame_step scr mode inp st")
      case (Inl es)
      obtain e st1 where es: "es = (e, st1)" by (cases es)
      from step[OF frame_step_Inl(4,5)[OF Inl[unfolded es]]]
      show ?thesis using True Inl es by (simp add: result_state_simps)
    next
      case (Inr st1)
      from Cons.IH[OF step[OF frame_step_Inr(4,6)[OF Inr]]]
      show ?thesis using True Inr by simp
    qed
  qed
qed


lemma working_num_fireworks:
  assumes "0 \<le> u"
  shows "4 \<le> py_int (float_mul (float_add (float_round (8 / 10)) (float_mul u (float_round (2 / 10)))) 12)"
proof -
  define i where "i = float_add (float_round (8 / 10)) (float_mul u (float_round (2 / 10)))"
  have a: "1 / 2 \<le> float_round (8 / 10)" by (rule float_round_ge_half) simp
  have b: "0 \<le> float_mul u (float_round (2 / 10))"
    using assms by (intro float_mul_nonneg float_round_nonneg) simp_all
  have i: "1 / 2 \<le> i" unfolding i_def float_add_def
    using a b by (intro float_round_ge_half) simp
  have "(2::rat) powi 2 \<le> i * 12" using i by simp
  from float_round_ge_pow2[OF this] have "4 \<le> float_mul i 12" by (simp add: float_mul_def)
  then have "4 \<le> \<lfloor>float_mul i 12\<rfloor>" "0 \<le> float_mul i 12" by (simp_all add: le_floor_iff)
  then show ?thesis unfolding i_def[symmetric] by (simp add: py_int_def)
qed

lemma working_beat_fired:
  assumes "float_sub t (last_beat_time st) \<ge> 1 / 2"
  shows "working_beat scr t g st =
     Inl (if width scr < 10 \<or> height scr < 10 then ValueError else NameError,
          working_beat_state t g st)"
proof -
  define st3 where "st3 = working_beat_state t g st"
  have i: "intensity st3 =
      float_add (float_round (8 / 10)) (float_mul (fst (random_random g)) (float_round (2 / 10)))"
    by (simp add: st3_def working_beat_state_def Let_def)
  have "0 < nat (py_int (float_mul (intensity st3) 12))"
    using working_num_fireworks[OF random_random_nonneg, of g] unfolding i by simp
  then obtain k where k: "nat (py_int (float_mul (intensity st3) 12)) = Suc k"
    using gr0_implies_Suc by blast
  have "working_beat scr t g st =
      (case working_spawn (nat (py_int (float_mul (intensity st3) 12))) scr (snd (random_random g)) st3 of
         Inl err \<Rightarrow> Inl err | Inr (st4, g2) \<Rightarrow> Inr st4)"
    using assms
    by (simp add: working_beat_def st3_def working_beat_state_def Let_def split_beta)
  also have "\<dots> = Inl (if width scr < 10 \<or> height scr < 10 then ValueError else NameError, st3)"
    unfolding k working_spawn_raises by simp
  finally show ?thesis unfolding st3_def .
qed

lemma working_beat_quiet:
  "\<not> (float_sub t (last_beat_time st) \<ge> 1 / 2) \<Longrightarrow> working_beat scr t g st = Inr st"
  by (simp add: working_beat_def)

lemma working_beat_state_fields:
  "frame (working_beat_state t g st) = frame st"
  "active_explosions (working_beat_state t g st) = active_explosions st"
  "beat_count (working_beat_state t g st) = beat_count st + 1"
  "running (working_beat_state t g st) = running st"
  "current_scheme_idx (working_beat_state t g st) =
     (if (beat_count st + 1) mod 4 = 0 then (current_scheme_idx st + 1) mod 4
      else current_scheme_idx st)"
  by (simp_all add: working_beat_state_def Let_def color_schemes_def)

lemma frame_step_sixteenth:
  "frame_step \<lparr>width = 80, height = 24\<rparr> SIMPLE (tick 8)
         ((initial_state (15 / 2) 0)\<lparr>beat_count := 15, frame := 240\<rparr>)
   = Inl (TypeError,
          \<lparr>frame = 240, beat_count = 16, active_explosions = [],
           last_beat_time = 8, last_sub_beat = 0, current_scheme_idx = 1, intensity = 1 / 2,
           running = True\<rparr>)"
  by code_simp

section \<open>The rotation of the colour scheme\<close>

text \<open>
  Claim C4, as the code has it. In the unified visualizer the rotation period is 16
  beats in simple mode and 8 beats in standard and insane mode, and there are four
  schemes. An iteration changes the scheme index only when its beat fires and the new
  beat count is a multiple of the rotation period of the mode, and then to
  \<open>(i + 1) mod 4\<close>; so in every state of a run the index is the number of completed
  periods modulo 4. The beat branch of the working script, which has no modes, does
  the same with period 4.
\<close>

theorem scheme_rotation:
  "rotation_period SIMPLE = 16 \<and> rotation_period STANDARD = 8 \<and> rotation_period INSANE = 8
   \<and> length color_schemes = 4
   \<and> (frame_step scr mode inp st = Inr st' \<or> frame_step scr mode inp st = Inl (e, st') \<longrightarrow>
        current_scheme_idx st' =
          (if fst (poll mode (now inp) st) \<and> beat_count st' mod rotation_period mode = 0
           then (current_scheme_idx st + 1) mod int (length color_schemes)
           else current_scheme_idx st))
   \<and> current_scheme_idx (result_state (run_loop scr mode inps (initial_state t_beat t_sub)))
        = (beat_count (result_state (run_loop scr mode inps (initial_state t_beat t_sub)))
             div rotation_period mode) mod 4
   \<and> (working_beat scr t g st = Inr st' \<or> working_beat scr t g st = Inl (e, st') \<longrightarrow>
        current_scheme_idx st' =
          (if float_sub t (last_beat_time st) \<ge> 1 / 2 \<and> beat_count st' mod 4 = 0
           then (current_scheme_idx st + 1) mod int (length color_schemes)
           else current_scheme_idx st))"
proof -
  have 1: "rotation_period SIMPLE = 16 \<and> rotation_period STANDARD = 8 \<and> rotation_period INSANE = 8"
    by (simp add: rotation_period_def)
  have 2: "length color_schemes = 4" by (simp add: color_schemes_def)
  have 3: "current_scheme_idx st' =
          (if fst (poll mode (now inp) st) \<and> beat_count st' mod rotation_period mode = 0
           then (current_scheme_idx st + 1) mod int (length color_schemes)
           else current_scheme_idx st)"
    if "frame_step scr mode inp st = Inr st' \<or> frame_step scr mode inp st = Inl (e, st')"
  proof -
    have "beat_count st' = beat_count (snd (poll mode (now inp) st))
      \<and> current_scheme_idx st' =
        (if fst (poll mode (now inp) st)
         then current_scheme_idx (rotate_scheme mode (snd (poll mode (now inp) st)))
         else current_scheme_idx st)"
    proof (cases "frame_step scr mode inp st = Inr st'")
      case True
      from frame_step_Inr(4,6)[OF True] show ?thesis by blast
    next
      case False
      with that have "frame_step scr mode inp st = Inl (e, st')" by blast
      from frame_step_Inl(4,5)[OF this] show ?thesis by blast
    qed
    then have bc: "beat_count st' = beat_count (snd (poll mode (now inp) st))"
      and ci: "current_scheme_idx st' =
        (if fst (poll mode (now inp) st)
         then current_scheme_idx (rotate_scheme mode (snd (poll mode (now inp) st)))
         else current_scheme_idx st)" by blast+
    have "current_scheme_idx (snd (poll mode (now inp) st)) = current_scheme_idx st"
      by (simp add: poll_def)
    then show ?thesis unfolding ci bc by (simp add: rotate_scheme_def)
  qed
  have "current_scheme_idx (initial_state t_beat t_sub)
      = (beat_count (initial_state t_beat t_sub) div rotation_period mode) mod 4"
    by (simp add: initial_state_def)
  note 4 = run_loop_scheme[OF this]
  have 5: "current_scheme_idx st' =
          (if float_sub t (last_beat_time st) \<ge> 1 / 2 \<and> beat_count st' mod 4 = 0
           then (current_scheme_idx st + 1) mod int (length color_schemes)
           else current_scheme_idx st)"
    if "working_beat scr t g st = Inr st' \<or> working_beat scr t g st = Inl (e, st')"
  proof (cases "float_sub t (last_beat_time st) \<ge> 1 / 2")
    case True
    from that have "st' = working_beat_state t g st"
      unfolding working_beat_fired[OF True] by auto
    then show ?thesis using True by (simp add: working_beat_state_fields 2)
  next
    case False
    from that have "st' = st" unfolding working_beat_quiet[OF False] by auto
    then show ?thesis using False by simp
  qed
  from 1 2 3 4 5 show ?thesis by blast
qed

text \<open>
  The theorem at the sixteenth beat of simple mode, whose iteration rotates the scheme and
  is then left by TypeError, and at the fourth beat of the working script.
\<close>

theorem scheme_rotation_witness:
  "frame_step \<lparr>width = 80, height = 24\<rparr> SIMPLE (tick 8)
         ((initial_state (15 / 2) 0)\<lparr>beat_count := 15, frame := 240\<rparr>)
   = Inl (TypeError,
          \<lparr>frame = 240, beat_count = 16, active_explosions = [],
           last_beat_time = 8, last_sub_beat = 0, current_scheme_idx = 1, intensity = 1 / 2,
           running = True\<rparr>)
   \<and> fst (poll SIMPLE (now (tick 8)) ((initial_state (15 / 2) 0)\<lparr>beat_count := 15, frame := 240\<rparr>))
   \<and> (16::int) mod rotation_period SIMPLE = 0
   \<and> (1::int) = (current_scheme_idx ((initial_state (15 / 2) 0)\<lparr>beat_count := 15, frame := 240\<rparr>) + 1)
                   mod int (length color_schemes)
   \<and> working_beat \<lparr>width = 80, height = 24\<rparr> 2 (\<lambda>n. 0) ((initial_state (3 / 2) 0)\<lparr>beat_count := 3\<rparr>)
       = Inl (NameError, working_beat_state 2 (\<lambda>n. 0) ((initial_state (3 / 2) 0)\<lparr>beat_count := 3\<rparr>))
   \<and> beat_count (working_beat_state 2 (\<lambda>n. 0) ((initial_state (3 / 2) 0)\<lparr>beat_count := 3\<rparr>)) = 4
   \<and> current_scheme_idx (working_beat_state 2 (\<lambda>n. 0) ((initial_state (3 / 2) 0)\<lparr>beat_count := 3\<rparr>))
       = (current_scheme_idx ((initial_state (3 / 2) 0)\<lparr>beat_count := 3\<rparr>) + 1)
           mod int (length color_schemes)"
proof -
  let ?s15 = "(initial_state (15 / 2) 0)\<lparr>beat_count := 15, frame := 240\<rparr>"
  let ?s16 = "\<lparr>frame = 240, beat_count = 16, active_explosions = [],
        last_beat_time = 8, last_sub_beat = 0, current_scheme_idx = 1, intensity = 1 / 2,
        running = True\<rparr>"
  let ?w3 = "(initial_state (3 / 2) 0)\<lparr>beat_count := 3\<rparr>"
  have f: "frame_step \<lparr>width = 80, height = 24\<rparr> SIMPLE (tick 8) ?s15 = Inl (TypeError, ?s16)"
    by (rule frame_step_sixteenth)
  have p: "fst (poll SIMPLE (now (tick 8)) ?s15)"
    by code_simp
  have w: "working_beat \<lparr>width = 80, height = 24\<rparr> 2 (\<lambda>n. 0) ?w3
       = Inl (NameError, working_beat_state 2 (\<lambda>n. 0) ?w3)"
    using working_beat_fired[where t = 2 and st = ?w3 and scr = "\<lparr>width = 80, height = 24\<rparr>"
        and g = "\<lambda>n. 0"] float_sub_ge_half[where a = 2 and b = "3 / 2"]
    by (simp add: initial_state_def)
  have wl: "float_sub 2 (last_beat_time ?w3) \<ge> 1 / 2"
    using float_sub_ge_half[where a = 2 and b = "3 / 2"] by (simp add: initial_state_def)
  have wb: "beat_count (working_beat_state 2 (\<lambda>n. 0) ?w3) = 4"
    by (simp add: working_beat_state_fields initial_state_def)
  note t1 = scheme_rotation[where scr = "\<lparr>width = 80, height = 24\<rparr>" and mode = SIMPLE
      and inp = "tick 8" and st = ?s15 and st' = ?s16 and e = TypeError
      and inps = "[]" and t_beat = 0 and t_sub = 0 and t = 0 and g = "\<lambda>n. 0"]
  note t2 = scheme_rotation[where scr = "\<lparr>width = 80, height = 24\<rparr>" and t = 2
      and g = "\<lambda>n. 0" and st = ?w3 and st' = "working_beat_state 2 (\<lambda>n. 0) ?w3"
      and e = NameError and inps = "[]" and t_beat = 0 and t_sub = 0
      and mode = SIMPLE and inp = "tick 8"]
  have r: "(16::int) mod rotation_period SIMPLE = 0" using t1 by simp
  from t1 f have "current_scheme_idx ?s16 =
          (if fst (poll SIMPLE (now (tick 8)) ?s15) \<and> beat_count ?s16 mod rotation_period SIMPLE = 0
           then (current_scheme_idx ?s15 + 1) mod int (length color_schemes)
           else current_scheme_idx ?s15)" by blast
  then have c1: "current_scheme_idx ?s16
      = (current_scheme_idx ?s15 + 1) mod int (length color_schemes)"
    using p r by simp
  from t2 w have "current_scheme_idx (working_beat_state 2 (\<lambda>n. 0) ?w3) =
          (if float_sub 2 (last_beat_time ?w3) \<ge> 1 / 2
               \<and> beat_count (working_beat_state 2 (\<lambda>n. 0) ?w3) mod 4 = 0
           then (current_scheme_idx ?w3 + 1) mod int (length color_schemes)
           else current_scheme_idx ?w3)" by blast
  then have c2: "current_scheme_idx (working_beat_state 2 (\<lambda>n. 0) ?w3)
       = (current_scheme_idx ?w3 + 1) mod int (length color_schemes)"
    using wl wb by simp
  have c1': "(1::int) = (current_scheme_idx ?s15 + 1) mod int (length color_schemes)"
    using c1 by simp
  from f p r c1' w wb c2 show ?thesis by blast
qed

text \<open>
  The claim as stated gives the period as 4 or 8 depending on the mode. In simple mode
  it is neither: the eighth beat fires, the count becomes 8, and the index stays.
\<close>

theorem rotation_period_counterexample:
  "rotation_period SIMPLE \<noteq> 4 \<and> rotation_period SIMPLE \<noteq> 8
   \<and> fst (poll SIMPLE 4 ((initial_state (7 / 2) 0)\<lparr>beat_count := 7\<rparr>))
   \<and> beat_count (snd (poll SIMPLE 4 ((initial_state (7 / 2) 0)\<lparr>beat_count := 7\<rparr>))) = 8
   \<and> current_scheme_idx
        (rotate_scheme SIMPLE (snd (poll SIMPLE 4 ((initial_state (7 / 2) 0)\<lparr>beat_count := 7\<rparr>))))
       = current_scheme_idx ((initial_state (7 / 2) 0)\<lparr>beat_count := 7\<rparr>)"
  by code_simp

lemma parse_args_Inr:
  assumes "parse_args c = Inr (f, m)"
  shows "audio_file_arg c = Some f" and "m \<in> set mode_choices"
    and "mode_arg c = None \<and> m = ''standard'' \<or> mode_arg c = Some m"
  using assms
  by (auto simp: parse_args_def mode_choices_def split: option.splits if_splits)

lemma VisualizerMode_of_choices:
  "m \<in> set mode_choices \<Longrightarrow> \<exists>mode. VisualizerMode_of m = Inr mode"
  by (auto simp: mode_choices_def VisualizerMode_of_def)

lemma main_missing_file:
  assumes "parse_args c = Inr (f, m)" and "\<not> path_exists f"
  shows "main c path_exists scr t_beat t_sub inps
     = \<lparr>trace = [Print (NotFound f)], exit_status = Some 1\<rparr>"
proof -
  obtain mode where "VisualizerMode_of m = Inr mode"
    using VisualizerMode_of_choices[OF parse_args_Inr(2)[OF assms(1)]] by blast
  then show ?thesis using assms by (simp add: main_def)
qed

lemma main_usage_error:
  assumes "parse_args c = Inl msg"
  shows "main c path_exists scr t_beat t_sub inps
     = \<lparr>trace = [Print UsageError], exit_status = Some 2\<rparr>"
proof -
  from assms have "msg = UsageError"
    by (auto simp: parse_args_def split: option.splits if_splits)
  with assms show ?thesis by (simp add: main_def)
qed

section \<open>Start-up validation\<close>

text \<open>
  Claim C5. When the path given as \<open>audio_file\<close> does not exist, the unified script
  prints an error message and exits with a non-zero status without opening the screen,
  starting the audio or showing a frame: with an accepted mode the message is the
  not-found error and the status 1, and with a rejected mode the parser has already
  printed its usage error and exited with status 2. The scripts without a parser
  (simple and queue-driven) print the not-found error and exit with status 1 before
  \<open>Screen.wrapper\<close> is called.
\<close>

theorem missing_audio_file:
  "(audio_file_arg c = Some f \<and> \<not> path_exists f \<longrightarrow>
      (main c path_exists scr t_beat t_sub inps
         = \<lparr>trace = [Print (NotFound f)], exit_status = Some 1\<rparr>
       \<or> main c path_exists scr t_beat t_sub inps
         = \<lparr>trace = [Print UsageError], exit_status = Some 2\<rparr>)
      \<and> ScreenOpen \<notin> set (trace (main c path_exists scr t_beat t_sub inps))
      \<and> MixerInit \<notin> set (trace (main c path_exists scr t_beat t_sub inps))
      \<and> ShowFrame \<notin> set (trace (main c path_exists scr t_beat t_sub inps)))
   \<and> (audio_file_arg c = Some f \<and> \<not> path_exists f
        \<and> (mode_arg c = None \<or> mode_arg c = Some m \<and> m \<in> set mode_choices) \<longrightarrow>
      main c path_exists scr t_beat t_sub inps
         = \<lparr>trace = [Print (NotFound f)], exit_status = Some 1\<rparr>)
   \<and> (\<not> path_exists (audio_file_of_argv argv) \<longrightarrow>
      main_simple argv path_exists demo_run
         = \<lparr>trace = [Print (NotFound (audio_file_of_argv argv))], exit_status = Some 1\<rparr>
      \<and> main_insane argv path_exists scr qinps
         = \<lparr>trace = [Print (NotFound (audio_file_of_argv argv))], exit_status = Some 1\<rparr>)"
proof -
  have a: "main c path_exists scr t_beat t_sub inps
         = \<lparr>trace = [Print (NotFound f)], exit_status = Some 1\<rparr>
       \<or> main c path_exists scr t_beat t_sub inps
         = \<lparr>trace = [Print UsageError], exit_status = Some 2\<rparr>"
    if h: "audio_file_arg c = Some f" "\<not> path_exists f"
  proof (cases "parse_args c")
    case (Inl msg)
    from main_usage_error[OF this] show ?thesis by blast
  next
    case (Inr fm)
    obtain f' m' where fm: "fm = (f', m')" by (cases fm)
    from parse_args_Inr(1)[OF Inr[unfolded fm]] h(1) have "f' = f" by simp
    with Inr fm have "parse_args c = Inr (f, m')" by simp
    then have "main c path_exists scr t_beat t_sub inps
         = \<lparr>trace = [Print (NotFound f)], exit_status = Some 1\<rparr>"
      using h(2) by (rule main_missing_file)
    then show ?thesis by blast
  qed
  have b: "ScreenOpen \<notin> set (trace (main c path_exists scr t_beat t_sub inps))
      \<and> MixerInit \<notin> set (trace (main c path_exists scr t_beat t_sub inps))
      \<and> ShowFrame \<notin> set (trace (main c path_exists scr t_beat t_sub inps))"
    if h: "audio_file_arg c = Some f" "\<not> path_exists f"
    using a[OF h] by auto
  have c: "main c path_exists scr t_beat t_sub inps
         = \<lparr>trace = [Print (NotFound f)], exit_status = Some 1\<rparr>"
    if h: "audio_file_arg c = Some f" "\<not> path_exists f"
      "mode_arg c = None \<or> mode_arg c = Some m \<and> m \<in> set mode_choices"
  proof -
    from h(1,3) obtain m' where "parse_args c = Inr (f, m')"
      by (auto simp: parse_args_def)
    then show ?thesis using h(2) by (rule main_missing_file)
  qed
  have d: "main_simple argv path_exists demo_run
         = \<lparr>trace = [Print (NotFound (audio_file_of_argv argv))], exit_status = Some 1\<rparr>
      \<and> main_insane argv path_exists scr qinps
         = \<lparr>trace = [Print (NotFound (audio_file_of_argv argv))], exit_status = Some 1\<rparr>"
    if "\<not> path_exists (audio_file_of_argv argv)"
    using that by (simp add: main_simple_def main_insane_def Let_def)
  from a b c d show ?thesis by blast
qed

text \<open>The theorem at a missing file, for the unified and the simplified script.\<close>

theorem missing_audio_file_witness:
  "audio_file_arg \<lparr>audio_file_arg = Some ''missing.wav'', mode_arg = Some ''simple''\<rparr>
     = Some ''missing.wav''
   \<and> \<not> (\<lambda>p. False) ''missing.wav''
   \<and> ''simple'' \<in> set mode_choices
   \<and> main \<lparr>audio_file_arg = Some ''missing.wav'', mode_arg = Some ''simple''\<rparr>
        (\<lambda>p. False) \<lparr>width = 80, height = 24\<rparr> 0 0 [tick 1]
       = \<lparr>trace = [Print (NotFound ''missing.wav'')], exit_status = Some 1\<rparr>
   \<and> audio_file_of_argv [''ascii-beats-simple.py'', ''missing.wav''] = ''missing.wav''
   \<and> main_simple [''ascii-beats-simple.py'', ''missing.wav''] (\<lambda>p. False) ([ShowFrame], Returned)
       = \<lparr>trace = [Print (NotFound ''missing.wav'')], exit_status = Some 1\<rparr>"
proof -
  have m: "''simple'' \<in> set mode_choices" by (simp add: mode_choices_def)
  have a: "audio_file_of_argv [''ascii-beats-simple.py'', ''missing.wav''] = ''missing.wav''"
    by (simp add: audio_file_of_argv_def)
  note t = missing_audio_file[where c = "\<lparr>audio_file_arg = Some ''missing.wav'', mode_arg = Some ''simple''\<rparr>"
      and f = "''missing.wav''" and path_exists = "\<lambda>p. False" and m = "''simple''"
      and scr = "\<lparr>width = 80, height = 24\<rparr>" and t_beat = 0 and t_sub = 0 and inps = "[tick 1]"
      and argv = "[''ascii-beats-simple.py'', ''missing.wav'']"
      and demo_run = "([ShowFrame], Returned)" and qinps = "[]"]
  from t m have 1: "main \<lparr>audio_file_arg = Some ''missing.wav'', mode_arg = Some ''simple''\<rparr>
        (\<lambda>p. False) \<lparr>width = 80, height = 24\<rparr> 0 0 [tick 1]
       = \<lparr>trace = [Print (NotFound ''missing.wav'')], exit_status = Some 1\<rparr>" by simp
  from t have 2: "main_simple [''ascii-beats-simple.py'', ''missing.wav''] (\<lambda>p. False) ([ShowFrame], Returned)
       = \<lparr>trace = [Print (NotFound (audio_file_of_argv [''ascii-beats-simple.py'', ''missing.wav'']))],
          exit_status = Some 1\<rparr>" by simp
  show ?thesis using m a 1 2 by simp
qed


text \<open>
  Claim C6. A command line whose \<open>--mode\<close> value is not one of simple, standard and
  insane is rejected by the parser: \<open>main\<close> prints the usage error and exits with status
  2, and the screen is not opened, the audio not started and no frame shown. The
  enumeration has no member for such a value either. Only the three values are
  accepted, and each of them is, and names its mode.
\<close>

theorem unsupported_mode_rejected:
  "mode_choices = [''simple'', ''standard'', ''insane'']
   \<and> (mode_arg c = Some m \<and> m \<notin> {''simple'', ''standard'', ''insane''} \<longrightarrow>
        parse_args c = Inl UsageError
        \<and> main c path_exists scr t_beat t_sub inps
             = \<lparr>trace = [Print UsageError], exit_status = Some 2\<rparr>
        \<and> ScreenOpen \<notin> set (trace (main c path_exists scr t_beat t_sub inps))
        \<and> MixerInit \<notin> set (trace (main c path_exists scr t_beat t_sub inps))
        \<and> ShowFrame \<notin> set (trace (main c path_exists scr t_beat t_sub inps)))
   \<and> (m \<notin> {''simple'', ''standard'', ''insane''} \<longrightarrow> VisualizerMode_of m = Inl ValueError)
   \<and> (parse_args c = Inr (f, m) \<longrightarrow> m \<in> {''simple'', ''standard'', ''insane''})
   \<and> (audio_file_arg c = Some f \<and> mode_arg c = Some m
        \<and> m \<in> {''simple'', ''standard'', ''insane''} \<longrightarrow>
        parse_args c = Inr (f, m) \<and> (\<exists>mode. VisualizerMode_of m = Inr mode \<and> mode_value mode = m))"
proof -
  have 1: "mode_choices = [''simple'', ''standard'', ''insane'']" by (simp add: mode_choices_def)
  have 2: "parse_args c = Inl UsageError
        \<and> main c path_exists scr t_beat t_sub inps
             = \<lparr>trace = [Print UsageError], exit_status = Some 2\<rparr>
        \<and> ScreenOpen \<notin> set (trace (main c path_exists scr t_beat t_sub inps))
        \<and> MixerInit \<notin> set (trace (main c path_exists scr t_beat t_sub inps))
        \<and> ShowFrame \<notin> set (trace (main c path_exists scr t_beat t_sub inps))"
    if h: "mode_arg c = Some m" "m \<notin> {''simple'', ''standard'', ''insane''}"
  proof -
    have p: "parse_args c = Inl UsageError" using h by (simp add: parse_args_def mode_choices_def)
    from main_usage_error[OF p] p show ?thesis by simp
  qed
  have 3: "VisualizerMode_of m = Inl ValueError" if "m \<notin> {''simple'', ''standard'', ''insane''}"
    using that by (simp add: VisualizerMode_of_def)
  have 4: "m \<in> {''simple'', ''standard'', ''insane''}" if "parse_args c = Inr (f, m)"
    using parse_args_Inr(2)[OF that] by (simp add: mode_choices_def)
  have 5: "parse_args c = Inr (f, m) \<and> (\<exists>mode. VisualizerMode_of m = Inr mode \<and> mode_value mode = m)"
    if "audio_file_arg c = Some f" "mode_arg c = Some m" "m \<in> {''simple'', ''standard'', ''insane''}"
    using that by (auto simp: parse_args_def mode_choices_def VisualizerMode_of_def mode_value_def)
  from 1 2 3 4 5 show ?thesis by blast
qed

text \<open>The theorem at the rejected value turbo and the accepted value insane.\<close>

theorem unsupported_mode_rejected_witness:
  "mode_arg \<lparr>audio_file_arg = Some ''song.wav'', mode_arg = Some ''turbo''\<rparr> = Some ''turbo''
   \<and> ''turbo'' \<notin> {''simple'', ''standard'', ''insane''}
   \<and> main \<lparr>audio_file_arg = Some ''song.wav'', mode_arg = Some ''turbo''\<rparr>
        (\<lambda>p. True) \<lparr>width = 80, height = 24\<rparr> 0 0 [tick 1]
       = \<lparr>trace = [Print UsageError], exit_status = Some 2\<rparr>
   \<and> VisualizerMode_of ''turbo'' = Inl ValueError
   \<and> ''insane'' \<in> {''simple'', ''standard'', ''insane''}
   \<and> parse_args \<lparr>audio_file_arg = Some ''song.wav'', mode_arg = Some ''insane''\<rparr>
       = Inr (''song.wav'', ''insane'')
   \<and> VisualizerMode_of ''insane'' = Inr INSANE"
proof -
  have n: "''turbo'' \<notin> {''simple'', ''standard'', ''insane''}" by simp
  note t1 = unsupported_mode_rejected[where c = "\<lparr>audio_file_arg = Some ''song.wav'', mode_arg = Some ''turbo''\<rparr>"
      and m = "''turbo''" and path_exists = "\<lambda>p. True" and scr = "\<lparr>width = 80, height = 24\<rparr>"
      and t_beat = 0 and t_sub = 0 and inps = "[tick 1]" and f = "''song.wav''"]
  note t2 = unsupported_mode_rejected[where c = "\<lparr>audio_file_arg = Some ''song.wav'', mode_arg = Some ''insane''\<rparr>"
      and m = "''insane''" and path_exists = "\<lambda>p. True" and scr = "\<lparr>width = 80, height = 24\<rparr>"
      and t_beat = 0 and t_sub = 0 and inps = "[tick 1]" and f = "''song.wav''"]
  from t1 n have 1: "main \<lparr>audio_file_arg = Some ''song.wav'', mode_arg = Some ''turbo''\<rparr>
        (\<lambda>p. True) \<lparr>width = 80, height = 24\<rparr> 0 0 [tick 1]
       = \<lparr>trace = [Print UsageError], exit_status = Some 2\<rparr>"
    and 2: "VisualizerMode_of ''turbo'' = Inl ValueError" by simp_all
  from t2 have 3: "parse_args \<lparr>audio_file_arg = Some ''song.wav'', mode_arg = Some ''insane''\<rparr>
       = Inr (''song.wav'', ''insane'')" by simp
  have 4: "VisualizerMode_of ''insane'' = Inr INSANE" by (simp add: VisualizerMode_of_def)
  show ?thesis using n 1 2 3 4 by simp
qed

lemma run_loop_lifetimes:
  "list_all (\<lambda>x. lifetime x = tracker_lifetime mode) (active_explosions st) \<Longrightarrow>
   list_all (\<lambda>x. lifetime x = tracker_lifetime mode)
     (active_explosions (result_state (run_loop scr mode inps st)))"
proof (induction inps arbitrary: st)
  case Nil
  then show ?case by (simp add: result_state_simps)
next
  case (Cons inp inps)
  show ?case
  proof (cases "running st \<and> busy inp")
    case False
    from run_loop_stop[OF this] Cons.prems show ?thesis by (simp add: result_state_simps)
  next
    case True
    show ?thesis
    proof (cases "frame_step scr mode inp st")
      case (Inl es)
      obtain e st1 where es: "es = (e, st1)" by (cases es)
      from frame_step_Inl(2)[OF Inl[unfolded es]] Cons.prems
      have "list_all (\<lambda>x. lifetime x = tracker_lifetime mode) (active_explosions st1)"
        by (auto simp: list_all_iff)
      then show ?thesis using True Inl es by (simp add: result_state_simps)
    next
      case (Inr st1)
      from frame_step_Inr(2)[OF Inr] obtain new where
        new: "active_explosions st1 = sweep (frame st) (active_explosions st @ new)"
          "\<forall>x\<in>set new. birth x = frame st \<and> lifetime x = tracker_lifetime mode" by blast
      have "list_all (\<lambda>x. lifetime x = tracker_lifetime mode) (active_explosions st1)"
        using Cons.prems new(2) unfolding new(1) by (auto simp: list_all_iff sweep_set)
      from Cons.IH[OF this] show ?thesis using True Inr by simp
    qed
  qed
qed

text \<open>The guarded append, entry by entry.\<close>

lemma add_explosions_entries:
  "active_explosions (add_explosions mode es st)
     = active_explosions st
       @ map (\<lambda>explosion. \<lparr>effect = explosion, birth = frame st,
                              lifetime = tracker_lifetime mode\<rparr>)
           (take (nat (max_explosions mode - int (length (active_explosions st)))) es)"
proof (induction es arbitrary: st)
  case Nil
  show ?case by simp
next
  case (Cons x es)
  show ?case
  proof (cases "int (length (active_explosions st)) < max_explosions mode")
    case True
    define st1 where "st1 = st\<lparr>active_explosions := active_explosions st @
                  [\<lparr>effect = x, birth = frame st, lifetime = tracker_lifetime mode\<rparr>]\<rparr>"
    have eq: "add_explosions mode (x # es) st = add_explosions mode es st1"
      using True by (simp add: st1_def)
    have n: "nat (max_explosions mode - int (length (active_explosions st)))
        = Suc (nat (max_explosions mode - int (length (active_explosions st1))))"
      using True by (simp add: st1_def)
    show ?thesis unfolding eq Cons.IH[of st1] n by (simp add: st1_def)
  next
    case False
    then have z: "nat (max_explosions mode - int (length (active_explosions st))) = 0" by simp
    have "add_explosions mode (x # es) st = add_explosions mode es st" using False by simp
    then show ?thesis using Cons.IH[of st] z by simp
  qed
qed

lemma first_beat_branch_simple:
  "beat_branch \<lparr>width = 80, height = 24\<rparr> SIMPLE 8 (\<lambda>n. of_nat n) (initial_state (15 / 2) 0)
   = Inl (TypeError,
          \<lparr>frame = 0, beat_count = 1, active_explosions = [], last_beat_time = 8,
           last_sub_beat = 0, current_scheme_idx = 0, intensity = 1 / 2, running = True\<rparr>)"
  by code_simp

lemma add_explosions_example:
  "active_explosions
     (add_explosions SIMPLE
        [\<lparr>cls = RingFirework, pos_x = 5, pos_y = 5, life_time = 12\<rparr>,
         \<lparr>cls = RingFirework, pos_x = 7, pos_y = 6, life_time = 15\<rparr>]
        (initial_state 0 0))
   = [\<lparr>effect = \<lparr>cls = RingFirework, pos_x = 5, pos_y = 5, life_time = 12\<rparr>,
        birth = 0, lifetime = 30\<rparr>,
      \<lparr>effect = \<lparr>cls = RingFirework, pos_x = 7, pos_y = 6, life_time = 15\<rparr>,
        birth = 0, lifetime = 30\<rparr>]"
  by code_simp

section \<open>The lifetime stored by the tracker\<close>

text \<open>
  Claim C9. The beat handler of the unified visualizer appends its entries in the loop
  over \<open>new_explosions\<close>. Every entry that this loop appends is born in the current frame
  and stores the lifetime of the mode, 30 frames in simple mode and 50 in standard and
  insane mode, whatever firework it holds: the life time that \<open>create_fireworks\<close> draws
  for the constructor of the firework is not read. So whatever the beat handler has
  appended when it ends, and every entry of every state of a run, stores that lifetime,
  and two entries that store it and were born on the same frame are kept or dropped
  together by every sweep. This is so for whatever list of fireworks the loop is given.
  In a run of the program it is given none: \<open>create_fireworks\<close> passes a fifth positional
  argument to the constructor, which raises TypeError, and the list of a run stays empty.
\<close>

theorem tracker_lifetime_uniform:
  "tracker_lifetime SIMPLE = 30 \<and> tracker_lifetime STANDARD = 50 \<and> tracker_lifetime INSANE = 50
   \<and> active_explosions (add_explosions mode new_explosions st)
        = active_explosions st
          @ map (\<lambda>explosion. \<lparr>effect = explosion, birth = frame st,
                                 lifetime = tracker_lifetime mode\<rparr>)
              (take (nat (max_explosions mode - int (length (active_explosions st))))
                 new_explosions)
   \<and> (beat_branch scr mode t g st = Inr st' \<or> beat_branch scr mode t g st = Inl (e, st') \<longrightarrow>
        (\<exists>new. active_explosions st' = active_explosions st @ new
           \<and> list_all (\<lambda>x. birth x = frame st \<and> lifetime x = tracker_lifetime mode) new))
   \<and> list_all (\<lambda>x. lifetime x = tracker_lifetime mode)
        (active_explosions (result_state (run_loop scr mode inps (initial_state t_beat t_sub))))
   \<and> (a \<in> set xs \<and> b \<in> set xs
        \<and> lifetime a = tracker_lifetime mode \<and> lifetime b = tracker_lifetime mode
        \<and> birth a = birth b \<longrightarrow>
        (a \<in> set (sweep fr xs) \<longleftrightarrow> b \<in> set (sweep fr xs)))
   \<and> active_explosions (result_state (run_loop scr mode inps (initial_state t_beat t_sub))) = []"
proof -
  have 1: "tracker_lifetime SIMPLE = 30 \<and> tracker_lifetime STANDARD = 50
      \<and> tracker_lifetime INSANE = 50"
    by (simp add: tracker_lifetime_def)
  have 2: "active_explosions (add_explosions mode new_explosions st)
        = active_explosions st
          @ map (\<lambda>explosion. \<lparr>effect = explosion, birth = frame st,
                                 lifetime = tracker_lifetime mode\<rparr>)
              (take (nat (max_explosions mode - int (length (active_explosions st))))
                 new_explosions)"
    by (rule add_explosions_entries)
  have 3: "\<exists>new. active_explosions st' = active_explosions st @ new
           \<and> list_all (\<lambda>x. birth x = frame st \<and> lifetime x = tracker_lifetime mode) new"
    if h: "beat_branch scr mode t g st = Inr st' \<or> beat_branch scr mode t g st = Inl (e, st')"
  proof -
    have "grown mode (beat_state mode t g st) st'"
      using h beat_branch_Inr beat_branch_Inl by blast
    from grownD(8)[OF this] show ?thesis
      by (simp add: beat_state_fields list_all_iff)
  qed
  have i: "active_explosions (initial_state t_beat t_sub) = []"
    "beat_count (initial_state t_beat t_sub) = 0"
    by (simp_all add: initial_state_def)
  have 6: "active_explosions (result_state (run_loop scr mode inps (initial_state t_beat t_sub))) = []"
    using run_loop_first_beat[OF i] by blast
  have "list_all (\<lambda>x. lifetime x = tracker_lifetime mode)
      (active_explosions (initial_state t_beat t_sub))"
    by (simp add: initial_state_def)
  from run_loop_lifetimes[OF this]
  have 4: "list_all (\<lambda>x. lifetime x = tracker_lifetime mode)
      (active_explosions (result_state (run_loop scr mode inps (initial_state t_beat t_sub))))" .
  have 5: "a \<in> set (sweep fr xs) \<longleftrightarrow> b \<in> set (sweep fr xs)"
    if "a \<in> set xs \<and> b \<in> set xs
        \<and> lifetime a = tracker_lifetime mode \<and> lifetime b = tracker_lifetime mode
        \<and> birth a = birth b"
    using that by (simp add: sweep_set)
  from 1 2 3 4 5 6 show ?thesis by blast
qed

text \<open>
  The theorem at the first beat of simple mode on a screen of 80 by 24, and at two
  fireworks with life times 12 and 15 given to the append loop.
\<close>

theorem tracker_lifetime_uniform_witness:
  "beat_branch \<lparr>width = 80, height = 24\<rparr> SIMPLE 8 (\<lambda>n. of_nat n) (initial_state (15 / 2) 0)
   = Inl (TypeError,
          \<lparr>frame = 0, beat_count = 1, active_explosions = [], last_beat_time = 8,
           last_sub_beat = 0, current_scheme_idx = 0, intensity = 1 / 2, running = True\<rparr>)
   \<and> (\<exists>new. [] = active_explosions (initial_state (15 / 2) 0) @ new
         \<and> list_all (\<lambda>x. birth x = frame (initial_state (15 / 2) 0)
                          \<and> lifetime x = tracker_lifetime SIMPLE) new)
   \<and> active_explosions
       (add_explosions SIMPLE
          [\<lparr>cls = RingFirework, pos_x = 5, pos_y = 5, life_time = 12\<rparr>,
           \<lparr>cls = RingFirework, pos_x = 7, pos_y = 6, life_time = 15\<rparr>]
          (initial_state 0 0))
     = [\<lparr>effect = \<lparr>cls = RingFirework, pos_x = 5, pos_y = 5, life_time = 12\<rparr>,
          birth = 0, lifetime = 30\<rparr>,
        \<lparr>effect = \<lparr>cls = RingFirework, pos_x = 7, pos_y = 6, life_time = 15\<rparr>,
          birth = 0, lifetime = 30\<rparr>]
   \<and> lifetime \<lparr>effect = \<lparr>cls = RingFirework, pos_x = 5, pos_y = 5, life_time = 12\<rparr>,
                birth = 0, lifetime = 30\<rparr> = tracker_lifetime SIMPLE
   \<and> lifetime \<lparr>effect = \<lparr>cls = RingFirework, pos_x = 7, pos_y = 6, life_time = 15\<rparr>,
                birth = 0, lifetime = 30\<rparr> = tracker_lifetime SIMPLE
   \<and> (\<lparr>effect = \<lparr>cls = RingFirework, pos_x = 5, pos_y = 5, life_time = 12\<rparr>,
         birth = 0, lifetime = 30\<rparr>
         \<in> set (sweep 30
             [\<lparr>effect = \<lparr>cls = RingFirework, pos_x = 5, pos_y = 5, life_time = 12\<rparr>,
                birth = 0, lifetime = 30\<rparr>,
              \<lparr>effect = \<lparr>cls = RingFirework, pos_x = 7, pos_y = 6, life_time = 15\<rparr>,
                birth = 0, lifetime = 30\<rparr>])
       \<longleftrightarrow> \<lparr>effect = \<lparr>cls = RingFirework, pos_x = 7, pos_y = 6, life_time = 15\<rparr>,
            birth = 0, lifetime = 30\<rparr>
         \<in> set (sweep 30
             [\<lparr>effect = \<lparr>cls = RingFirework, pos_x = 5, pos_y = 5, life_time = 12\<rparr>,
                birth = 0, lifetime = 30\<rparr>,
              \<lparr>effect = \<lparr>cls = RingFirework, pos_x = 7, pos_y = 6, life_time = 15\<rparr>,
                birth = 0, lifetime = 30\<rparr>]))"
proof -
  let ?scr = "\<lparr>width = 80, height = 24\<rparr>"
  let ?f1 = "\<lparr>cls = RingFirework, pos_x = 5, pos_y = 5, life_time = 12\<rparr>"
  let ?f2 = "\<lparr>cls = RingFirework, pos_x = 7, pos_y = 6, life_time = 15\<rparr>"
  let ?a = "\<lparr>effect = ?f1, birth = 0, lifetime = 30\<rparr>"
  let ?b = "\<lparr>effect = ?f2, birth = 0, lifetime = 30\<rparr>"
  let ?st' = "\<lparr>frame = 0, beat_count = 1, active_explosions = [], last_beat_time = 8,
           last_sub_beat = 0, current_scheme_idx = 0, intensity = 1 / 2, running = True\<rparr>"
  note t = tracker_lifetime_uniform[where scr = ?scr and mode = SIMPLE and t = 8
      and g = "\<lambda>n. of_nat n" and st = "initial_state (15 / 2) 0" and st' = ?st' and e = TypeError
      and a = ?a and b = ?b and xs = "[?a, ?b]" and fr = 30]
  note c3 = t[THEN conjunct2, THEN conjunct2, THEN conjunct2, THEN conjunct2, THEN conjunct1]
  note c5 = t[THEN conjunct2, THEN conjunct2, THEN conjunct2, THEN conjunct2, THEN conjunct2,
      THEN conjunct2, THEN conjunct1]
  have ts: "tracker_lifetime SIMPLE = 30" using t by blast
  have bb: "beat_branch ?scr SIMPLE 8 (\<lambda>n. of_nat n) (initial_state (15 / 2) 0) = Inl (TypeError, ?st')"
    by (rule first_beat_branch_simple)
  from c3[THEN mp, OF disjI2[OF bb]]
  have n: "\<exists>new. [] = active_explosions (initial_state (15 / 2) 0) @ new
         \<and> list_all (\<lambda>x. birth x = frame (initial_state (15 / 2) 0)
                          \<and> lifetime x = tracker_lifetime SIMPLE) new"
    by simp
  have la: "lifetime ?a = tracker_lifetime SIMPLE" "lifetime ?b = tracker_lifetime SIMPLE"
    using ts by simp_all
  have m: "?a \<in> set [?a, ?b] \<and> ?b \<in> set [?a, ?b]
      \<and> lifetime ?a = tracker_lifetime SIMPLE \<and> lifetime ?b = tracker_lifetime SIMPLE
      \<and> birth ?a = birth ?b"
    using la by simp
  from c5[THEN mp, OF m]
  have u: "?a \<in> set (sweep 30 [?a, ?b]) \<longleftrightarrow> ?b \<in> set (sweep 30 [?a, ?b])" .
  from bb n add_explosions_example la u
  show ?thesis by (intro conjI)
qed

lemma frame_working_fired:
  assumes "float_sub (now inp) (last_beat_time st) \<ge> 1 / 2"
  shows "frame_working scr inp st =
     Inl (if width scr < 10 \<or> height scr < 10 then ValueError else NameError,
          working_beat_state (now inp) (rnd inp) st)"
  unfolding frame_working_def working_beat_fired[OF assms] by (simp add: bindE_def)

lemma working_sub_beat_fields:
  "frame (working_sub_beat t st) = frame st"
  "active_explosions (working_sub_beat t st) = active_explosions st"
  "beat_count (working_sub_beat t st) = beat_count st"
  "running (working_sub_beat t st) = running st"
  by (simp_all add: working_sub_beat_def)

lemma frame_working_quiet:
  assumes "\<not> (float_sub (now inp) (last_beat_time st) \<ge> 1 / 2)"
  shows "frame_working scr inp st = Inr st' \<Longrightarrow>
           beat_count st' = beat_count st
           \<and> active_explosions st' = sweep (frame st) (active_explosions st)"
    and "frame_working scr inp st = Inl (e, st') \<Longrightarrow>
           beat_count st' = beat_count st
           \<and> active_explosions st' = sweep (frame st) (active_explosions st)"
proof -
  define st2 where "st2 = working_sub_beat (now inp) st"
  define st3 where "st3 = st2\<lparr>active_explosions := sweep (frame st2) (active_explosions st2)\<rparr>"
  have fs: "frame_working scr inp st =
      (case lib_error inp of Some e \<Rightarrow> Inl (e, st3)
       | None \<Rightarrow> bindE (check_quit (pending_event inp) st3) (\<lambda>st4. Inr (st4\<lparr>frame := frame st4 + 1\<rparr>)))"
    unfolding st3_def st2_def frame_working_def Let_def working_beat_quiet[OF assms]
    by (simp add: bindE_def)
  have f3: "beat_count st3 = beat_count st"
    "active_explosions st3 = sweep (frame st) (active_explosions st)"
    by (simp_all add: st3_def st2_def working_sub_beat_fields)
  {
    assume a: "frame_working scr inp st = Inr st'"
    then have le: "lib_error inp = None" unfolding fs by (cases "lib_error inp") simp_all
    from a obtain st4 where q: "check_quit (pending_event inp) st3 = Inr st4"
      and s': "st' = st4\<lparr>frame := frame st4 + 1\<rparr>"
      unfolding fs le by (cases "check_quit (pending_event inp) st3") (auto simp: bindE_def)
    from check_quit_Inr(2,3)[OF q] s' f3
    show "beat_count st' = beat_count st
           \<and> active_explosions st' = sweep (frame st) (active_explosions st)" by simp
  }
  {
    assume a: "frame_working scr inp st = Inl (e, st')"
    have "st' = st3"
    proof (cases "lib_error inp")
      case None
      with a have "check_quit (pending_event inp) st3 = Inl (e, st')"
        unfolding fs by (cases "check_quit (pending_event inp) st3") (simp_all add: bindE_def)
      then show ?thesis by (rule check_quit_Inl)
    next
      case (Some x)
      with a show ?thesis unfolding fs by simp
    qed
    with f3 show "beat_count st' = beat_count st
           \<and> active_explosions st' = sweep (frame st) (active_explosions st)" by simp
  }
qed

lemma run_working_stop:
  "\<not> (running st \<and> busy inp) \<Longrightarrow> run_working scr (inp # inps) st = Finished st"
  by auto

text \<open>The list stays empty and no second beat is ever counted.\<close>

lemma run_working_inv:
  assumes "active_explosions st = []" and "beat_count st = 0"
  shows "active_explosions (result_state (run_working scr inps st)) = []
     \<and> (case run_working scr inps st of
           Raised e st' \<Rightarrow> beat_count st' = 0 \<or> beat_count st' = 1
         | Finished st' \<Rightarrow> beat_count st' = 0
         | Running st' \<Rightarrow> beat_count st' = 0)"
  using assms
proof (induction inps arbitrary: st)
  case Nil
  then show ?case by (simp add: result_state_simps)
next
  case (Cons inp inps)
  show ?case
  proof (cases "running st \<and> busy inp")
    case False
    from run_working_stop[OF this] Cons.prems show ?thesis by (simp add: result_state_simps)
  next
    case True
    show ?thesis
    proof (cases "float_sub (now inp) (last_beat_time st) \<ge> 1 / 2")
      case fired: True
      from frame_working_fired[OF fired] True Cons.prems
      show ?thesis by (simp add: result_state_simps working_beat_state_fields)
    next
      case quiet: False
      show ?thesis
      proof (cases "frame_working scr inp st")
        case (Inl es)
        obtain e st1 where es: "es = (e, st1)" by (cases es)
        from frame_working_quiet(2)[OF quiet Inl[unfolded es]] Cons.prems
        have "beat_count st1 = 0" "active_explosions st1 = []" by (simp_all add: sweep_def)
        then show ?thesis using True Inl es by (simp add: result_state_simps)
      next
        case (Inr st1)
        from frame_working_quiet(1)[OF quiet Inr] Cons.prems
        have "active_explosions st1 = []" "beat_count st1 = 0" by (simp_all add: sweep_def)
        from Cons.IH[OF this] show ?thesis using True Inr by simp
      qed
    qed
  qed
qed

lemma run_working_fired:
  assumes "running st" and "busy inp" and "float_sub (now inp) (last_beat_time st) \<ge> 1 / 2"
  shows "run_working scr (inp # inps) st =
     Raised (if width scr < 10 \<or> height scr < 10 then ValueError else NameError)
            (working_beat_state (now inp) (rnd inp) st)"
  using assms(1,2) frame_working_fired[OF assms(3)] by simp

lemma demo_working_propagates:
  assumes "path_exists (audio_file_of_argv argv)"
    and "run_working scr inps (initial_state t_beat t_sub) = Raised e st"
  shows "demo_working scr argv path_exists t_beat t_sub inps =
     ([MixerInit, MusicLoad (audio_file_of_argv argv), MusicPlay] @ frames_shown (frame st),
      Propagated e)"
  using assms by (simp add: demo_working_def Let_def)


section \<open>The beat branch of the working script\<close>

text \<open>
  Claim C8, as the code has it. The module binds \<open>SerpentFirework\<close>, and the list display
  of the beat branch names \<open>SerpentFireework\<close>, so evaluating the display raises
  NameError. The number of fireworks of a beat is positive, so every execution of the beat
  branch enters the spawn loop, and the first pass through it raises before anything is
  appended: NameError when the screen has at least 10 columns and 10 rows, and
  ValueError from \<open>random.randint\<close>, two lines before the display, when it is smaller.
  The loop of \<open>demo\<close> stands in no \<open>try\<close>, so the exception leaves \<open>demo\<close>, without the
  music being stopped. This happens on the very first beat: in every run the list of
  active explosions stays empty, and a run that has counted a beat has counted exactly
  one and has been left by an exception.
\<close>

theorem working_beat_raises:
  "lookup_name working_namespace ''SerpentFireework'' = Inl NameError
   \<and> lookup_name working_namespace ''SerpentFirework'' = Inr SerpentFirework
   \<and> eval_names working_namespace working_firework_types = Inl NameError
   \<and> (now inp - last_beat_time st \<ge> 1 / 2 \<longrightarrow>
        frame_working scr inp st =
          Inl (if width scr < 10 \<or> height scr < 10 then ValueError else NameError,
               working_beat_state (now inp) (rnd inp) st)
        \<and> active_explosions (working_beat_state (now inp) (rnd inp) st) = active_explosions st)
   \<and> (10 \<le> width scr \<and> 10 \<le> height scr \<and> running st \<and> busy inp
        \<and> now inp - last_beat_time st \<ge> 1 / 2 \<longrightarrow>
        run_working scr (inp # inps') st
          = Raised NameError (working_beat_state (now inp) (rnd inp) st))
   \<and> active_explosions (result_state (run_working scr inps (initial_state t_beat t_sub))) = []
   \<and> (beat_count (result_state (run_working scr inps (initial_state t_beat t_sub))) \<noteq> 0 \<longrightarrow>
        (\<exists>e st1. run_working scr inps (initial_state t_beat t_sub) = Raised e st1
                  \<and> beat_count st1 = 1))
   \<and> (path_exists (audio_file_of_argv argv)
        \<and> run_working scr inps (initial_state t_beat t_sub) = Raised e st' \<longrightarrow>
        snd (demo_working scr argv path_exists t_beat t_sub inps) = Propagated e
        \<and> MusicStop \<notin> set (fst (demo_working scr argv path_exists t_beat t_sub inps)))"
proof -
  define r where "r = run_working scr inps (initial_state t_beat t_sub)"
  have 1: "lookup_name working_namespace ''SerpentFireework'' = Inl NameError"
    "lookup_name working_namespace ''SerpentFirework'' = Inr SerpentFirework"
    by (simp_all add: lookup_name_def working_namespace_def)
  have 2: "eval_names working_namespace working_firework_types = Inl NameError"
    by (rule eval_names_working)
  have 3: "frame_working scr inp st =
          Inl (if width scr < 10 \<or> height scr < 10 then ValueError else NameError,
               working_beat_state (now inp) (rnd inp) st)
        \<and> active_explosions (working_beat_state (now inp) (rnd inp) st) = active_explosions st"
    if "now inp - last_beat_time st \<ge> 1 / 2"
    using frame_working_fired[OF float_sub_ge_half[OF that]]
    by (simp add: working_beat_state_fields)
  have 4: "run_working scr (inp # inps') st
          = Raised NameError (working_beat_state (now inp) (rnd inp) st)"
    if "10 \<le> width scr \<and> 10 \<le> height scr \<and> running st \<and> busy inp
        \<and> now inp - last_beat_time st \<ge> 1 / 2"
  proof -
    from that have "running st" "busy inp" "now inp - last_beat_time st \<ge> 1 / 2" by simp_all
    from run_working_fired[OF this(1,2) float_sub_ge_half[OF this(3)]] that show ?thesis by simp
  qed
  have i: "active_explosions (initial_state t_beat t_sub) = []"
    "beat_count (initial_state t_beat t_sub) = 0"
    by (simp_all add: initial_state_def)
  note inv = run_working_inv[OF i, where scr = scr and inps = inps, folded r_def]
  have 5: "active_explosions (result_state r) = []" using inv by blast
  have 6: "\<exists>e st1. r = Raised e st1 \<and> beat_count st1 = 1" if "beat_count (result_state r) \<noteq> 0"
    using inv that by (cases r) (auto simp: result_state_simps)
  have 7: "snd (demo_working scr argv path_exists t_beat t_sub inps) = Propagated e
        \<and> MusicStop \<notin> set (fst (demo_working scr argv path_exists t_beat t_sub inps))"
    if "path_exists (audio_file_of_argv argv) \<and> r = Raised e st'"
  proof -
    from that have a: "path_exists (audio_file_of_argv argv)"
      and b: "run_working scr inps (initial_state t_beat t_sub) = Raised e st'"
      by (simp_all add: r_def)
    have "demo_working scr argv path_exists t_beat t_sub inps =
     ([MixerInit, MusicLoad (audio_file_of_argv argv), MusicPlay] @ frames_shown (frame st'),
      Propagated e)"
      using a b by (rule demo_working_propagates)
    then show ?thesis by (simp add: frames_shown_def)
  qed
  from 1 2 3 4 5 6 7 show ?thesis unfolding r_def by blast
qed

text \<open>The theorem at the first beat on a screen of 80 by 24.\<close>

theorem working_beat_raises_witness:
  "now (tick 1) - last_beat_time (initial_state 0 0) \<ge> 1 / 2
   \<and> frame_working \<lparr>width = 80, height = 24\<rparr> (tick 1) (initial_state 0 0)
       = Inl (NameError, working_beat_state 1 (\<lambda>n. 0) (initial_state 0 0))
   \<and> active_explosions (working_beat_state 1 (\<lambda>n. 0) (initial_state 0 0)) = []
   \<and> (10::int) \<le> width \<lparr>width = 80, height = 24\<rparr> \<and> (10::int) \<le> height \<lparr>width = 80, height = 24\<rparr>
   \<and> running (initial_state 0 0) \<and> busy (tick 1)
   \<and> run_working \<lparr>width = 80, height = 24\<rparr> [tick 1] (initial_state 0 0)
       = Raised NameError (working_beat_state 1 (\<lambda>n. 0) (initial_state 0 0))
   \<and> beat_count (working_beat_state 1 (\<lambda>n. 0) (initial_state 0 0)) = 1
   \<and> audio_file_of_argv [''ascii-beats-working.py'', ''song.wav''] = ''song.wav''
   \<and> snd (demo_working \<lparr>width = 80, height = 24\<rparr> [''ascii-beats-working.py'', ''song.wav'']
            (\<lambda>p. True) 0 0 [tick 1]) = Propagated NameError"
proof -
  let ?scr = "\<lparr>width = 80, height = 24\<rparr>"
  let ?st = "initial_state 0 0"
  let ?w = "working_beat_state 1 (\<lambda>n. 0) ?st"
  let ?argv = "[''ascii-beats-working.py'', ''song.wav'']"
  note t = working_beat_raises[where scr = ?scr and inp = "tick 1" and st = ?st and inps' = "[]"
      and inps = "[tick 1]" and t_beat = 0 and t_sub = 0 and path_exists = "\<lambda>p. True"
      and argv = ?argv and e = NameError and st' = ?w]
  have f: "now (tick 1) - last_beat_time ?st \<ge> 1 / 2"
    by (simp add: tick_def initial_state_def)
  have tk: "now (tick 1) = 1" "rnd (tick 1) = (\<lambda>n. 0)" "busy (tick 1)" by (simp_all add: tick_def)
  have rn: "running ?st" by (simp add: initial_state_def)
  have sz: "(10::int) \<le> width ?scr \<and> (10::int) \<le> height ?scr" by simp
  have av: "audio_file_of_argv ?argv = ''song.wav''" by (simp add: audio_file_of_argv_def)
  from t f have 1: "frame_working ?scr (tick 1) ?st = Inl (NameError, ?w)"
    "active_explosions ?w = active_explosions ?st"
    unfolding tk by simp_all
  from t f sz rn tk(3) have 2: "run_working ?scr [tick 1] ?st = Raised NameError ?w"
    unfolding tk(1,2) by blast
  from t 2 have 3: "snd (demo_working ?scr ?argv (\<lambda>p. True) 0 0 [tick 1]) = Propagated NameError"
    by blast
  have 4: "active_explosions ?w = []" using 1(2) by (simp add: initial_state_def)
  have 5: "beat_count ?w = 1" by (simp add: working_beat_state_fields initial_state_def)
  from f 1(1) 4 sz rn tk(3) 2 5 av 3 show ?thesis by (intro conjI) blast+
qed

text \<open>
  The claim as stated has every execution of the beat branch evaluate the undefined
  name and raise NameError. On a screen of 9 rows the first beat raises ValueError
  instead, at \<open>random.randint(5, screen.height - 5)\<close>.
\<close>

theorem working_beat_small_screen_counterexample:
  "working_beat \<lparr>width = 80, height = 9\<rparr> 1 (\<lambda>n. 0) (initial_state 0 0)
     = Inl (ValueError, working_beat_state 1 (\<lambda>n. 0) (initial_state 0 0))
   \<and> run_working \<lparr>width = 80, height = 9\<rparr> [tick 1] (initial_state 0 0)
     = Raised ValueError (working_beat_state 1 (\<lambda>n. 0) (initial_state 0 0))
   \<and> ValueError \<noteq> NameError"
proof -
  have f: "float_sub 1 (last_beat_time (initial_state 0 0)) \<ge> 1 / 2"
    by (rule float_sub_ge_half) (simp add: initial_state_def)
  have tk: "now (tick 1) = 1" "rnd (tick 1) = (\<lambda>n. 0)" "busy (tick 1)" by (simp_all add: tick_def)
  have rn: "running (initial_state 0 0)" by (simp add: initial_state_def)
  have 1: "working_beat \<lparr>width = 80, height = 9\<rparr> 1 (\<lambda>n. 0) (initial_state 0 0)
     = Inl (ValueError, working_beat_state 1 (\<lambda>n. 0) (initial_state 0 0))"
    using working_beat_fired[OF f, where scr = "\<lparr>width = 80, height = 9\<rparr>" and g = "\<lambda>n. 0"]
    by simp
  have 2: "run_working \<lparr>width = 80, height = 9\<rparr> [tick 1] (initial_state 0 0)
     = Raised ValueError (working_beat_state 1 (\<lambda>n. 0) (initial_state 0 0))"
    using run_working_fired[OF rn tk(3), where scr = "\<lparr>width = 80, height = 9\<rparr>" and inps = "[]"] f
    unfolding tk by simp
  from 1 2 show ?thesis by simp
qed

text \<open>
  Every pass through the loop of \<open>CrazyFirework.__init__\<close> reaches a constructor call with
  four positional arguments after the screen, which raises.
\<close>

lemma crazy_effects_raises: "crazy_effects (Suc n) x y acc g = Inl TypeError"
  by (simp add: randint_def split_beta)

lemma CrazyFirework_raises: "CrazyFirework x y g = Inl TypeError"
  unfolding CrazyFirework_def numeral_3_eq_3 by (rule crazy_effects_raises)

lemma insane_spawn_raises:
  "insane_spawn (Suc n) scr g st =
     Inl (if width scr < 10 \<or> height scr < 10 then ValueError else TypeError, st)"
  by (simp add: randint_def CrazyFirework_raises)

lemma append_effects_fields:
  "beat_count_q (append_effects es st) = beat_count_q st"
  "frame_q (append_effects es st) = frame_q st"
  "running_q (append_effects es st) = running_q st"
  by (induction es arbitrary: st) simp_all

lemma insane_spawn_count:
  "case insane_spawn n scr g st of
     Inl (e, st') \<Rightarrow> beat_count_q st' = beat_count_q st \<and> frame_q st' = frame_q st
   | Inr (st', g') \<Rightarrow> beat_count_q st' = beat_count_q st \<and> frame_q st' = frame_q st"
proof (induction n arbitrary: g st)
  case 0
  show ?case by simp
next
  case (Suc n)
  show ?case
  proof (cases "randint 5 (width scr - 5) g")
    case (Inl e)
    then show ?thesis by simp
  next
    case (Inr xg)
    obtain x g1 where xg: "xg = (x, g1)" by (cases xg)
    show ?thesis
    proof (cases "randint 5 (height scr - 5) g1")
      case (Inl e)
      then show ?thesis using Inr xg by simp
    next
      case yg: (Inr yg)
      obtain y g2 where yg2: "yg = (y, g2)" by (cases yg)
      show ?thesis
      proof (cases "CrazyFirework x y g2")
        case (Inl e)
        then show ?thesis using Inr xg yg yg2 by simp
      next
        case cf: (Inr eg)
        obtain es g3 where eg: "eg = (es, g3)" by (cases eg)
        have eq: "insane_spawn (Suc n) scr g st = insane_spawn n scr g3 (append_effects es st)"
          using Inr xg yg yg2 cf eg by simp
        show ?thesis
          unfolding eq
          using Suc.IH[where g = g3 and st = "append_effects es st"]
          by (simp add: append_effects_fields split: sum.splits prod.splits)
      qed
    qed
  qed
qed

text \<open>The state with which the spawn loop of one drained event starts.\<close>

lemma handle_beat_unfold:
  "handle_beat scr beat g st =
     insane_spawn (nat (min (py_int (float_mul (beat_intensity beat) 10) + 2) 8)) scr g
       (if (beat_count_q st + 1) mod 8 = 0
        then st\<lparr>beat_count_q := beat_count_q st + 1,
                current_scheme := (current_scheme st + 1) mod int (length insane_color_schemes)\<rparr>
        else st\<lparr>beat_count_q := beat_count_q st + 1\<rparr>)"
  by (simp add: handle_beat_def Let_def)

lemma handle_beat_count:
  "case handle_beat scr beat g st of
     Inl (e, st') \<Rightarrow> beat_count_q st' = beat_count_q st + 1 \<and> frame_q st' = frame_q st
   | Inr (st', g') \<Rightarrow> beat_count_q st' = beat_count_q st + 1 \<and> frame_q st' = frame_q st"
proof -
  define st2 where "st2 = (if (beat_count_q st + 1) mod 8 = 0
        then st\<lparr>beat_count_q := beat_count_q st + 1,
                current_scheme := (current_scheme st + 1) mod int (length insane_color_schemes)\<rparr>
        else st\<lparr>beat_count_q := beat_count_q st + 1\<rparr>)"
  have s2: "beat_count_q st2 = beat_count_q st + 1" "frame_q st2 = frame_q st"
    by (simp_all add: st2_def)
  show ?thesis
    unfolding handle_beat_unfold st2_def[symmetric]
    using insane_spawn_count[where n = "nat (min (py_int (float_mul (beat_intensity beat) 10) + 2) 8)"
        and scr = scr and g = g and st = st2]
    by (simp add: s2 split: sum.splits prod.splits)
qed

text \<open>
  The handler of an event whose intensity is not negative builds at least two
  \<open>CrazyFirework\<close> objects, so it is left by an exception, after it has counted the event.
\<close>

lemma handle_beat_raises:
  assumes "0 \<le> beat_intensity beat"
  shows "handle_beat scr beat g st =
     Inl (if width scr < 10 \<or> height scr < 10 then ValueError else TypeError,
          if (beat_count_q st + 1) mod 8 = 0
          then st\<lparr>beat_count_q := beat_count_q st + 1,
                  current_scheme := (current_scheme st + 1) mod int (length insane_color_schemes)\<rparr>
          else st\<lparr>beat_count_q := beat_count_q st + 1\<rparr>)"
proof -
  have "0 \<le> py_int (float_mul (beat_intensity beat) 10)"
    using assms by (intro py_int_nonneg float_mul_nonneg) simp_all
  then have "0 < nat (min (py_int (float_mul (beat_intensity beat) 10) + 2) 8)" by simp
  then obtain k where k: "nat (min (py_int (float_mul (beat_intensity beat) 10) + 2) 8) = Suc k"
    using gr0_implies_Suc by blast
  show ?thesis unfolding handle_beat_unfold k insane_spawn_raises ..
qed

text \<open>So an iteration that finds an event on the queue is left in the handler of the first one.\<close>

lemma frame_insane_raises:
  assumes "0 \<le> beat_intensity beat"
  shows "frame_insane scr (beat # rest) inp st =
     Inl (if width scr < 10 \<or> height scr < 10 then ValueError else TypeError,
          if (beat_count_q st + 1) mod 8 = 0
          then st\<lparr>beat_count_q := beat_count_q st + 1,
                  current_scheme := (current_scheme st + 1) mod int (length insane_color_schemes)\<rparr>
          else st\<lparr>beat_count_q := beat_count_q st + 1\<rparr>)"
  by (simp add: frame_insane_def bindE_def handle_beat_raises[OF assms])

section \<open>The drain of the beat queue\<close>

text \<open>
  Claim C10. In the queue-driven script the drain loop runs the handler once for every
  event it takes from the queue, and the handler adds one to \<open>beat_count\<close> before anything
  else. The handler then builds \<open>CrazyFirework\<close> objects, at least two of them, and the
  first constructor call in \<open>CrazyFirework.__init__\<close> passes a fifth positional argument
  and raises TypeError, which leaves the drain loop and the render loop. With two events
  pending on a screen of 80 by 24, the iteration is left by TypeError in the handler of
  the first event: \<open>beat_count\<close> has grown by one, not by two, the second event is never
  taken, and \<open>demo\<close> shows the error, sleeps, stops the music and returns.
\<close>

theorem drain_first_event_raises:
  "new_firework RingFirework [0, 2, 15, 20] = Inl TypeError
   \<and> frame_insane \<lparr>width = 80, height = 24\<rparr>
      [\<lparr>time = 1 / 2, index = 0, beat_intensity = 1 / 2\<rparr>,
       \<lparr>time = 3 / 5, index = 1, beat_intensity = 1\<rparr>]
      (tick 1) insane_initial
    = Inl (TypeError, insane_initial\<lparr>beat_count_q := 1\<rparr>)
   \<and> beat_count_q insane_initial = 0
   \<and> beat_count_q (insane_initial\<lparr>beat_count_q := 1\<rparr>) = 1
   \<and> run_insane \<lparr>width = 80, height = 24\<rparr>
        [([\<lparr>time = 1 / 2, index = 0, beat_intensity = 1 / 2\<rparr>,
           \<lparr>time = 3 / 5, index = 1, beat_intensity = 1\<rparr>], tick 1),
         ([], tick 2)]
        insane_initial
      = Raised_q TypeError (insane_initial\<lparr>beat_count_q := 1\<rparr>)
   \<and> demo_insane \<lparr>width = 80, height = 24\<rparr> ''song.wav'' (\<lambda>p. True)
        [([\<lparr>time = 1 / 2, index = 0, beat_intensity = 1 / 2\<rparr>,
           \<lparr>time = 3 / 5, index = 1, beat_intensity = 1\<rparr>], tick 1),
         ([], tick 2)]
      = ([AnalyseAudio ''song.wav'', StartPlayerThread, PrintAt (ErrorText TypeError), Refresh,
          Sleep 2, MusicStop, PygameQuit],
         Returned)"
  by code_simp

lemma demo_raised:
  assumes "path_exists f" and "run_loop scr mode inps (initial_state t_beat t_sub) = Raised e st"
  shows "demo scr f mode path_exists t_beat t_sub inps =
     ([MixerInit, MusicLoad f, MusicPlay] @ frames_shown (frame st) @ [MusicStop, PygameQuit],
      Propagated e)"
  using assms by (simp add: demo_def Let_def)

lemma demo_insane_raised:
  assumes "f \<noteq> []" and "path_exists f"
    and "run_insane scr inps insane_initial = Raised_q e st" and "is_Exception e"
  shows "demo_insane scr f path_exists inps =
     ([AnalyseAudio f, StartPlayerThread] @ frames_shown (frame_q st)
        @ [PrintAt (ErrorText e), Refresh, Sleep 2, MusicStop, PygameQuit],
      Returned)"
  using assms by (simp add: demo_insane_def Let_def)

lemma main_raised:
  assumes "parse_args c = Inr (f, m)" and "VisualizerMode_of m = Inr mode" and "path_exists f"
    and "run_loop scr mode inps (initial_state t_beat t_sub) = Raised e st"
    and "e \<noteq> KeyboardInterrupt"
  shows "main c path_exists scr t_beat t_sub inps =
     \<lparr>trace = [Print Banner, Sleep 1, ScreenOpen, MixerInit, MusicLoad f, MusicPlay]
               @ frames_shown (frame st)
               @ [MusicStop, PygameQuit, ScreenClose, Print (ErrorText e), PrintTraceback e],
      exit_status = Some 0\<rparr>"
proof -
  have d: "demo scr f mode path_exists t_beat t_sub inps =
     ([MixerInit, MusicLoad f, MusicPlay] @ frames_shown (frame st) @ [MusicStop, PygameQuit],
      Propagated e)"
    using assms(3,4) by (rule demo_raised)
  show ?thesis
    using assms(1,2,3,5)
    by (simp add: main_def d Screen_wrapper_def main_handlers_def Let_def)
qed

lemma small_screen_first_beat:
  "run_loop \<lparr>width = 80, height = 9\<rparr> SIMPLE [tick 1] (initial_state 0 0)
     = Raised ValueError
         \<lparr>frame = 0, beat_count = 1, active_explosions = [], last_beat_time = 1,
          last_sub_beat = 0, current_scheme_idx = 0, intensity = 1 / 2, running = True\<rparr>"
  by code_simp

lemma small_screen_first_drain:
  "run_insane \<lparr>width = 80, height = 9\<rparr>
      [([\<lparr>time = 1 / 2, index = 0, beat_intensity = 1 / 2\<rparr>], tick 1)] insane_initial
     = Raised_q ValueError (insane_initial\<lparr>beat_count_q := 1\<rparr>)"
  by code_simp

section \<open>An exception in the render loop\<close>

text \<open>
  Claim C7, as the code has it. In both scripts an exception raised in an iteration
  ends the loop: nothing of the observations that follow is read, so there is no
  retry. In the queue-driven script \<open>demo\<close> catches every \<open>Exception\<close>, shows it once on
  the screen, sleeps for 2 seconds, stops the music and returns, and \<open>Screen.wrapper\<close>
  closes the screen. In the unified visualizer \<open>demo\<close> does not catch the exception: its
  \<open>finally\<close> clause stops the music at once, the exception leaves \<open>demo\<close>,
  \<open>Screen.wrapper\<close> closes the screen, and \<open>main\<close> prints the error and a traceback on
  the console; there is no delay and nothing is shown on the screen.
\<close>

theorem loop_error_shutdown:
  "(running st \<and> busy inp \<and> frame_step scr mode inp st = Inl (e, st') \<longrightarrow>
      run_loop scr mode (inp # inps') st = Raised e st')
   \<and> (running_q qst \<and> frame_insane scr beats inp qst = Inl (e, qst') \<longrightarrow>
        run_insane scr ((beats, inp) # qinps') qst = Raised_q e qst')
   \<and> (f \<noteq> [] \<and> path_exists f \<and> run_insane scr qinps insane_initial = Raised_q e qst'
        \<and> is_Exception e \<longrightarrow>
        demo_insane scr f path_exists qinps =
          ([AnalyseAudio f, StartPlayerThread] @ frames_shown (frame_q qst')
             @ [PrintAt (ErrorText e), Refresh, Sleep 2, MusicStop, PygameQuit],
           Returned)
        \<and> Screen_wrapper (demo_insane scr f path_exists qinps) =
          ([ScreenOpen, AnalyseAudio f, StartPlayerThread] @ frames_shown (frame_q qst')
             @ [PrintAt (ErrorText e), Refresh, Sleep 2, MusicStop, PygameQuit, ScreenClose],
           Returned))
   \<and> (path_exists f \<and> run_loop scr mode inps (initial_state t_beat t_sub) = Raised e st' \<longrightarrow>
        demo scr f mode path_exists t_beat t_sub inps =
          ([MixerInit, MusicLoad f, MusicPlay] @ frames_shown (frame st')
             @ [MusicStop, PygameQuit],
           Propagated e))
   \<and> (parse_args c = Inr (f, m) \<and> VisualizerMode_of m = Inr mode \<and> path_exists f
        \<and> run_loop scr mode inps (initial_state t_beat t_sub) = Raised e st'
        \<and> e \<noteq> KeyboardInterrupt \<longrightarrow>
        main c path_exists scr t_beat t_sub inps =
          \<lparr>trace = [Print Banner, Sleep 1, ScreenOpen, MixerInit, MusicLoad f, MusicPlay]
               @ frames_shown (frame st')
               @ [MusicStop, PygameQuit, ScreenClose, Print (ErrorText e), PrintTraceback e],
           exit_status = Some 0\<rparr>)"
proof -
  have 1: "run_loop scr mode (inp # inps') st = Raised e st'"
    if "running st \<and> busy inp \<and> frame_step scr mode inp st = Inl (e, st')"
    using that by simp
  have 2: "run_insane scr ((beats, inp) # qinps') qst = Raised_q e qst'"
    if "running_q qst \<and> frame_insane scr beats inp qst = Inl (e, qst')"
    using that by simp
  have 3: "demo_insane scr f path_exists qinps =
          ([AnalyseAudio f, StartPlayerThread] @ frames_shown (frame_q qst')
             @ [PrintAt (ErrorText e), Refresh, Sleep 2, MusicStop, PygameQuit],
           Returned)
        \<and> Screen_wrapper (demo_insane scr f path_exists qinps) =
          ([ScreenOpen, AnalyseAudio f, StartPlayerThread] @ frames_shown (frame_q qst')
             @ [PrintAt (ErrorText e), Refresh, Sleep 2, MusicStop, PygameQuit, ScreenClose],
           Returned)"
    if h: "f \<noteq> [] \<and> path_exists f \<and> run_insane scr qinps insane_initial = Raised_q e qst'
        \<and> is_Exception e"
  proof -
    from h have a: "f \<noteq> []" and b: "path_exists f"
      and c: "run_insane scr qinps insane_initial = Raised_q e qst'" and d: "is_Exception e"
      by simp_all
    have "demo_insane scr f path_exists qinps =
          ([AnalyseAudio f, StartPlayerThread] @ frames_shown (frame_q qst')
             @ [PrintAt (ErrorText e), Refresh, Sleep 2, MusicStop, PygameQuit],
           Returned)"
      using a b c d by (rule demo_insane_raised)
    then show ?thesis by (simp add: Screen_wrapper_def)
  qed
  have 4: "demo scr f mode path_exists t_beat t_sub inps =
          ([MixerInit, MusicLoad f, MusicPlay] @ frames_shown (frame st')
             @ [MusicStop, PygameQuit],
           Propagated e)"
    if h: "path_exists f \<and> run_loop scr mode inps (initial_state t_beat t_sub) = Raised e st'"
  proof -
    from h have a: "path_exists f"
      and b: "run_loop scr mode inps (initial_state t_beat t_sub) = Raised e st'" by simp_all
    show ?thesis using a b by (rule demo_raised)
  qed
  have 5: "main c path_exists scr t_beat t_sub inps =
          \<lparr>trace = [Print Banner, Sleep 1, ScreenOpen, MixerInit, MusicLoad f, MusicPlay]
               @ frames_shown (frame st')
               @ [MusicStop, PygameQuit, ScreenClose, Print (ErrorText e), PrintTraceback e],
           exit_status = Some 0\<rparr>"
    if h: "parse_args c = Inr (f, m) \<and> VisualizerMode_of m = Inr mode \<and> path_exists f
        \<and> run_loop scr mode inps (initial_state t_beat t_sub) = Raised e st'
        \<and> e \<noteq> KeyboardInterrupt"
  proof -
    from h have a: "parse_args c = Inr (f, m)" and b: "VisualizerMode_of m = Inr mode"
      and c: "path_exists f"
      and d: "run_loop scr mode inps (initial_state t_beat t_sub) = Raised e st'"
      and e: "e \<noteq> KeyboardInterrupt" by simp_all
    show ?thesis using a b c d e by (rule main_raised)
  qed
  from 1 2 3 4 5 show ?thesis by blast
qed

text \<open>The theorem at the exception of a first beat on a screen of 9 rows, in both scripts.\<close>

theorem loop_error_shutdown_witness:
  "''song.wav'' \<noteq> [] \<and> is_Exception ValueError \<and> ValueError \<noteq> KeyboardInterrupt
   \<and> run_insane \<lparr>width = 80, height = 9\<rparr>
        [([\<lparr>time = 1 / 2, index = 0, beat_intensity = 1 / 2\<rparr>], tick 1)] insane_initial
       = Raised_q ValueError (insane_initial\<lparr>beat_count_q := 1\<rparr>)
   \<and> Screen_wrapper (demo_insane \<lparr>width = 80, height = 9\<rparr> ''song.wav'' (\<lambda>p. True)
        [([\<lparr>time = 1 / 2, index = 0, beat_intensity = 1 / 2\<rparr>], tick 1)])
       = ([ScreenOpen, AnalyseAudio ''song.wav'', StartPlayerThread,
           PrintAt (ErrorText ValueError), Refresh, Sleep 2, MusicStop, PygameQuit, ScreenClose],
          Returned)
   \<and> run_loop \<lparr>width = 80, height = 9\<rparr> SIMPLE [tick 1] (initial_state 0 0)
       = Raised ValueError
           \<lparr>frame = 0, beat_count = 1, active_explosions = [], last_beat_time = 1,
            last_sub_beat = 0, current_scheme_idx = 0, intensity = 1 / 2, running = True\<rparr>
   \<and> parse_args \<lparr>audio_file_arg = Some ''song.wav'', mode_arg = Some ''simple''\<rparr>
       = Inr (''song.wav'', ''simple'')
   \<and> VisualizerMode_of ''simple'' = Inr SIMPLE
   \<and> main \<lparr>audio_file_arg = Some ''song.wav'', mode_arg = Some ''simple''\<rparr> (\<lambda>p. True)
        \<lparr>width = 80, height = 9\<rparr> 0 0 [tick 1]
       = \<lparr>trace = [Print Banner, Sleep 1, ScreenOpen, MixerInit, MusicLoad ''song.wav'', MusicPlay,
                   MusicStop, PygameQuit, ScreenClose, Print (ErrorText ValueError),
                   PrintTraceback ValueError],
          exit_status = Some 0\<rparr>"
proof -
  let ?scr = "\<lparr>width = 80, height = 9\<rparr>"
  let ?c = "\<lparr>audio_file_arg = Some ''song.wav'', mode_arg = Some ''simple''\<rparr>"
  let ?q = "[([\<lparr>time = 1 / 2, index = 0, beat_intensity = 1 / 2\<rparr>], tick 1)]"
  let ?st = "\<lparr>frame = 0, beat_count = 1, active_explosions = [], last_beat_time = 1,
            last_sub_beat = 0, current_scheme_idx = 0, intensity = 1 / 2, running = True\<rparr>"
  note t = loop_error_shutdown[where scr = ?scr and f = "''song.wav''" and path_exists = "\<lambda>p. True"
      and qinps = ?q and e = ValueError and qst' = "insane_initial\<lparr>beat_count_q := 1\<rparr>"
      and mode = SIMPLE and inps = "[tick 1]" and t_beat = 0 and t_sub = 0 and st' = ?st
      and c = ?c and m = "''simple''"]
  note c3 = t[THEN conjunct2, THEN conjunct2, THEN conjunct1]
  note c5 = t[THEN conjunct2, THEN conjunct2, THEN conjunct2, THEN conjunct2]
  have n: "''song.wav'' \<noteq> []" by simp
  have x: "is_Exception ValueError" "ValueError \<noteq> KeyboardInterrupt"
    by (simp_all add: is_Exception_def)
  have p: "parse_args ?c = Inr (''song.wav'', ''simple'')"
    by (simp add: parse_args_def mode_choices_def)
  have v: "VisualizerMode_of ''simple'' = Inr SIMPLE" by (simp add: VisualizerMode_of_def)
  have fq: "frame_q (insane_initial\<lparr>beat_count_q := 1\<rparr>) = 0" by (simp add: insane_initial_def)
  have h3: "''song.wav'' \<noteq> [] \<and> (\<lambda>p. True) ''song.wav''
      \<and> run_insane ?scr ?q insane_initial = Raised_q ValueError (insane_initial\<lparr>beat_count_q := 1\<rparr>)
      \<and> is_Exception ValueError"
    using n x(1) small_screen_first_drain by simp
  have h5: "parse_args ?c = Inr (''song.wav'', ''simple'') \<and> VisualizerMode_of ''simple'' = Inr SIMPLE
      \<and> (\<lambda>p. True) ''song.wav''
      \<and> run_loop ?scr SIMPLE [tick 1] (initial_state 0 0) = Raised ValueError ?st
      \<and> ValueError \<noteq> KeyboardInterrupt"
    using p v x(2) small_screen_first_beat by simp
  from c3[THEN mp, OF h3, THEN conjunct2]
  have w: "Screen_wrapper (demo_insane ?scr ''song.wav'' (\<lambda>p. True) ?q)
       = ([ScreenOpen, AnalyseAudio ''song.wav'', StartPlayerThread,
           PrintAt (ErrorText ValueError), Refresh, Sleep 2, MusicStop, PygameQuit, ScreenClose],
          Returned)"
    by (simp add: fq frames_shown_def)
  from c5[THEN mp, OF h5]
  have m: "main ?c (\<lambda>p. True) ?scr 0 0 [tick 1]
       = \<lparr>trace = [Print Banner, Sleep 1, ScreenOpen, MixerInit, MusicLoad ''song.wav'', MusicPlay,
                   MusicStop, PygameQuit, ScreenClose, Print (ErrorText ValueError),
                   PrintTraceback ValueError],
          exit_status = Some 0\<rparr>"
    by (simp add: frames_shown_def)
  from n x small_screen_first_drain w small_screen_first_beat p v m
  show ?thesis by (intro conjI)
qed

text \<open>
  The claim as stated has the loop exit after a short fixed delay, with the error
  displayed. In the unified visualizer on a screen of 9 rows the first beat raises
  ValueError; the trace holds no sleep of 2 seconds and no text put on the screen: the
  music stops and the screen closes at once, and the console prints follow.
\<close>

theorem unified_error_no_delay_counterexample:
  "main \<lparr>audio_file_arg = Some ''song.wav'', mode_arg = Some ''simple''\<rparr> (\<lambda>p. True)
        \<lparr>width = 80, height = 9\<rparr> 0 0 [tick 1]
       = \<lparr>trace = [Print Banner, Sleep 1, ScreenOpen, MixerInit, MusicLoad ''song.wav'', MusicPlay,
                   MusicStop, PygameQuit, ScreenClose, Print (ErrorText ValueError),
                   PrintTraceback ValueError],
          exit_status = Some 0\<rparr>
   \<and> Sleep 2 \<notin> set (trace (main \<lparr>audio_file_arg = Some ''song.wav'', mode_arg = Some ''simple''\<rparr>
        (\<lambda>p. True) \<lparr>width = 80, height = 9\<rparr> 0 0 [tick 1]))
   \<and> PrintAt (ErrorText ValueError)
        \<notin> set (trace (main \<lparr>audio_file_arg = Some ''song.wav'', mode_arg = Some ''simple''\<rparr>
        (\<lambda>p. True) \<lparr>width = 80, height = 9\<rparr> 0 0 [tick 1]))"
  by code_simp

end
